(* ===== verification/Js_Prelude.thy ===== *)
theory Js_Prelude
  imports Complex_Main "HOL-Library.Char_ord" "HOL-Library.List_Lexorder" "HOL-Library.Multiset"
begin

text \<open>
  The part of the JavaScript value model that every component shares.

  A JavaScript string is a \<^typ>\<open>string\<close>, one character per code unit; code units above 255
  are not represented (every pattern and literal of the modelled code is ASCII). The order
  \<open><\<close> on strings (theories \<open>List_Lexorder\<close> and \<open>Char_ord\<close>) is the code unit order of
  JavaScript's \<open><\<close> and of \<open>Array.prototype.sort\<close> without a comparator.
  A number is a rational or one of the three non-finite values; the rounding of doubles is
  not represented. An object is the list of its own properties in insertion order, an absent
  property (\<open>undefined\<close>) is \<^term>\<open>None\<close>.
  A \<open>throw new Error(m)\<close> is the value \<^term>\<open>Inl m\<close>.
\<close>

named_theorems js_simps \<open>evaluation rules of the JavaScript primitives\<close>

section \<open>Values\<close>

datatype jsnum = Fin rat | PosInf | NegInf | NaN

datatype jsval =
    JNull
  | JBool bool
  | JNum jsnum
  | JStr string
  | JArr "jsval list"
  | JObj "(string \<times> jsval) list"

type_synonym jsobj = "(string \<times> jsval) list"
type_synonym 'a result = "string + 'a"

abbreviation JInt :: "int \<Rightarrow> jsval" where
  "JInt n \<equiv> JNum (Fin (of_int n))"

text \<open>\<open>typeof value === "object" && value !== null && !Array.isArray(value)\<close>\<close>

fun as_record :: "jsval \<Rightarrow> jsobj option" where
  "as_record (JObj o') = Some o'"
| "as_record _ = None"

fun as_array :: "jsval option \<Rightarrow> jsval list option" where
  "as_array (Some (JArr xs)) = Some xs"
| "as_array _ = None"

fun as_string :: "jsval option \<Rightarrow> string option" where
  "as_string (Some (JStr s)) = Some s"
| "as_string _ = None"

fun as_bool :: "jsval option \<Rightarrow> bool option" where
  "as_bool (Some (JBool b)) = Some b"
| "as_bool _ = None"

text \<open>\<open>typeof value === "number" && Number.isFinite(value)\<close>\<close>

fun as_finite :: "jsval option \<Rightarrow> rat option" where
  "as_finite (Some (JNum (Fin q))) = Some q"
| "as_finite _ = None"

definition is_integer :: "rat \<Rightarrow> bool" where
  "is_integer q \<longleftrightarrow> of_int \<lfloor>q\<rfloor> = q"

abbreviation fld :: "jsobj \<Rightarrow> string \<Rightarrow> jsval option" where
  "fld ob k \<equiv> map_of ob k"

definition has_key :: "jsobj \<Rightarrow> string \<Rightarrow> bool" where
  "has_key ob k \<longleftrightarrow> fld ob k \<noteq> None"

text \<open>\<open>a ?? b\<close> on property reads: the second operand when the first is null or undefined.\<close>

fun nullish :: "jsval option \<Rightarrow> jsval option \<Rightarrow> jsval option" where
  "nullish None b = b"
| "nullish (Some JNull) b = b"
| "nullish a b = a"

text \<open>\<open>a === b\<close> on primitive values (NaN differs from itself; objects and arrays are compared
  by identity, which no modelled comparison relies on).\<close>

fun strict_eq :: "jsval option \<Rightarrow> jsval option \<Rightarrow> bool" where
  "strict_eq None None = True"
| "strict_eq (Some JNull) (Some JNull) = True"
| "strict_eq (Some (JBool a)) (Some (JBool b)) = (a = b)"
| "strict_eq (Some (JStr a)) (Some (JStr b)) = (a = b)"
| "strict_eq (Some (JNum a)) (Some (JNum b)) = (a = b \<and> a \<noteq> NaN)"
| "strict_eq _ _ = False"

lemma as_string_Some [simp]: "as_string v = Some s \<longleftrightarrow> v = Some (JStr s)"
  by (cases v rule: as_string.cases) auto

lemma as_bool_Some [simp]: "as_bool v = Some b \<longleftrightarrow> v = Some (JBool b)"
  by (cases v rule: as_bool.cases) auto

lemma as_array_Some [simp]: "as_array v = Some xs \<longleftrightarrow> v = Some (JArr xs)"
  by (cases v rule: as_array.cases) auto

lemma as_finite_Some [simp]: "as_finite v = Some q \<longleftrightarrow> v = Some (JNum (Fin q))"
  by (cases v rule: as_finite.cases) auto

lemma as_record_Some [simp]: "as_record v = Some ob \<longleftrightarrow> v = JObj ob"
  by (cases v) auto

lemma map_JStr_eq [simp]: "map JStr a = map JStr b \<longleftrightarrow> a = b"
  by (rule inj_map_eq_map) (simp add: inj_def)

section \<open>Errors: sequences of guards, binding, traversal\<close>

text \<open>\<open>throw_if\<close> is a sequence of statements \<open>if (bad) throw e;\<close>: the first guard that
  holds decides the error.\<close>

fun throw_if :: "(bool \<times> 'e) list \<Rightarrow> 'e + unit" where
  "throw_if [] = Inr ()"
| "throw_if ((bad, e) # cs) = (if bad then Inl e else throw_if cs)"

fun bindE :: "'e + 'a \<Rightarrow> ('a \<Rightarrow> 'e + 'b) \<Rightarrow> 'e + 'b" where
  "bindE (Inl e) f = Inl e"
| "bindE (Inr a) f = f a"

text \<open>\<open>xs.map((x, i) => f(x, i))\<close> where \<open>f\<close> may throw.\<close>

fun mapE_from :: "nat \<Rightarrow> ('a \<Rightarrow> nat \<Rightarrow> 'e + 'b) \<Rightarrow> 'a list \<Rightarrow> 'e + 'b list" where
  "mapE_from i f [] = Inr []"
| "mapE_from i f (x # xs) =
     bindE (f x i) (\<lambda>y. bindE (mapE_from (Suc i) f xs) (\<lambda>ys. Inr (y # ys)))"

abbreviation mapE :: "('a \<Rightarrow> nat \<Rightarrow> 'e + 'b) \<Rightarrow> 'a list \<Rightarrow> 'e + 'b list" where
  "mapE \<equiv> mapE_from 0"

lemma throw_if_ok: "throw_if cs = Inr u \<longleftrightarrow> list_all (\<lambda>c. \<not> fst c) cs"
  by (induction cs rule: throw_if.induct) auto

lemma throw_if_error: "throw_if cs = Inl e \<Longrightarrow> (True, e) \<in> set cs"
  by (induction cs rule: throw_if.induct) (auto split: if_splits)

lemma bindE_Inr: "bindE m f = Inr b \<longleftrightarrow> (\<exists>a. m = Inr a \<and> f a = Inr b)"
  by (cases m) auto

lemma bindE_Inl: "bindE m f = Inl e \<longleftrightarrow> m = Inl e \<or> (\<exists>a. m = Inr a \<and> f a = Inl e)"
  by (cases m) auto

lemma bindE_throw_if_Inr:
  "bindE (throw_if cs) f = Inr b \<longleftrightarrow> list_all (\<lambda>c. \<not> fst c) cs \<and> f () = Inr b"
  by (auto simp: bindE_Inr throw_if_ok)

lemma mapE_from_Inr:
  "mapE_from i f xs = Inr ys \<longleftrightarrow>
     length ys = length xs \<and> (\<forall>k < length xs. f (xs ! k) (i + k) = Inr (ys ! k))"
proof (induction xs arbitrary: i ys)
  case Nil
  then show ?case by auto
next
  case (Cons x xs)
  show ?case
  proof (cases ys)
    case Nil
    then show ?thesis by (auto simp: bindE_Inr)
  next
    case (Cons y ys')
    have "(\<forall>k < length (x # xs). f ((x # xs) ! k) (i + k) = Inr ((y # ys') ! k)) \<longleftrightarrow>
          f x i = Inr y \<and> (\<forall>k < length xs. f (xs ! k) (Suc i + k) = Inr (ys' ! k))"
      by (auto simp: less_Suc_eq_0_disj)
    then show ?thesis
      using Cons.IH [of "Suc i" ys'] by (auto simp: bindE_Inr Cons)
  qed
qed

text \<open>What every value that a computation returns satisfies; an exception satisfies everything.\<close>

definition yields :: "('a \<Rightarrow> bool) \<Rightarrow> 'e + 'a \<Rightarrow> bool" where
  "yields P r \<longleftrightarrow> (\<forall>x. r = Inr x \<longrightarrow> P x)"

lemma yields_Inl: "yields P (Inl e)" and yields_Inr: "P x \<Longrightarrow> yields P (Inr x)"
  and yields_bindE: "(\<And>a. m = Inr a \<Longrightarrow> yields P (f a)) \<Longrightarrow> yields P (bindE m f)"
  and yields_if: "(c \<Longrightarrow> yields P r) \<Longrightarrow> (\<not> c \<Longrightarrow> yields P r') \<Longrightarrow> yields P (if c then r else r')"
  and yields_option: "(v = None \<Longrightarrow> yields P r) \<Longrightarrow> (\<And>x. v = Some x \<Longrightarrow> yields P (g x)) \<Longrightarrow>
     yields P (case v of None \<Rightarrow> r | Some x \<Rightarrow> g x)"
  by (auto simp: yields_def bindE_Inr split: option.splits)

lemmas yields_intros = yields_Inl yields_Inr yields_bindE yields_if yields_option

section \<open>Strings\<close>

definition is_digit :: "char \<Rightarrow> bool" where
  "is_digit c \<longleftrightarrow> c \<in> set ''0123456789''"

definition is_hex_lower :: "char \<Rightarrow> bool" where
  "is_hex_lower c \<longleftrightarrow> c \<in> set ''0123456789abcdef''"

text \<open>White space of \<open>String.prototype.trim\<close> and of \<open>\s\<close>, below code unit 256.\<close>

definition is_space :: "char \<Rightarrow> bool" where
  "is_space c \<longleftrightarrow> c \<in> set [CHR 0x09, CHR 0x0A, CHR 0x0B, CHR 0x0C, CHR 0x0D, CHR 0x20, CHR 0xA0]"

definition js_trim :: "string \<Rightarrow> string" where
  "js_trim s = rev (dropWhile is_space (rev (dropWhile is_space s)))"

definition digit_char :: "int \<Rightarrow> char" where
  "digit_char d = ''0123456789'' ! nat d"

definition digit_val :: "char \<Rightarrow> int" where
  "digit_val c = int (of_char c) - 48"

text \<open>Decimal rendering of an integer, as template literals and \<open>String(n)\<close> do it.\<close>

fun show_nat :: "nat \<Rightarrow> string" where
  "show_nat n = (if n < 10 then [digit_char (int n)]
                 else show_nat (n div 10) @ [digit_char (int (n mod 10))])"

declare show_nat.simps [simp del]

definition show_int :: "int \<Rightarrow> string" where
  "show_int i = (if i < 0 then CHR ''-'' # show_nat (nat (- i)) else show_nat (nat i))"

text \<open>\<open>padStart(n, "0")\<close> of a number below \<open>10 ^ n\<close>.\<close>

fun pad :: "nat \<Rightarrow> int \<Rightarrow> string" where
  "pad 0 v = []"
| "pad (Suc n) v = pad n (v div 10) @ [digit_char (v mod 10)]"

definition digits_val :: "string \<Rightarrow> int" where
  "digits_val s = foldl (\<lambda>a c. 10 * a + digit_val c) 0 s"

lemma digit_val_char [simp]:
  assumes "0 \<le> d" "d < 10" shows "digit_val (digit_char d) = d"
proof -
  have "d \<in> {0, 1, 2, 3, 4, 5, 6, 7, 8, 9}" using assms by simp presburger
  then show ?thesis by (auto simp: digit_val_def digit_char_def)
qed

lemma is_digit_char [simp]:
  assumes "0 \<le> d" "d < 10" shows "is_digit (digit_char d)"
proof -
  have "d \<in> {0, 1, 2, 3, 4, 5, 6, 7, 8, 9}" using assms by simp presburger
  then show ?thesis by (auto simp: is_digit_def digit_char_def)
qed

lemma length_pad [simp]: "length (pad n v) = n"
  by (induction n arbitrary: v) auto

lemma digits_pad: "list_all is_digit (pad n v)"
  by (induction n arbitrary: v) auto

lemma digits_val_pad: "digits_val (pad n v) = v mod 10 ^ n"
proof (induction n arbitrary: v)
  case 0
  then show ?case by (simp add: digits_val_def)
next
  case (Suc n)
  have "digits_val (pad (Suc n) v) = 10 * (v div 10 mod 10 ^ n) + v mod 10"
    using Suc.IH [of "v div 10"] by (simp add: digits_val_def)
  also have "\<dots> = v mod 10 ^ Suc n"
    by (simp add: mod_mult2_eq [of _ 10 "10 ^ n"] zmod_zmult2_eq)
  finally show ?case .
qed

lemma digits_val_pad_id: "0 \<le> v \<Longrightarrow> v < 10 ^ n \<Longrightarrow> digits_val (pad n v) = v"
  by (simp add: digits_val_pad)

text \<open>\<open>/^sha256:[0-9a-f]{64}$/\<close>\<close>

definition is_sha256 :: "string \<Rightarrow> bool" where
  "is_sha256 s \<longleftrightarrow> take 7 s = ''sha256:'' \<and> length s = 71 \<and> list_all is_hex_lower (drop 7 s)"

text \<open>Conversion in a template literal. A fraction is rendered as a text that, like every
  rendering of a fraction, is no digit string.\<close>

fun js_to_string :: "jsval \<Rightarrow> string" where
  "js_to_string JNull = ''null''"
| "js_to_string (JBool b) = (if b then ''true'' else ''false'')"
| "js_to_string (JNum (Fin q)) = (if is_integer q then show_int \<lfloor>q\<rfloor> else ''0.'')"
| "js_to_string (JNum PosInf) = ''Infinity''"
| "js_to_string (JNum NegInf) = ''-Infinity''"
| "js_to_string (JNum NaN) = ''NaN''"
| "js_to_string (JStr s) = s"
| "js_to_string (JArr []) = ''''"
| "js_to_string (JArr [x]) = (if x = JNull then '''' else js_to_string x)"
| "js_to_string (JArr (x # y # xs)) = (if x = JNull then '''' else js_to_string x) @ '','' @ js_to_string (JArr (y # xs))"
| "js_to_string (JObj _) = ''[object Object]''"

definition template :: "jsval option \<Rightarrow> string" where
  "template v = (case v of None \<Rightarrow> ''undefined'' | Some x \<Rightarrow> js_to_string x)"

text \<open>\<open>Math.round\<close>: the nearest integer, halves upwards.\<close>

definition math_round :: "rat \<Rightarrow> int" where
  "math_round q = \<lfloor>q + 1 / 2\<rfloor>"

section \<open>Objects\<close>

text \<open>Whether a value counts as true in a condition.\<close>

fun truthy :: "jsval option \<Rightarrow> bool" where
  "truthy None = False"
| "truthy (Some JNull) = False"
| "truthy (Some (JBool b)) = b"
| "truthy (Some (JNum n)) = (n \<noteq> Fin 0 \<and> n \<noteq> NaN)"
| "truthy (Some (JStr s)) = (s \<noteq> '''')"
| "truthy (Some (JArr _)) = True"
| "truthy (Some (JObj _)) = True"

text \<open>\<open>{ ...ob, k: v, ... }\<close>: a property that exists is overwritten in place.\<close>

definition obj_set :: "jsobj \<Rightarrow> string \<Rightarrow> jsval \<Rightarrow> jsobj" where
  "obj_set ob k v =
     (if has_key ob k then map (\<lambda>(k', v'). (k', if k' = k then v else v')) ob else ob @ [(k, v)])"

definition spread :: "jsobj \<Rightarrow> (string \<times> jsval) list \<Rightarrow> jsobj" where
  "spread ob updates = foldl (\<lambda>o' (k, v). obj_set o' k v) ob updates"

text \<open>\<open>{ a: ob.a, b: ob.b, ... }\<close>; a property that is \<open>undefined\<close> is left out.\<close>

definition pick :: "string list \<Rightarrow> jsobj \<Rightarrow> jsobj" where
  "pick keys ob = concat (map (\<lambda>k. case fld ob k of Some v \<Rightarrow> [(k, v)] | None \<Rightarrow> []) keys)"

lemma fld_obj_set [js_simps]: "fld (obj_set ob k v) k' = (if k' = k then Some v else fld ob k')"
proof -
  have "fld (map (\<lambda>(k', v'). (k', if k' = k then v else v')) ob) k'
      = (if k' = k \<and> has_key ob k then Some v else fld ob k')"
    by (induction ob) (auto simp: has_key_def)
  then show ?thesis
    by (auto simp: obj_set_def has_key_def map_add_def split: option.splits)
qed

lemma fld_spread [js_simps]:
  "fld (spread ob updates) k =
     (case fld (rev updates) k of Some v \<Rightarrow> Some v | None \<Rightarrow> fld ob k)"
  unfolding spread_def
  by (induction updates arbitrary: ob)
    (auto simp: fld_obj_set map_add_def split: option.splits prod.splits)

lemma fld_pick [js_simps]: "fld (pick keys ob) k = (if k \<in> set keys then fld ob k else None)"
  unfolding pick_def
  by (induction keys) (auto simp: map_add_def split: option.splits)

lemma keys_pick: "fst ` set (pick keys ob) \<subseteq> set keys"
  by (auto simp: pick_def split: option.splits)

lemma pick_cong: "(\<And>k. k \<in> set keys \<Longrightarrow> fld ob k = fld ob' k) \<Longrightarrow> pick keys ob = pick keys ob'"
  by (simp add: pick_def cong: map_cong)

section \<open>Arrays and sets\<close>

text \<open>\<open>new Set(xs)\<close> iterates in the order of first insertion.\<close>

definition js_set :: "'a list \<Rightarrow> 'a list" where
  "js_set xs = rev (remdups (rev xs))"

lemma set_js_set [simp]: "set (js_set xs) = set xs"
  by (simp add: js_set_def)

lemma distinct_js_set [simp]: "distinct (js_set xs)"
  by (simp add: js_set_def)

lemma js_set_distinct: "distinct xs \<Longrightarrow> js_set xs = xs"
  by (simp add: js_set_def distinct_remdups_id)

lemma length_js_set: "length (js_set xs) = length xs \<longleftrightarrow> distinct xs"
  by (metis card_distinct distinct_card distinct_js_set set_js_set)

text \<open>\<open>xs.sort(cmp)\<close>: a stable sort by a comparator that returns a number.\<close>

fun insert_by :: "('a \<Rightarrow> 'a \<Rightarrow> int) \<Rightarrow> 'a \<Rightarrow> 'a list \<Rightarrow> 'a list" where
  "insert_by cmp x [] = [x]"
| "insert_by cmp x (y # ys) = (if cmp x y \<le> 0 then x # y # ys else y # insert_by cmp x ys)"

definition sort_by :: "('a \<Rightarrow> 'a \<Rightarrow> int) \<Rightarrow> 'a list \<Rightarrow> 'a list" where
  "sort_by cmp xs = foldr (insert_by cmp) xs []"

lemma mset_insert_by [simp]: "mset (insert_by cmp x xs) = add_mset x (mset xs)"
  by (induction xs) auto

lemma mset_sort_by [simp]: "mset (sort_by cmp xs) = mset xs"
  unfolding sort_by_def by (induction xs) auto

lemma set_insert_by [simp]: "set (insert_by cmp x xs) = insert x (set xs)"
  by (metis mset_insert_by set_mset_add_mset_insert set_mset_mset)

lemma set_sort_by [simp]: "set (sort_by cmp xs) = set xs"
  by (metis mset_sort_by set_mset_mset)

lemma length_sort_by [simp]: "length (sort_by cmp xs) = length xs"
  by (metis mset_sort_by size_mset)

lemma distinct_sort_by [simp]: "distinct (sort_by cmp xs) = distinct xs"
  by (metis mset_sort_by mset_eq_imp_distinct_iff)

text \<open>What a consistent comparator promises (ECMA-262 23.1.3.30), and what the sort then
  delivers.\<close>

locale comparator =
  fixes cmp :: "'a \<Rightarrow> 'a \<Rightarrow> int"
  assumes cmp_total: "cmp x y \<le> 0 \<or> cmp y x \<le> 0"
    and cmp_trans: "cmp x y \<le> 0 \<Longrightarrow> cmp y z \<le> 0 \<Longrightarrow> cmp x z \<le> 0"
begin

definition ordered :: "'a list \<Rightarrow> bool" where
  "ordered xs = sorted_wrt (\<lambda>x y. cmp x y \<le> 0) xs"

lemma ordered_insert: "ordered xs \<Longrightarrow> ordered (insert_by cmp x xs)"
  by (induction xs) (auto simp: ordered_def dest: cmp_trans, (metis cmp_total cmp_trans)+)

lemma ordered_sort: "ordered (sort_by cmp xs)"
  unfolding sort_by_def by (induction xs) (auto simp: ordered_insert, simp add: ordered_def)

lemma sort_ordered_id: "ordered xs \<Longrightarrow> sort_by cmp xs = xs"
proof (induction xs)
  case Nil
  then show ?case by (simp add: sort_by_def)
next
  case (Cons x xs)
  then have "sort_by cmp (x # xs) = insert_by cmp x xs"
    by (simp add: sort_by_def ordered_def)
  then show ?case using Cons.prems by (cases xs) (auto simp: ordered_def)
qed

lemma sort_fixed_iff: "sort_by cmp xs = xs \<longleftrightarrow> ordered xs"
  by (metis ordered_sort sort_ordered_id)

lemma sort_filter: "sort_by cmp xs = xs \<Longrightarrow> sort_by cmp (filter P xs) = filter P xs"
  unfolding sort_fixed_iff ordered_def by (rule sorted_wrt_filter)

lemma sort_idem: "sort_by cmp (sort_by cmp xs) = sort_by cmp xs"
  by (rule sort_ordered_id [OF ordered_sort])

end

text \<open>A comparator that tells distinct elements apart determines the sorted list.\<close>

locale strict_comparator = comparator +
  assumes cmp_antisym: "cmp x y \<le> 0 \<Longrightarrow> cmp y x \<le> 0 \<Longrightarrow> x = y"
begin

lemma ordered_unique: "mset xs = mset ys \<Longrightarrow> ordered xs \<Longrightarrow> ordered ys \<Longrightarrow> xs = ys"
proof (induction xs arbitrary: ys)
  case Nil
  then show ?case by simp
next
  case (Cons x xs)
  then obtain y ys' where ys: "ys = y # ys'" by (cases ys) auto
  have "x \<in> set ys" "y \<in> set (x # xs)"
    using Cons.prems(1) ys by (metis list.set_intros(1) set_mset_mset)+
  then have "x = y"
    using Cons.prems(2,3) ys by (auto simp: ordered_def intro: cmp_antisym)
  with Cons.prems ys show ?case by (auto simp: ordered_def intro: Cons.IH)
qed

lemma sort_mset_cong: "mset xs = mset ys \<Longrightarrow> sort_by cmp xs = sort_by cmp ys"
  by (rule ordered_unique) (simp_all add: ordered_sort)

end

text \<open>The comparison of strings by code units.\<close>

definition cu_cmp :: "string \<Rightarrow> string \<Rightarrow> int" where
  "cu_cmp a b = (if a < b then - 1 else if a = b then 0 else 1)"

lemma cu_cmp_le [simp]: "cu_cmp a b \<le> 0 \<longleftrightarrow> a \<le> b"
  by (auto simp: cu_cmp_def)

interpretation cu: strict_comparator cu_cmp
  by unfold_locales auto

section \<open>Stored texts\<close>

text \<open>A text in a KV entry or in a GitHub comment, as the code looks at it: empty, not JSON,
  or the value \<open>JSON.parse\<close> makes of it. \<open>JSON.stringify(v)\<close> is \<^term>\<open>JsonText v\<close>: for values
  built from strings, booleans, finite numbers, null, arrays and objects, parsing the
  rendered text gives the value back.\<close>

datatype raw_text = EmptyText | BadText | JsonText jsval

type_synonym kv = "string \<rightharpoonup> raw_text"

end
