(* ===== verification/Js_Date.thy ===== *)
theory Js_Date
  imports Js_Prelude "HOL-Library.Monad_Syntax"
begin

text \<open>
  JavaScript dates: time values in milliseconds since the epoch, the proleptic Gregorian
  calendar of ECMA-262 (21.4.1), \<open>toISOString\<close> and \<open>Date.parse\<close>.
  An invalid date (NaN) is \<^term>\<open>None\<close>. \<open>Date.parse\<close> is specified for the date-time string
  format; for any other text the standard leaves the result to the implementation, which is
  the parameter \<open>lp\<close> of every definition that parses dates. Local times are read as UTC, the
  time zone of the Workers runtime.
\<close>

section \<open>The calendar\<close>

abbreviation ms_per_day :: int where
  "ms_per_day \<equiv> 86400000"

abbreviation max_time :: int where
  "max_time \<equiv> 8640000000000000"

definition leap_year :: "int \<Rightarrow> bool" where
  "leap_year y \<longleftrightarrow> (y mod 4 = 0 \<and> y mod 100 \<noteq> 0) \<or> y mod 400 = 0"

text \<open>DayFromYear: the day number of 1 January of a year.\<close>

definition day_from_year :: "int \<Rightarrow> int" where
  "day_from_year y = 365 * (y - 1970) + (y - 1969) div 4 - (y - 1901) div 100 + (y - 1601) div 400"

text \<open>YearFromTime: the last year that starts on or before the day, found from the mean year
  length and corrected by at most one.\<close>

definition year_from_day :: "int \<Rightarrow> int" where
  "year_from_day d =
     (let y = 1970 + (400 * d) div 146097
      in if day_from_year (y + 1) \<le> d then y + 1 else if d < day_from_year y then y - 1 else y)"

definition month_start :: "bool \<Rightarrow> int \<Rightarrow> int" where
  "month_start l m =
     (if m \<le> 1 then 0 else if m = 2 then 31
      else (if m = 3 then 59 else if m = 4 then 90 else if m = 5 then 120 else if m = 6 then 151
        else if m = 7 then 181 else if m = 8 then 212 else if m = 9 then 243
        else if m = 10 then 273 else if m = 11 then 304 else if m = 12 then 334 else 365)
        + (if l then 1 else 0))"

definition month_of :: "bool \<Rightarrow> int \<Rightarrow> int" where
  "month_of l n =
     (if n < 31 then 1 else let k = n - (if l then 1 else 0)
      in if k < 59 then 2 else if k < 90 then 3 else if k < 120 then 4 else if k < 151 then 5
        else if k < 181 then 6 else if k < 212 then 7 else if k < 243 then 8
        else if k < 273 then 9 else if k < 304 then 10 else if k < 334 then 11 else 12)"

definition days_in_month :: "int \<Rightarrow> int \<Rightarrow> int" where
  "days_in_month y m = month_start (leap_year y) (m + 1) - month_start (leap_year y) m"

definition make_day :: "int \<Rightarrow> int \<Rightarrow> int \<Rightarrow> int" where
  "make_day y m d = day_from_year y + month_start (leap_year y) m + (d - 1)"

definition make_time :: "int \<Rightarrow> int \<Rightarrow> int \<Rightarrow> int \<Rightarrow> int" where
  "make_time h mi s ms = ((h * 60 + mi) * 60 + s) * 1000 + ms"

definition year_of :: "int \<Rightarrow> int" where
  "year_of t = year_from_day (t div ms_per_day)"

definition yday_of :: "int \<Rightarrow> int" where
  "yday_of t = t div ms_per_day - day_from_year (year_of t)"

lemma div_bounds:
  fixes x k :: int assumes "0 < k"
  shows "k * (x div k) \<le> x \<and> x < k * (x div k) + k"
proof -
  have "0 \<le> x mod k" "x mod k < k" using assms by auto
  moreover have "x = k * (x div k) + x mod k" by simp
  ultimately show ?thesis by linarith
qed

text \<open>A quotient grows by one exactly when the numerator reaches a multiple.\<close>

lemma div_step:
  fixes y c k :: int assumes k: "0 < k"
  shows "(y - k * c) div k = (y - (k * c + 1)) div k + (if y mod k = 0 then 1 else 0)"
proof -
  define q r where "q = y div k" and "r = y mod k"
  have y: "y = k * q + r" and r: "0 \<le> r" "r < k" using k by (auto simp: q_def r_def)
  have 1: "(y - k * c) div k = q - c"
    by (rule int_div_pos_eq [of _ _ _ r]) (use y r in \<open>auto simp: algebra_simps\<close>)
  have 2: "(y - (k * c + 1)) div k = q - c - (if r = 0 then 1 else 0)"
    by (rule int_div_pos_eq [of _ _ _ "if r = 0 then k - 1 else r - 1"])
      (use y r k in \<open>auto simp: algebra_simps\<close>)
  show ?thesis using 1 2 by (simp add: r_def)
qed

lemma leap_sum:
  fixes a b c x :: int
  assumes "r \<Longrightarrow> q" "q \<Longrightarrow> p"
  shows "x + (a + (if p then 1 else 0)) - (b + (if q then 1 else 0)) + (c + (if r then 1 else 0))
         = x + a - b + c + (if (p \<and> \<not> q) \<or> r then 1 else 0)"
  using assms by auto

lemma year_length: "day_from_year (y + 1) = day_from_year y + 365 + (if leap_year y then 1 else 0)"
proof -
  have e: "y + 1 - 1969 = y - 4 * 492" "y + 1 - 1901 = y - 100 * 19" "y + 1 - 1601 = y - 400 * 4"
    by simp_all
  have m: "y mod 400 mod 100 = y mod 100" "y mod 100 mod 4 = y mod 4"
    by (rule mod_mod_cancel, simp)+
  have d: "y mod 400 = 0 \<Longrightarrow> y mod 100 = 0" "y mod 100 = 0 \<Longrightarrow> y mod 4 = 0"
    using m by (metis mod_0)+
  have n: "4 * 492 + 1 = (1969 :: int)" "100 * 19 + 1 = (1901 :: int)" "400 * 4 + 1 = (1601 :: int)"
    by simp_all
  have s: "(y - 4 * 492) div 4 = (y - 1969) div 4 + (if y mod 4 = 0 then 1 else 0)"
    "(y - 100 * 19) div 100 = (y - 1901) div 100 + (if y mod 100 = 0 then 1 else 0)"
    "(y - 400 * 4) div 400 = (y - 1601) div 400 + (if y mod 400 = 0 then 1 else 0)"
    using div_step [of 4 y 492] div_step [of 100 y 19] div_step [of 400 y 4] n
    by (simp_all only: zero_less_numeral simp_thms)
  have c: "365 * (y + 1 - 1970) = 365 * (y - 1970) + (365 :: int)" by simp
  have "day_from_year (y + 1) = 365 * (y - 1970) + 365 + (y - 1969) div 4 - (y - 1901) div 100
      + (y - 1601) div 400 + (if leap_year y then 1 else 0)"
    unfolding day_from_year_def e leap_year_def s c by (rule leap_sum [OF d])
  also have "\<dots> = day_from_year y + 365 + (if leap_year y then 1 else 0)"
  proof -
    have "u + 365 + a - b + c + i = u + a - b + c + 365 + i" for u a b c i :: int by simp
    then show ?thesis unfolding day_from_year_def by blast
  qed
  finally show ?thesis .
qed

lemma day_from_year_bounds:
  "146097 * (y - 1970) - 600 \<le> 400 * day_from_year y \<and>
   400 * day_from_year y \<le> 146097 * (y - 1970) + 600"
  unfolding day_from_year_def
  using div_bounds [of 4 "y - 1969"] div_bounds [of 100 "y - 1901"] div_bounds [of 400 "y - 1601"]
  by simp

lemma year_from_day_spec:
  "day_from_year (year_from_day d) \<le> d \<and> d < day_from_year (year_from_day d + 1)"
proof -
  define n where "n = (400 * d) div 146097"
  have n: "146097 * n \<le> 400 * d" "400 * d < 146097 * n + 146097"
    using div_bounds [of 146097 "400 * d"] by (auto simp: n_def)
  have lo: "day_from_year (1970 + n - 1) \<le> d"
    using n day_from_year_bounds [of "1970 + n - 1"] by simp
  have hi: "d < day_from_year (1970 + n + 1 + 1)"
    using n day_from_year_bounds [of "1970 + n + 1 + 1"] by simp
  show ?thesis
    using lo hi by (auto simp: year_from_day_def n_def [symmetric] Let_def)
qed

lemma day_from_year_mono: "y \<le> z \<Longrightarrow> day_from_year y \<le> day_from_year z"
proof (induction "nat (z - y)" arbitrary: z)
  case 0
  then show ?case by simp
next
  case (Suc k)
  then have "day_from_year y \<le> day_from_year (z - 1)"
    by (intro Suc.hyps) auto
  then show ?case using year_length [of "z - 1"] by (auto split: if_splits)
qed

lemma year_from_day_unique:
  assumes "day_from_year y \<le> d" "d < day_from_year (y + 1)"
  shows "year_from_day d = y"
proof (rule ccontr)
  let ?z = "year_from_day d"
  assume "?z \<noteq> y"
  then have "?z + 1 \<le> y \<or> y + 1 \<le> ?z" by arith
  then have "d < d"
    using assms year_from_day_spec [of d] day_from_year_mono [of "?z + 1" y]
      day_from_year_mono [of "y + 1" ?z] by linarith
  then show False by simp
qed

lemma yday_bounds: "0 \<le> yday_of t \<and> yday_of t < 365 + (if leap_year (year_of t) then 1 else 0)"
  using year_from_day_spec [of "t div ms_per_day"] year_length [of "year_of t"]
  unfolding yday_of_def year_of_def by linarith

lemma month_of_spec:
  assumes "0 \<le> n" "n < 365 + (if l then 1 else 0)"
  shows "1 \<le> month_of l n \<and> month_of l n \<le> 12 \<and> month_start l (month_of l n) \<le> n \<and>
         n < month_start l (month_of l n + 1)"
  using assms by (cases l) (auto simp: month_of_def month_start_def Let_def)

section \<open>toISOString\<close>

definition year_string :: "int \<Rightarrow> string" where
  "year_string y =
     (if 0 \<le> y \<and> y \<le> 9999 then pad 4 y
      else if y < 0 then CHR ''-'' # pad 6 (- y) else CHR ''+'' # pad 6 y)"

definition day_string :: "int \<Rightarrow> string" where
  "day_string t =
     (let l = leap_year (year_of t); m = month_of l (yday_of t)
      in year_string (year_of t) @ ''-'' @ pad 2 m @ ''-''
         @ pad 2 (yday_of t - month_start l m + 1))"

definition to_iso :: "int \<Rightarrow> string" where
  "to_iso t =
     (let ms = t mod ms_per_day
      in day_string t @ ''T'' @ pad 2 (ms div 3600000) @ '':'' @ pad 2 (ms div 60000 mod 60)
         @ '':'' @ pad 2 (ms div 1000 mod 60) @ ''.'' @ pad 3 (ms mod 1000) @ ''Z'')"

section \<open>Date.parse\<close>

definition p_char :: "char \<Rightarrow> string \<Rightarrow> string option" where
  "p_char c s = (case s of [] \<Rightarrow> None | x # r \<Rightarrow> if x = c then Some r else None)"

definition p_digits :: "nat \<Rightarrow> string \<Rightarrow> (int \<times> string) option" where
  "p_digits n s =
     (if length (take n s) = n \<and> list_all is_digit (take n s)
      then Some (digits_val (take n s), drop n s) else None)"

definition p_year :: "string \<Rightarrow> (int \<times> string) option" where
  "p_year s =
     (case s of [] \<Rightarrow> None
      | c # r \<Rightarrow>
          if c = CHR ''+'' then p_digits 6 r
          else if c = CHR ''-'' then
            (case p_digits 6 r of None \<Rightarrow> None
             | Some (v, r') \<Rightarrow> if v = 0 then None else Some (- v, r'))
          else p_digits 4 s)"

text \<open>An optional element: a separator and its digits, or the default.\<close>

definition p_opt :: "char \<Rightarrow> nat \<Rightarrow> int \<Rightarrow> string \<Rightarrow> (int \<times> string) option" where
  "p_opt c n dflt s =
     (case s of [] \<Rightarrow> Some (dflt, s)
      | x # r \<Rightarrow> if x = c then p_digits n r else Some (dflt, s))"

text \<open>The zone suffix: the offset in milliseconds; it ends the text.\<close>

definition p_zone :: "string \<Rightarrow> int option" where
  "p_zone s =
     (case s of [] \<Rightarrow> Some 0
      | c # r \<Rightarrow>
          if c = CHR ''Z'' then (if r = [] then Some 0 else None)
          else if c = CHR ''+'' \<or> c = CHR ''-'' then
            do { (h, r1) \<leftarrow> p_digits 2 r; r2 \<leftarrow> p_char CHR '':'' r1; (mi, r3) \<leftarrow> p_digits 2 r2;
                 if r3 = [] \<and> h \<le> 23 \<and> mi \<le> 59
                 then Some ((if c = CHR ''-'' then - 1 else 1) * (h * 60 + mi) * 60000) else None }
          else None)"

definition p_time :: "string \<Rightarrow> int option" where
  "p_time s =
     do { (h, r1) \<leftarrow> p_digits 2 s; r2 \<leftarrow> p_char CHR '':'' r1; (mi, r3) \<leftarrow> p_digits 2 r2;
          (sec, r4) \<leftarrow> p_opt CHR '':'' 2 0 r3; (ms, r5) \<leftarrow> p_opt CHR ''.'' 3 0 r4;
          z \<leftarrow> p_zone r5;
          if mi \<le> 59 \<and> sec \<le> 59 \<and> (h \<le> 23 \<or> h = 24 \<and> mi = 0 \<and> sec = 0 \<and> ms = 0)
          then Some (make_time h mi sec ms - z) else None }"

definition iso_parse :: "string \<Rightarrow> int option" where
  "iso_parse s =
     do { (y, r1) \<leftarrow> p_year s; (m, r2) \<leftarrow> p_opt CHR ''-'' 2 1 r1; (d, r3) \<leftarrow> p_opt CHR ''-'' 2 1 r2;
          t \<leftarrow> (case r3 of [] \<Rightarrow> Some 0 | c # r \<Rightarrow> if c = CHR ''T'' then p_time r else None);
          if 1 \<le> m \<and> m \<le> 12 \<and> 1 \<le> d \<and> d \<le> days_in_month y m
             \<and> \<bar>make_day y m d * ms_per_day + t\<bar> \<le> max_time
          then Some (make_day y m d * ms_per_day + t) else None }"

definition date_parse :: "(string \<Rightarrow> int option) \<Rightarrow> string \<Rightarrow> int option" where
  "date_parse lp s = (case iso_parse s of Some t \<Rightarrow> Some t | None \<Rightarrow> lp s)"

section \<open>Parsing what toISOString printed\<close>

lemma p_digits_pad:
  "0 \<le> v \<Longrightarrow> v < 10 ^ n \<Longrightarrow> p_digits n (pad n v @ r) = Some (v, r)"
  by (simp add: p_digits_def digits_pad digits_val_pad_id)

lemma p_digits_pad2: "0 \<le> v \<Longrightarrow> v < 100 \<Longrightarrow> p_digits 2 (pad 2 v @ r) = Some (v, r)"
  using p_digits_pad [of v 2 r] by simp

lemma p_digits_pad3: "0 \<le> v \<Longrightarrow> v < 1000 \<Longrightarrow> p_digits 3 (pad 3 v @ r) = Some (v, r)"
  using p_digits_pad [of v 3 r] by simp

lemma p_char_Cons [simp]: "p_char c (c # r) = Some r"
  by (simp add: p_char_def)

lemma p_opt_Cons [simp]: "p_opt c n v (c # r) = p_digits n r"
  by (simp add: p_opt_def)

lemma pad_first_digit: "0 < n \<Longrightarrow> \<exists>c r. pad n v = c # r \<and> is_digit c"
  using digits_pad [of n v] by (cases "pad n v") (auto dest: arg_cong [of _ _ length])

lemma p_year_string:
  assumes "\<bar>y\<bar> \<le> 999999"
  shows "p_year (year_string y @ r) = Some (y, r)"
proof (cases "0 \<le> y \<and> y \<le> 9999")
  case True
  obtain c q where q: "pad 4 y = c # q" "is_digit c" using pad_first_digit [of 4 y] by auto
  then have "c \<noteq> CHR ''+''" "c \<noteq> CHR ''-''" by (auto simp: is_digit_def)
  then have "p_year (year_string y @ r) = p_digits 4 (pad 4 y @ r)"
    using True q by (simp add: p_year_def year_string_def)
  also have "\<dots> = Some (y, r)" using True p_digits_pad [of y 4 r] by simp
  finally show ?thesis .
next
  case False
  then show ?thesis
    using assms p_digits_pad [of y 6 r] p_digits_pad [of "- y" 6 r]
    by (auto simp: p_year_def year_string_def)
qed

text \<open>The time of day splits into its fields and is put together again.\<close>

lemma time_fields:
  fixes ms :: int
  assumes "0 \<le> ms" "ms < ms_per_day"
  shows "make_time (ms div 3600000) (ms div 60000 mod 60) (ms div 1000 mod 60) (ms mod 1000) = ms"
    and "0 \<le> ms div 3600000" "ms div 3600000 \<le> 23"
proof -
  have a: "ms div 60000 = ms div 1000 div 60" "ms div 3600000 = ms div 1000 div 60 div 60"
    by (simp_all add: div_mult2_eq [symmetric] zdiv_zmult2_eq [symmetric])
  have b: "x = x div 60 * 60 + x mod 60" for x :: int by simp
  have "ms = ms div 1000 * 1000 + ms mod 1000" by simp
  then show "make_time (ms div 3600000) (ms div 60000 mod 60) (ms div 1000 mod 60) (ms mod 1000) = ms"
    unfolding make_time_def a by simp
  show "0 \<le> ms div 3600000" "ms div 3600000 \<le> 23" using assms by auto
qed

lemma p_time_fields:
  assumes "0 \<le> h" "h \<le> 23" "0 \<le> mi" "mi < 60" "0 \<le> sec" "sec < 60" "0 \<le> ms" "ms < 1000"
  shows "p_time (pad 2 h @ '':'' @ pad 2 mi @ '':'' @ pad 2 sec @ ''.'' @ pad 3 ms @ ''Z'')
         = Some (make_time h mi sec ms)"
proof -
  have "p_zone ''Z'' = Some 0" by (simp add: p_zone_def)
  then show ?thesis using assms by (simp add: p_time_def p_digits_pad2 p_digits_pad3)
qed

lemma p_time_print:
  assumes "0 \<le> ms" "ms < ms_per_day"
  shows "p_time (pad 2 (ms div 3600000) @ '':'' @ pad 2 (ms div 60000 mod 60) @ '':''
           @ pad 2 (ms div 1000 mod 60) @ ''.'' @ pad 3 (ms mod 1000) @ ''Z'') = Some ms"
proof -
  have b: "0 \<le> x mod 60" "x mod 60 < 60" "0 \<le> x mod 1000" "x mod 1000 < 1000" for x :: int
    by (rule pos_mod_sign pos_mod_bound, rule zero_less_numeral)+
  note f = time_fields [OF assms]
  show ?thesis
    by (rule trans [OF p_time_fields [OF f(2,3) b(1,2) b(1,2) b(3,4)]]) (simp only: f(1))
qed

text \<open>The day fields of a time, and the calendar day they name.\<close>

lemma day_fields:
  defines "l t \<equiv> leap_year (year_of t)"
  shows "1 \<le> month_of (l t) (yday_of t)" "month_of (l t) (yday_of t) \<le> 12"
    and "1 \<le> yday_of t - month_start (l t) (month_of (l t) (yday_of t)) + 1"
    and "yday_of t - month_start (l t) (month_of (l t) (yday_of t)) + 1
          \<le> days_in_month (year_of t) (month_of (l t) (yday_of t))"
    and "make_day (year_of t) (month_of (l t) (yday_of t))
           (yday_of t - month_start (l t) (month_of (l t) (yday_of t)) + 1) = t div ms_per_day"
proof -
  define m where "m = month_of (l t) (yday_of t)"
  have m: "1 \<le> m" "m \<le> 12" "month_start (l t) m \<le> yday_of t" "yday_of t < month_start (l t) (m + 1)"
    using month_of_spec [of "yday_of t" "l t"] yday_bounds [of t] by (simp_all add: m_def l_def)
  show "1 \<le> month_of (l t) (yday_of t)" "month_of (l t) (yday_of t) \<le> 12"
    "1 \<le> yday_of t - month_start (l t) (month_of (l t) (yday_of t)) + 1"
    using m by (simp_all add: m_def [symmetric])
  show "yday_of t - month_start (l t) (month_of (l t) (yday_of t)) + 1
          \<le> days_in_month (year_of t) (month_of (l t) (yday_of t))"
    using m(4) by (simp add: days_in_month_def l_def [symmetric] m_def [symmetric])
  show "make_day (year_of t) (month_of (l t) (yday_of t))
           (yday_of t - month_start (l t) (month_of (l t) (yday_of t)) + 1) = t div ms_per_day"
  proof -
    have g: "f + n = q \<Longrightarrow> f + k + (n - k + 1 - 1) = q" for f k n q :: int by simp
    have "day_from_year (year_of t) + yday_of t = t div ms_per_day"
      unfolding yday_of_def by (simp only: add.commute diff_add_cancel)
    then show ?thesis unfolding make_day_def l_def by (rule g)
  qed
qed

lemma days_in_month_le: "days_in_month y m \<le> 31"
  unfolding days_in_month_def month_start_def by (cases "leap_year y") auto

lemma year_from_day_bound:
  assumes "\<bar>d\<bar> \<le> 100000000"
  shows "\<bar>year_from_day d\<bar> \<le> 999999"
proof -
  define y where "y = year_from_day d"
  have 1: "day_from_year y \<le> d" "d < day_from_year (y + 1)"
    using year_from_day_spec [of d] by (simp_all add: y_def)
  have 2: "146097 * (y - 1970) - 600 \<le> 400 * day_from_year y"
    "400 * day_from_year (y + 1) \<le> 146097 * (y - 1969) + 600"
    using day_from_year_bounds [of y] day_from_year_bounds [of "y + 1"] by simp_all
  have 3: "d \<le> 100000000" "- d \<le> 100000000" using assms by simp_all
  have "146097 * (y - 1970) \<le> 400 * 100000000 + 600" using 1 2 3 by linarith
  then have "y \<le> 999999" by simp
  have "400 * - 100000000 - 600 \<le> 146097 * (y - 1969)" using 1 2 3 by linarith
  then have "- 999999 \<le> y" by simp
  with \<open>y \<le> 999999\<close> show ?thesis unfolding y_def by linarith
qed

lemma year_of_bound: "\<bar>t\<bar> \<le> max_time \<Longrightarrow> \<bar>year_of t\<bar> \<le> 999999"
  unfolding year_of_def by (rule year_from_day_bound) auto

lemma iso_parse_day_prefix:
  assumes "\<bar>t\<bar> \<le> max_time" "p_time r = Some ms"
    and "\<bar>t div ms_per_day * ms_per_day + ms\<bar> \<le> max_time"
  shows "iso_parse (day_string t @ ''T'' @ r) = Some (t div ms_per_day * ms_per_day + ms)"
proof -
  note f = day_fields [of t]
  have d: "yday_of t - month_start (leap_year (year_of t))
             (month_of (leap_year (year_of t)) (yday_of t)) + 1 < 100"
    using f(4) days_in_month_le [of "year_of t" "month_of (leap_year (year_of t)) (yday_of t)"]
    by linarith
  show ?thesis
    using assms f d by (simp add: iso_parse_def day_string_def Let_def p_year_string
      year_of_bound p_digits_pad2)
qed

theorem iso_parse_to_iso:
  assumes "\<bar>t\<bar> \<le> max_time"
  shows "iso_parse (to_iso t) = Some t"
proof -
  have "t div ms_per_day * ms_per_day + t mod ms_per_day = t" by simp
  moreover have "p_time (pad 2 (t mod ms_per_day div 3600000) @ '':'' @
      pad 2 (t mod ms_per_day div 60000 mod 60) @ '':'' @ pad 2 (t mod ms_per_day div 1000 mod 60)
      @ ''.'' @ pad 3 (t mod ms_per_day mod 1000) @ ''Z'') = Some (t mod ms_per_day)"
    by (rule p_time_print) simp_all
  ultimately show ?thesis
    using iso_parse_day_prefix [OF assms] assms unfolding to_iso_def Let_def by simp
qed

lemma date_parse_to_iso: "\<bar>t\<bar> \<le> max_time \<Longrightarrow> date_parse lp (to_iso t) = Some t"
  by (simp add: date_parse_def iso_parse_to_iso)

lemma iso_parse_bound: "iso_parse s = Some t \<Longrightarrow> \<bar>t\<bar> \<le> max_time"
  by (auto simp: iso_parse_def bind_eq_Some_conv split: if_splits)

text \<open>With four-digit years the first ten characters are the day.\<close>

lemma length_day_string: "0 \<le> year_of t \<Longrightarrow> year_of t \<le> 9999 \<Longrightarrow> length (day_string t) = 10"
  by (simp add: day_string_def Let_def year_string_def)

lemma take_day_to_iso:
  "0 \<le> year_of t \<Longrightarrow> year_of t \<le> 9999 \<Longrightarrow> take 10 (to_iso t) = day_string t"
  by (simp add: to_iso_def Let_def length_day_string)

lemma parse_day_start:
  assumes "\<bar>t\<bar> \<le> max_time" "\<bar>t div ms_per_day * ms_per_day\<bar> \<le> max_time"
  shows "iso_parse (day_string t @ ''T00:00:00.000Z'') = Some (t div ms_per_day * ms_per_day)"
proof -
  have "p_time ''00:00:00.000Z'' = Some 0"
    by (simp add: p_time_def p_digits_def p_opt_def p_zone_def is_digit_def digits_val_def
        digit_val_def make_time_def)
  from iso_parse_day_prefix [OF assms(1) this] assms(2) show ?thesis by simp
qed

lemma to_iso_nonempty: "to_iso t \<noteq> ''''"
  by (simp add: to_iso_def Let_def)

section \<open>Ages\<close>

text \<open>\<open>(now.getTime() - Date.parse(t)) / 1000\<close>\<close>

definition age_seconds :: "int \<Rightarrow> int \<Rightarrow> rat" where
  "age_seconds now t = of_int (now - t) / 1000"

lemma age_seconds_le: "age_seconds now t \<le> of_int k \<longleftrightarrow> now - t \<le> 1000 * k"
proof -
  have "age_seconds now t \<le> of_int k \<longleftrightarrow> (of_int (now - t) :: rat) \<le> of_int (1000 * k)"
    by (simp add: age_seconds_def divide_le_eq mult.commute)
  then show ?thesis by (simp only: of_int_le_iff)
qed

lemma age_seconds_less: "age_seconds now t < of_int k \<longleftrightarrow> now - t < 1000 * k"
proof -
  have "age_seconds now t < of_int k \<longleftrightarrow> (of_int (now - t) :: rat) < of_int (1000 * k)"
    by (simp add: age_seconds_def divide_less_eq mult.commute)
  then show ?thesis by (simp only: of_int_less_iff)
qed

end
