(* ===== verification/Quota_Dimensions.thy ===== *)
theory Quota_Dimensions
  imports Js_Date
begin

text \<open>
  \<open>src/src/quota-dimensions.ts\<close>: the catalog of billing dimensions with their allowances and
  thresholds, the verified account period anchor, the resolution of a dimension's natural
  period at an instant, and the storage integral. The free-text notes of the catalog are left
  out. Products with the fraction 0.95 are exact here; for every allowance of the catalog the
  rounded product of the code has the same floor.
\<close>

section \<open>The catalog\<close>

datatype period_kind = BillingCycle | UtcDay | StorageIntegral

record dimension_spec =
  ds_key :: string
  ds_unit :: string
  ds_period :: period_kind
  ds_included :: "rat option"
  ds_threshold_95 :: "int option"
  ds_provable :: bool

definition QUOTA_CATALOG_VERSION :: string where
  "QUOTA_CATALOG_VERSION = ''quota-catalog/2026-09-30.5''"

definition STORAGE_UNIT_SCALE :: rat where
  "STORAGE_UNIT_SCALE = 1000"

definition threshold95 :: "jsnum \<Rightarrow> int result" where
  "threshold95 included =
     (case included of
        Fin q \<Rightarrow> if q < 0 then Inl ''included allowance must be a non-negative finite number''
                 else Inr \<lfloor>(q * 95) / 100\<rfloor>
      | _ \<Rightarrow> Inl ''included allowance must be a non-negative finite number'')"

definition spec_fraction ::
  "string \<Rightarrow> string \<Rightarrow> period_kind \<Rightarrow> rat option \<Rightarrow> bool \<Rightarrow> rat \<Rightarrow> dimension_spec" where
  "spec_fraction key unit period included provable fraction =
     \<lparr>ds_key = key, ds_unit = unit, ds_period = period, ds_included = included,
      ds_threshold_95 =
        (case included of None \<Rightarrow> None
         | Some q \<Rightarrow> Some \<lfloor>q * (if unit = ''GB-month'' then STORAGE_UNIT_SCALE else 1) * fraction\<rfloor>),
      ds_provable = provable\<rparr>"

definition spec ::
  "string \<Rightarrow> string \<Rightarrow> period_kind \<Rightarrow> rat option \<Rightarrow> bool \<Rightarrow> dimension_spec" where
  "spec key unit period included provable =
     spec_fraction key unit period included provable (95 / 100)"

definition QUOTA_DIMENSIONS :: "dimension_spec list" where
  "QUOTA_DIMENSIONS =
    [spec ''workers.requests'' ''requests'' BillingCycle (Some 10000000) False,
     spec ''workers.cpu_ms'' ''cpu_ms'' BillingCycle (Some 30000000) False,
     spec ''d1.rows_read'' ''rows'' BillingCycle (Some 25000000000) True,
     spec ''d1.rows_written'' ''rows'' BillingCycle (Some 50000000) True,
     spec ''d1.storage_gb_month'' ''GB-month'' StorageIntegral (Some 5) False,
     spec ''kv.reads'' ''reads'' BillingCycle (Some 10000000) True,
     spec ''kv.writes'' ''writes'' BillingCycle (Some 1000000) True,
     spec ''kv.deletes'' ''deletes'' BillingCycle (Some 1000000) True,
     spec ''kv.lists'' ''lists'' BillingCycle (Some 1000000) True,
     spec ''kv.storage_gb_month'' ''GB-month'' StorageIntegral (Some 1) False,
     spec ''r2.class_a'' ''Class A ops'' BillingCycle (Some 1000000) True,
     spec ''r2.class_b'' ''Class B ops'' BillingCycle (Some 10000000) True,
     spec ''r2.storage_gb_month'' ''GB-month'' StorageIntegral (Some 10) False,
     spec ''r2.ia_class_a'' ''IA Class A ops'' BillingCycle None False,
     spec ''r2.ia_class_b'' ''IA Class B ops'' BillingCycle None False,
     spec ''r2.ia_storage_gb_month'' ''IA GB-month'' StorageIntegral None False,
     spec_fraction ''ai.neurons'' ''Neurons'' UtcDay (Some 10000) True 1,
     spec ''vectorize.queried_dims'' ''queried dimensions'' BillingCycle (Some 50000000) True,
     spec ''vectorize.stored_dims'' ''stored dimensions'' StorageIntegral (Some 10000000) False]"

text \<open>\<open>new Map(entries)\<close>: a later entry with the same key replaces an earlier one.\<close>

definition dimensionSpec :: "string \<Rightarrow> dimension_spec option" where
  "dimensionSpec key = map_of (rev (map (\<lambda>e. (ds_key e, e)) QUOTA_DIMENSIONS)) key"

definition isDimensionKey :: "string \<Rightarrow> bool" where
  "isDimensionKey key \<longleftrightarrow> dimensionSpec key \<noteq> None"

definition admissionCeiling :: "string \<Rightarrow> int option" where
  "admissionCeiling key =
     (case dimensionSpec key of None \<Rightarrow> None | Some found \<Rightarrow> ds_threshold_95 found)"

section \<open>Account period anchor and natural periods\<close>

datatype anchor_kind = SubscriptionRenewal | UnknownAnchor

record account_period =
  ap_account_id :: string
  ap_period_start :: string
  ap_period_end :: string
  ap_anchor_kind :: anchor_kind
  ap_source :: string
  ap_source_version :: string
  ap_verified_at :: string

definition isVerifiedAnchor :: "(string \<Rightarrow> int option) \<Rightarrow> account_period option \<Rightarrow> bool" where
  "isVerifiedAnchor lp anchor =
     (case anchor of None \<Rightarrow> False
      | Some a \<Rightarrow>
          if ap_anchor_kind a \<noteq> SubscriptionRenewal then False
          else (case (date_parse lp (ap_period_start a), date_parse lp (ap_period_end a),
                      date_parse lp (ap_verified_at a)) of
                  (Some start, Some end', Some verified) \<Rightarrow> end' > start \<and> verified \<ge> start
                | _ \<Rightarrow> False))"

record resolved_period =
  rp_period_kind :: period_kind
  rp_period_key :: string
  rp_period_start :: string
  rp_period_end :: string

text \<open>\<open>new Date(t).toISOString()\<close> throws a RangeError on an invalid date.\<close>

definition iso_of :: "int option \<Rightarrow> string result" where
  "iso_of t = (case t of None \<Rightarrow> Inl ''Invalid time value''
     | Some x \<Rightarrow> if \<bar>x\<bar> \<le> max_time then Inr (to_iso x) else Inl ''Invalid time value'')"

definition resolve_utc_day :: "(string \<Rightarrow> int option) \<Rightarrow> int \<Rightarrow> resolved_period option result" where
  "resolve_utc_day lp now =
     (let day = take 10 (to_iso now); start = day @ ''T00:00:00.000Z''
      in bindE (iso_of (map_option (\<lambda>t. t + 24 * 3600 * 1000) (date_parse lp start)))
           (\<lambda>end'. Inr (Some \<lparr>rp_period_kind = UtcDay, rp_period_key = ''utc-day:'' @ day,
                             rp_period_start = start, rp_period_end = end'\<rparr>)))"

definition resolve_cycle ::
  "(string \<Rightarrow> int option) \<Rightarrow> period_kind \<Rightarrow> account_period option \<Rightarrow> int
     \<Rightarrow> resolved_period option" where
  "resolve_cycle lp kind anchor now =
     (if \<not> isVerifiedAnchor lp anchor then None
      else (case anchor of None \<Rightarrow> None
        | Some a \<Rightarrow>
           (case (date_parse lp (ap_period_start a), date_parse lp (ap_period_end a),
                  date_parse lp (ap_verified_at a)) of
              (Some start, Some end', Some verified) \<Rightarrow>
                if now < start \<or> now \<ge> end' \<or> verified > now then None
                else Some \<lparr>rp_period_kind = kind,
                           rp_period_key = ''cycle:'' @ ap_period_start a @ ''..'' @ ap_period_end a,
                           rp_period_start = ap_period_start a, rp_period_end = ap_period_end a\<rparr>
            | _ \<Rightarrow> None)))"

definition resolvePeriod ::
  "(string \<Rightarrow> int option) \<Rightarrow> dimension_spec \<Rightarrow> account_period option \<Rightarrow> int option
     \<Rightarrow> resolved_period option result" where
  "resolvePeriod lp sp anchor now' =
     (case now' of None \<Rightarrow> Inr None
      | Some now \<Rightarrow>
          if ds_period sp = UtcDay then resolve_utc_day lp now
          else Inr (resolve_cycle lp (ds_period sp) anchor now))"

text \<open>Time differences in hours are exact quotients.\<close>

definition storageIntegralUnits ::
  "(string \<Rightarrow> int option) \<Rightarrow> jsnum \<Rightarrow> string \<Rightarrow> string \<Rightarrow> int option \<Rightarrow> rat option" where
  "storageIntegralUnits lp bytes period_start period_end now' =
     (case bytes of
        Fin b \<Rightarrow>
          if b < 0 then None
          else (case (date_parse lp period_start, date_parse lp period_end, now') of
             (Some start, Some end', Some now) \<Rightarrow>
               if end' \<le> start then None
               else if now < start \<or> now \<ge> end' then None
               else (let hoursRemaining = of_int (end' - now) / 3600000;
                         hoursInCycle = of_int (end' - start) / 3600000
                     in if \<not> (hoursInCycle > 0) then None
                        else Some ((b / 1000000000) * (hoursRemaining / hoursInCycle)))
           | _ \<Rightarrow> None)
      | _ \<Rightarrow> None)"

section \<open>Facts about the catalog\<close>

lemma spec_simps [simp]:
  "ds_key (spec_fraction k u p i v f) = k" "ds_unit (spec_fraction k u p i v f) = u"
  "ds_period (spec_fraction k u p i v f) = p" "ds_included (spec_fraction k u p i v f) = i"
  "ds_provable (spec_fraction k u p i v f) = v"
  "ds_key (spec k u p i v) = k" "ds_unit (spec k u p i v) = u" "ds_period (spec k u p i v) = p"
  "ds_included (spec k u p i v) = i" "ds_provable (spec k u p i v) = v"
  by (simp_all add: spec_def spec_fraction_def)

lemma spec_threshold [simp]:
  "ds_threshold_95 (spec_fraction k u p None v f) = None"
  "ds_threshold_95 (spec_fraction k u p (Some q) v f)
     = Some \<lfloor>q * (if u = ''GB-month'' then 1000 else 1) * f\<rfloor>"
  "ds_threshold_95 (spec k u p None v) = None"
  "ds_threshold_95 (spec k u p (Some q) v)
     = Some \<lfloor>q * (if u = ''GB-month'' then 1000 else 1) * (95 / 100)\<rfloor>"
  by (simp_all add: spec_def spec_fraction_def STORAGE_UNIT_SCALE_def)

lemma catalog_keys_distinct: "distinct (map ds_key QUOTA_DIMENSIONS)"
  by (simp add: QUOTA_DIMENSIONS_def)

lemma dimensionSpec_iff: "dimensionSpec k = Some e \<longleftrightarrow> e \<in> set QUOTA_DIMENSIONS \<and> ds_key e = k"
proof -
  have "distinct (map fst (rev (map (\<lambda>e. (ds_key e, e)) QUOTA_DIMENSIONS)))"
    using catalog_keys_distinct by (simp add: rev_map [symmetric] comp_def)
  then show ?thesis
    unfolding dimensionSpec_def by (auto dest!: map_of_SomeD intro!: map_of_is_SomeI)
qed

lemma iso_of_Inr: "iso_of t = Inr s \<longleftrightarrow> (\<exists>x. t = Some x \<and> \<bar>x\<bar> \<le> max_time \<and> s = to_iso x)"
  by (auto simp: iso_of_def split: option.splits if_splits)

lemma resolve_cycle_Some:
  "resolve_cycle lp kind anchor now = Some p \<longleftrightarrow>
    (\<exists>a start end' verified. anchor = Some a \<and> ap_anchor_kind a = SubscriptionRenewal
      \<and> date_parse lp (ap_period_start a) = Some start \<and> date_parse lp (ap_period_end a) = Some end'
      \<and> date_parse lp (ap_verified_at a) = Some verified \<and> start \<le> now \<and> now < end'
      \<and> start \<le> verified \<and> verified \<le> now
      \<and> p = \<lparr>rp_period_kind = kind,
             rp_period_key = ''cycle:'' @ ap_period_start a @ ''..'' @ ap_period_end a,
             rp_period_start = ap_period_start a, rp_period_end = ap_period_end a\<rparr>)"
  by (auto simp: resolve_cycle_def isVerifiedAnchor_def split: option.splits if_splits)

lemma resolve_utc_day_eq:
  assumes "\<bar>now\<bar> \<le> max_time" "0 \<le> year_of now" "year_of now \<le> 9999"
    and "\<bar>now div ms_per_day * ms_per_day\<bar> + ms_per_day \<le> max_time"
  shows "resolve_utc_day lp now =
    Inr (Some \<lparr>rp_period_kind = UtcDay, rp_period_key = ''utc-day:'' @ day_string now,
               rp_period_start = day_string now @ ''T00:00:00.000Z'',
               rp_period_end = to_iso (now div ms_per_day * ms_per_day + ms_per_day)\<rparr>)"
proof -
  define d where "d = now div ms_per_day * ms_per_day"
  have d: "\<bar>d\<bar> + ms_per_day \<le> max_time" using assms(4) unfolding d_def .
  then have d': "\<bar>d\<bar> \<le> max_time" "\<bar>d + ms_per_day\<bar> \<le> max_time" by simp_all
  have "date_parse lp (day_string now @ ''T00:00:00.000Z'') = Some d"
    unfolding d_def by (simp only: date_parse_def parse_day_start [OF assms(1) d'(1) [unfolded d_def]]
        option.case)
  then show ?thesis
    unfolding resolve_utc_day_def Let_def take_day_to_iso [OF assms(2,3)] d_def [symmetric]
    using d' by (simp add: iso_of_def)
qed

lemma storageIntegralUnits_Some:
  "storageIntegralUnits lp (Fin b) ps pe (Some now) = Some u \<longleftrightarrow>
    (\<exists>s e. 0 \<le> b \<and> date_parse lp ps = Some s \<and> date_parse lp pe = Some e \<and> s \<le> now \<and> now < e
      \<and> u = (b / 1000000000) * (of_int (e - now) / of_int (e - s)))"
  by (auto simp: storageIntegralUnits_def Let_def split: option.splits if_splits)

section \<open>Properties\<close>

text \<open>C38: a billing-cycle or storage dimension has a period at an instant exactly when the
  account anchor is a renewal record with readable dates, verified no earlier than its start
  and no later than the instant, whose window holds the instant; the period is that window,
  so it is never made up from the calendar.\<close>

theorem resolvePeriod_cycle_iff:
  assumes "ds_period sp \<noteq> UtcDay"
  shows "resolvePeriod lp sp anchor (Some now) = Inr (Some p) \<longleftrightarrow>
    (\<exists>a start end' verified. anchor = Some a \<and> ap_anchor_kind a = SubscriptionRenewal
      \<and> date_parse lp (ap_period_start a) = Some start \<and> date_parse lp (ap_period_end a) = Some end'
      \<and> date_parse lp (ap_verified_at a) = Some verified \<and> start \<le> now \<and> now < end'
      \<and> start \<le> verified \<and> verified \<le> now
      \<and> p = \<lparr>rp_period_kind = ds_period sp,
             rp_period_key = ''cycle:'' @ ap_period_start a @ ''..'' @ ap_period_end a,
             rp_period_start = ap_period_start a, rp_period_end = ap_period_end a\<rparr>)"
  using assms by (simp add: resolvePeriod_def resolve_cycle_Some)

theorem resolvePeriod_cycle_iff_witness:
  "resolvePeriod (\<lambda>_. None) (spec ''kv.reads'' ''reads'' BillingCycle (Some 10) True)
     (Some \<lparr>ap_account_id = ''a'', ap_period_start = ''1970-01-01'', ap_period_end = ''1970-01-05'',
       ap_anchor_kind = SubscriptionRenewal, ap_source = ''s'', ap_source_version = ''v'',
       ap_verified_at = ''1970-01-01''\<rparr>) (Some 5)
   = Inr (Some \<lparr>rp_period_kind = BillingCycle, rp_period_key = ''cycle:1970-01-01..1970-01-05'',
       rp_period_start = ''1970-01-01'', rp_period_end = ''1970-01-05''\<rparr>)"
proof -
  have d: "date_parse (\<lambda>_. None) ''1970-01-01'' = Some 0"
    "date_parse (\<lambda>_. None) ''1970-01-05'' = Some 345600000"
    by code_simp+
  show ?thesis
    by (subst resolvePeriod_cycle_iff) (simp_all add: d)
qed

text \<open>At every instant of the years 0 to 9999 the daily dimension resolves, without an
  anchor, to the UTC day that holds the instant: the printed start and end parse to times
  one day apart with the instant between them.\<close>

theorem resolvePeriod_utc_day:
  assumes "ds_period sp = UtcDay" "\<bar>now\<bar> \<le> 8000000000000000"
    and "0 \<le> year_of now" "year_of now \<le> 9999"
  shows "\<exists>p start. resolvePeriod lp sp anchor (Some now) = Inr (Some p)
    \<and> rp_period_key p = ''utc-day:'' @ take 10 (to_iso now)
    \<and> date_parse lp (rp_period_start p) = Some start
    \<and> date_parse lp (rp_period_end p) = Some (start + ms_per_day)
    \<and> start \<le> now \<and> now < start + ms_per_day"
proof -
  define d where "d = now div ms_per_day * ms_per_day"
  have d: "d \<le> now" "now < d + ms_per_day"
    using div_bounds [of ms_per_day now] unfolding d_def by (simp_all add: mult.commute)
  have b: "\<bar>now\<bar> \<le> max_time" "\<bar>d\<bar> \<le> max_time" "\<bar>d + ms_per_day\<bar> \<le> max_time" "\<bar>d\<bar> + ms_per_day \<le> max_time"
    using assms(2) d by simp_all
  have s: "date_parse lp (day_string now @ ''T00:00:00.000Z'') = Some d"
    unfolding d_def by (simp only: date_parse_def parse_day_start [OF b(1) b(2) [unfolded d_def]]
        option.case)
  show ?thesis
    using resolve_utc_day_eq [OF b(1) assms(3,4) b(4) [unfolded d_def], of lp] assms(1) s d b
    by (simp add: resolvePeriod_def d_def [symmetric] take_day_to_iso assms(3,4) date_parse_to_iso)
qed

theorem resolvePeriod_utc_day_witness:
  "\<exists>p start. resolvePeriod (\<lambda>_. None) (spec ''ai.neurons'' ''Neurons'' UtcDay (Some 10000) True) None
      (Some 86400000) = Inr (Some p)
    \<and> rp_period_key p = ''utc-day:'' @ take 10 (to_iso 86400000)
    \<and> date_parse (\<lambda>_. None) (rp_period_start p) = Some start
    \<and> date_parse (\<lambda>_. None) (rp_period_end p) = Some (start + ms_per_day)
    \<and> start \<le> 86400000 \<and> 86400000 < start + ms_per_day"
  by (rule resolvePeriod_utc_day) (simp_all add: year_of_def year_from_day_def day_from_year_def)

text \<open>Every threshold of the catalog is 95 percent, rounded down, of the allowance in
  admission units (thousandths for GB-months), except that of the daily neurons, which is the
  whole allowance; a dimension without an allowance has no threshold.\<close>

theorem catalog_thresholds:
  "\<forall>e \<in> set QUOTA_DIMENSIONS.
     ds_threshold_95 e = map_option (\<lambda>q. \<lfloor>q * (if ds_unit e = ''GB-month'' then 1000 else 1)
       * (if ds_key e = ''ai.neurons'' then 1 else 95 / 100)\<rfloor>) (ds_included e)"
  unfolding QUOTA_DIMENSIONS_def by simp

theorem catalog_thresholds_witness:
  "ds_threshold_95 (spec ''d1.rows_written'' ''rows'' BillingCycle (Some 50000000) True) = Some 47500000"
  using catalog_thresholds [THEN bspec,
      of "spec ''d1.rows_written'' ''rows'' BillingCycle (Some 50000000) True"]
  by (simp add: QUOTA_DIMENSIONS_def)

text \<open>Where the storage integral is defined it lies between zero and the byte count in GB,
  equals it at the start of the cycle, and falls as the cycle runs on.\<close>

theorem storageIntegralUnits_bounds:
  assumes "storageIntegralUnits lp (Fin b) ps pe (Some now) = Some u"
    and "storageIntegralUnits lp (Fin b) ps pe (Some later) = Some v" and "now \<le> later"
  shows "0 \<le> v \<and> v \<le> u \<and> u \<le> b / 1000000000
    \<and> (date_parse lp ps = Some now \<longrightarrow> u = b / 1000000000)"
proof -
  obtain s e where se: "date_parse lp ps = Some s" "date_parse lp pe = Some e" "0 \<le> b"
    and n: "s \<le> now" "later < e"
    and u: "u = (b / 1000000000) * (of_int (e - now) / of_int (e - s))"
    and v: "v = (b / 1000000000) * (of_int (e - later) / of_int (e - s))"
    using assms unfolding storageIntegralUnits_Some by auto
  define c :: rat where "c = of_int (e - s)"
  have c: "0 < c" using n assms(3) by (simp add: c_def)
  have u': "u = (b / 1000000000) * (of_int (e - now) / c)"
    and v': "v = (b / 1000000000) * (of_int (e - later) / c)"
    using u v by (simp_all add: c_def)
  have r: "of_int (e - later) / c \<ge> 0" "of_int (e - later) / c \<le> of_int (e - now) / c"
    "of_int (e - now) / c \<le> 1"
    using c n assms(3) by (auto simp: c_def divide_right_mono divide_le_eq)
  have k: "0 \<le> b / 1000000000" using se by simp
  have "0 \<le> v" unfolding v' using k r(1) by (rule mult_nonneg_nonneg)
  moreover have "v \<le> u" unfolding u' v' using mult_left_mono [OF r(2) k] .
  moreover have "u \<le> b / 1000000000" unfolding u' using mult_left_mono [OF r(3) k] by simp
  moreover have "u = b / 1000000000" if "date_parse lp ps = Some now"
    using that se c unfolding u' by (simp add: c_def)
  ultimately show ?thesis by blast
qed

theorem storageIntegralUnits_bounds_witness:
  "storageIntegralUnits (\<lambda>_. None) (Fin 4000000000) ''1970-01-01'' ''1970-01-05'' (Some 0) = Some 4 \<and>
   storageIntegralUnits (\<lambda>_. None) (Fin 4000000000) ''1970-01-01'' ''1970-01-05'' (Some 86400000) = Some 3 \<and>
   (0::rat) \<le> 3 \<and> 3 \<le> (4::rat)"
proof -
  have d: "date_parse (\<lambda>_. None) ''1970-01-01'' = Some 0"
    "date_parse (\<lambda>_. None) ''1970-01-05'' = Some 345600000"
    by code_simp+
  have a: "storageIntegralUnits (\<lambda>_. None) (Fin 4000000000) ''1970-01-01'' ''1970-01-05'' (Some 0) = Some 4"
    and b: "storageIntegralUnits (\<lambda>_. None) (Fin 4000000000) ''1970-01-01'' ''1970-01-05''
      (Some 86400000) = Some 3"
    unfolding storageIntegralUnits_def d by simp_all
  show ?thesis using a b storageIntegralUnits_bounds [OF a b] by simp
qed

end
