(* ===== verification/Quota_Billing.thy ===== *)
theory Quota_Billing
  imports Quota_Dimensions
begin

text \<open>
  \<open>src/src/quota-billing.ts\<close>: the strict interpretation of an already fetched Billable Usage
  payload. Every doubt yields a state other than VERIFIED with its reason and no observation.
  The caller's expected period is printed with \<open>toISOString\<close>, which throws on an unreadable
  date: the model keeps that as \<^term>\<open>Inl\<close>.
\<close>

datatype baseline_state = VERIFIED | UNVERIFIED | STALE | DENIED | INCOMPLETE

record billing_mapping =
  bm_usage_type :: string
  bm_dimension_key :: string
  bm_scale :: rat
  bm_evidence :: string

definition BILLING_DIMENSION_MAPPINGS :: "billing_mapping list" where
  "BILLING_DIMENSION_MAPPINGS = []"

record billing_input =
  bi_http_status :: int
  bi_fetched_at :: string
  bi_body :: jsval
  bi_account_id :: string
  bi_expected_period :: "(string \<times> string) option"
  bi_pagination_complete :: bool
  bi_coverage_end :: "string option"
  bi_max_age_ms :: int
  bi_now :: "int option"

record baseline_observation =
  bo_dimension_key :: string
  bo_period_key :: string
  bo_used :: int
  bo_state :: baseline_state
  bo_source :: string
  bo_source_version :: string
  bo_as_of :: string
  bo_coverage_end :: "string option"

record billing_result =
  br_state :: baseline_state
  br_period_key :: "string option"
  br_observations :: "baseline_observation list"
  br_reasons :: "string list"

definition deny :: "baseline_state \<Rightarrow> string \<Rightarrow> billing_result" where
  "deny st reason = \<lparr>br_state = st, br_period_key = None, br_observations = [], br_reasons = [reason]\<rparr>"

text \<open>\<open>Date.parse\<close> answers times within the range of Date, so the printing does not fail.\<close>

definition isoOrNull :: "(string \<Rightarrow> int option) \<Rightarrow> jsval option \<Rightarrow> string option" where
  "isoOrNull lp v = (case as_string v of None \<Rightarrow> None | Some s \<Rightarrow> map_option to_iso (date_parse lp s))"

text \<open>\<open>(typeof r.account_id === "string" && r.account_id) || (typeof r.account_tag ...) || ""\<close>\<close>

definition provider_account :: "jsobj \<Rightarrow> string" where
  "provider_account result =
     (case as_string (fld result ''account_id'') of
        Some (c # cs) \<Rightarrow> c # cs
      | _ \<Rightarrow> (case as_string (fld result ''account_tag'') of Some s \<Rightarrow> s | None \<Rightarrow> ''''))"

definition usage_type :: "jsobj \<Rightarrow> string option" where
  "usage_type row =
     (case as_string (fld row ''usage_type'') of
        Some s \<Rightarrow> Some s
      | None \<Rightarrow> as_string (fld row ''type''))"

definition usage_value :: "jsobj \<Rightarrow> jsval option" where
  "usage_value row = nullish (fld row ''value'')
     (nullish (fld row ''quantity'') (nullish (fld row ''used'') (fld row ''usage'')))"

text \<open>One usage row: an observation, or the denial that ends the reading.\<close>

definition read_usage_row ::
  "billing_mapping list \<Rightarrow> billing_input \<Rightarrow> string \<Rightarrow> string \<Rightarrow> jsval
     \<Rightarrow> billing_result + baseline_observation" where
  "read_usage_row mappings inp periodKey coverageEnd row' =
     (case as_record row' of
        None \<Rightarrow> Inl (deny INCOMPLETE ''billing usage row is not an object'')
      | Some row \<Rightarrow>
     (case usage_type row of
        None \<Rightarrow> Inl (deny INCOMPLETE ''billing usage row has no usage type'')
      | Some ut \<Rightarrow>
     (if ut = '''' then Inl (deny INCOMPLETE ''billing usage row has no usage type'') else
     (case find (\<lambda>e. bm_usage_type e = ut) mappings of
        None \<Rightarrow> Inl (deny INCOMPLETE (''unmapped provider usage type present: '' @ ut))
      | Some mapping \<Rightarrow>
     (case dimensionSpec (bm_dimension_key mapping) of
        None \<Rightarrow> Inl (deny INCOMPLETE (''mapping points at unknown dimension '' @ bm_dimension_key mapping))
      | Some specification \<Rightarrow>
     (case as_finite (usage_value row) of
        None \<Rightarrow> Inl (deny INCOMPLETE (''billing usage value for '' @ ut @ '' is not a non-negative number''))
      | Some value \<Rightarrow>
     (if value < 0
      then Inl (deny INCOMPLETE (''billing usage value for '' @ ut @ '' is not a non-negative number''))
      else Inr \<lparr>bo_dimension_key = bm_dimension_key mapping,
                bo_period_key = (if ds_period specification = UtcDay
                                 then ''utc-day:'' @ take 10 coverageEnd else periodKey),
                bo_used = \<lceil>value * bm_scale mapping\<rceil>,
                bo_state = VERIFIED,
                bo_source = ''cloudflare-billable-usage'',
                bo_source_version = ''billable-usage@'' @ bi_fetched_at inp,
                bo_as_of = coverageEnd,
                bo_coverage_end = Some coverageEnd\<rparr>)))))))"

text \<open>The checks on coverage, fetch time and account that precede the usage rows; the value is
  the normalised coverage end.\<close>

definition check_coverage ::
  "(string \<Rightarrow> int option) \<Rightarrow> billing_input \<Rightarrow> jsobj \<Rightarrow> billing_result + string" where
  "check_coverage lp inp result =
     (if \<not> bi_pagination_complete inp
      then Inl (deny INCOMPLETE ''billing pagination is not proven complete'') else
     (case bi_coverage_end inp of
        None \<Rightarrow> Inl (deny INCOMPLETE ''billing coverage end is unknown'')
      | Some ce \<Rightarrow>
     (if ce = '''' then Inl (deny INCOMPLETE ''billing coverage end is unknown'') else
     (case isoOrNull lp (Some (JStr ce)) of
        None \<Rightarrow> Inl (deny INCOMPLETE ''billing coverage end is not an ISO instant'')
      | Some coverageEnd \<Rightarrow>
     (case (bi_now inp, date_parse lp coverageEnd) of
        (Some now, Some t) \<Rightarrow>
          bindE (throw_if
            [(now - t < 0, deny INCOMPLETE ''billing coverage end is not in the past''),
             (now - t > bi_max_age_ms inp,
                deny STALE (''billing coverage lags now by ''
                  @ show_int (math_round (of_int (now - t) / 1000)) @ ''s'')),
             (date_parse lp (bi_fetched_at inp) = None, deny INCOMPLETE ''billing fetch time is invalid''),
             (provider_account result = '''' \<or> provider_account result \<noteq> bi_account_id inp,
                deny INCOMPLETE ''billing account identity does not match the configured account''),
             (fld result ''currency'' \<noteq> None \<and> as_string (fld result ''currency'') = None,
                deny INCOMPLETE ''billing currency field is not a string'')])
            (\<lambda>_. Inr coverageEnd)
      | _ \<Rightarrow> Inl (deny INCOMPLETE ''billing coverage end is not in the past''))))))"

definition read_usage ::
  "(string \<Rightarrow> int option) \<Rightarrow> billing_input \<Rightarrow> billing_mapping list \<Rightarrow> jsobj \<Rightarrow> string
     \<Rightarrow> billing_result" where
  "read_usage lp inp mappings result periodKey =
     (case check_coverage lp inp result of
        Inl r \<Rightarrow> r
      | Inr coverageEnd \<Rightarrow>
     (case as_array (nullish (fld result ''usage'') (fld result ''total_usage'')) of
        None \<Rightarrow> deny INCOMPLETE ''billing body carries no usage array''
      | Some rawUsage \<Rightarrow>
     (if mappings = [] then deny INCOMPLETE
        ''no verified provider-to-dimension mapping is registered (partial billing rows cannot authorize admission)''
      else (case mapE (\<lambda>row i. read_usage_row mappings inp periodKey coverageEnd row) rawUsage of
         Inl r \<Rightarrow> r
       | Inr observations \<Rightarrow>
           if observations = []
           then deny INCOMPLETE ''billing usage array is empty; absence is not zero''
           else \<lparr>br_state = VERIFIED, br_period_key = Some periodKey,
                 br_observations = observations, br_reasons = []\<rparr>))))"

definition check_status :: "int \<Rightarrow> billing_result + unit" where
  "check_status status = throw_if
     [(status = 401 \<or> status = 403, deny DENIED (''billing read denied with HTTP '' @ show_int status)),
      (status = 0 \<or> status = 429 \<or> status \<ge> 500,
         deny INCOMPLETE (''billing read unavailable with HTTP '' @ show_int status)),
      (status \<noteq> 200, deny INCOMPLETE (''unexpected billing read status '' @ show_int status))]"

definition interpretBillableUsage ::
  "(string \<Rightarrow> int option) \<Rightarrow> billing_input \<Rightarrow> billing_mapping list \<Rightarrow> billing_result result" where
  "interpretBillableUsage lp inp mappings =
     (case check_status (bi_http_status inp) of Inl r \<Rightarrow> Inr r | Inr _ \<Rightarrow>
     (case as_record (bi_body inp) of
        None \<Rightarrow> Inr (deny INCOMPLETE ''billing body is not a JSON object'')
      | Some body \<Rightarrow>
     (if fld body ''success'' \<noteq> Some (JBool True)
      then Inr (deny DENIED (''billing body reported success=false (''
        @ show_nat (case as_array (fld body ''errors'') of Some es \<Rightarrow> length es | None \<Rightarrow> 0)
        @ '' errors)''))
      else (case Option.bind (fld body ''result'') as_record of
        None \<Rightarrow> Inr (deny INCOMPLETE ''billing body has no result object'')
      | Some result \<Rightarrow>
     (case (isoOrNull lp (nullish (fld result ''billing_cycle_start'') (fld result ''period_start'')),
            isoOrNull lp (nullish (fld result ''billing_cycle_end'') (fld result ''period_end''))) of
        (Some cycleStart, Some cycleEnd) \<Rightarrow>
          (case bi_expected_period inp of
             None \<Rightarrow> Inr (deny INCOMPLETE ''account billing cycle anchor is not verified for this account'')
           | Some (ps, pe) \<Rightarrow>
               bindE (iso_of (date_parse lp ps)) (\<lambda>es.
               if cycleStart \<noteq> es
               then Inr (deny INCOMPLETE ''billing cycle window does not match the verified account anchor'')
               else bindE (iso_of (date_parse lp pe)) (\<lambda>ee.
               if cycleEnd \<noteq> ee
               then Inr (deny INCOMPLETE ''billing cycle window does not match the verified account anchor'')
               else Inr (read_usage lp inp mappings result
                      (''cycle:'' @ cycleStart @ ''..'' @ cycleEnd)))))
      | _ \<Rightarrow> Inr (deny INCOMPLETE ''billing body does not carry an explicit billing cycle window''))))))"

definition storageAdmissionUnits :: "jsnum \<Rightarrow> int option" where
  "storageAdmissionUnits bytes =
     (case bytes of Fin b \<Rightarrow> if b < 0 then None else Some \<lceil>(b / 1000000000) * STORAGE_UNIT_SCALE\<rceil>
      | _ \<Rightarrow> None)"

definition isDimensionCoveredByMappings :: "string \<Rightarrow> bool" where
  "isDimensionCoveredByMappings key = list_ex (\<lambda>e. bm_dimension_key e = key) BILLING_DIMENSION_MAPPINGS"

definition isValidDimensionKey :: "string \<Rightarrow> bool" where
  "isValidDimensionKey key = isDimensionKey key"

section \<open>Facts\<close>

lemma deny_simps [simp]:
  "br_state (deny s r) = s" "br_observations (deny s r) = []" "br_period_key (deny s r) = None"
  "br_reasons (deny s r) = [r]"
  by (simp_all add: deny_def)

text \<open>What a denial looks like: no observation and no period, one reason, not VERIFIED.\<close>

definition is_denial :: "billing_result \<Rightarrow> bool" where
  "is_denial r \<longleftrightarrow> (\<exists>st reason. st \<noteq> VERIFIED \<and> r = deny st reason)"

lemma is_denialI [simp, intro]: "st \<noteq> VERIFIED \<Longrightarrow> is_denial (deny st reason)"
  by (auto simp: is_denial_def)

lemma check_status_denial: "check_status st = Inl r \<Longrightarrow> is_denial r"
  by (auto simp: check_status_def split: if_splits)

lemma check_coverage_denial: "check_coverage lp inp result = Inl r \<Longrightarrow> is_denial r"
  by (auto simp: check_coverage_def split: if_splits option.splits)

lemma read_usage_row_denial: "read_usage_row ms inp pk ce row = Inl r \<Longrightarrow> is_denial r"
  by (auto simp: read_usage_row_def split: if_splits option.splits)

lemma mapE_Inl: "mapE_from i f xs = Inl e \<Longrightarrow> \<exists>x \<in> set xs. \<exists>k. f x k = Inl e"
proof (induction xs arbitrary: i)
  case (Cons x xs)
  then show ?case by (cases "f x i"; cases "mapE_from (Suc i) f xs") auto
qed simp

lemma read_usage_row_Inr:
  assumes "read_usage_row ms inp pk ce row = Inr ob"
  shows "\<exists>r ut m sp v. row = JObj r \<and> usage_type r = Some ut \<and> m \<in> set ms \<and> bm_usage_type m = ut
    \<and> dimensionSpec (bm_dimension_key m) = Some sp \<and> usage_value r = Some (JNum (Fin v)) \<and> 0 \<le> v
    \<and> bo_dimension_key ob = bm_dimension_key m \<and> bo_used ob = \<lceil>v * bm_scale m\<rceil>
    \<and> bo_state ob = VERIFIED
    \<and> bo_period_key ob = (if ds_period sp = UtcDay then ''utc-day:'' @ take 10 ce else pk)"
  using assms unfolding read_usage_row_def
  by (auto split: if_splits option.splits simp: find_Some_iff) (metis nth_mem)+

lemma read_usage_cases:
  "is_denial (read_usage lp inp ms result pk) \<or>
   (\<exists>ce obs rows. check_coverage lp inp result = Inr ce
      \<and> as_array (nullish (fld result ''usage'') (fld result ''total_usage'')) = Some rows
      \<and> ms \<noteq> [] \<and> mapE (\<lambda>row i. read_usage_row ms inp pk ce row) rows = Inr obs \<and> obs \<noteq> []
      \<and> read_usage lp inp ms result pk = \<lparr>br_state = VERIFIED, br_period_key = Some pk,
           br_observations = obs, br_reasons = []\<rparr>)"
  unfolding read_usage_def
  by (auto split: sum.splits option.splits simp: check_coverage_denial
      dest!: mapE_Inl read_usage_row_denial)

section \<open>Properties\<close>

text \<open>C39: the reading of a payload is fail-closed: whenever it returns, the result is either a
  denial (a state other than VERIFIED, no period, no observation, exactly one reason) or a
  VERIFIED result of a 200 response with complete pagination, from the configured account, at
  least one usage row, one observation per row and every row mapped to a catalog dimension.\<close>

theorem interpretBillableUsage_fail_closed:
  assumes "interpretBillableUsage lp inp ms = Inr r"
  shows "(br_state r \<noteq> VERIFIED \<and> br_observations r = [] \<and> br_period_key r = None \<and> length (br_reasons r) = 1)
    \<or> (br_state r = VERIFIED \<and> bi_http_status inp = 200 \<and> bi_pagination_complete inp
       \<and> br_observations r \<noteq> [] \<and> br_reasons r = []
       \<and> (\<exists>body result rows. bi_body inp = JObj body \<and> fld body ''result'' = Some (JObj result)
            \<and> provider_account result = bi_account_id inp
            \<and> nullish (fld result ''usage'') (fld result ''total_usage'') = Some (JArr rows)
            \<and> length (br_observations r) = length rows)
       \<and> (\<forall>ob \<in> set (br_observations r). bo_state ob = VERIFIED
            \<and> isDimensionKey (bo_dimension_key ob)
            \<and> (\<exists>m \<in> set ms. bm_dimension_key m = bo_dimension_key ob)))"
proof (cases "is_denial r")
  case True
  then show ?thesis by (auto simp: is_denial_def)
next
  case False
  then obtain body result pk where st: "check_status (bi_http_status inp) = Inr ()"
    and b: "bi_body inp = JObj body" "fld body ''result'' = Some (JObj result)"
    and r: "r = read_usage lp inp ms result pk"
    using assms unfolding interpretBillableUsage_def
    by (auto split: sum.splits option.splits if_splits simp: check_status_denial bindE_Inr bind_eq_Some_conv)
  from False r obtain ce obs rows where c: "check_coverage lp inp result = Inr ce"
    and rows: "nullish (fld result ''usage'') (fld result ''total_usage'') = Some (JArr rows)"
    and m: "mapE (\<lambda>row i. read_usage_row ms inp pk ce row) rows = Inr obs" "obs \<noteq> []"
    and r': "r = \<lparr>br_state = VERIFIED, br_period_key = Some pk, br_observations = obs, br_reasons = []\<rparr>"
    using read_usage_cases [of lp inp ms result pk] by auto
  have obs: "bo_state ob = VERIFIED \<and> isDimensionKey (bo_dimension_key ob)
      \<and> (\<exists>m \<in> set ms. bm_dimension_key m = bo_dimension_key ob)" if ob: "ob \<in> set obs" for ob
  proof -
    obtain k where k: "k < length rows" "read_usage_row ms inp pk ce (rows ! k) = Inr ob"
      using ob m(1) by (auto simp: mapE_from_Inr in_set_conv_nth)
    then show ?thesis using read_usage_row_Inr [OF k(2)] by (auto simp: isDimensionKey_def)
  qed
  have p: "bi_pagination_complete inp" "provider_account result = bi_account_id inp"
    using c unfolding check_coverage_def by (auto split: if_splits option.splits)
  have "bi_http_status inp = 200"
    using st by (auto simp: check_status_def split: if_splits)
  then show ?thesis using b rows p m obs by (auto simp: r' mapE_from_Inr)
qed

text \<open>The input of the witnesses: one verified reading of one usage row.\<close>

definition sample_billing_input :: billing_input where
  "sample_billing_input =
  \<lparr>bi_http_status = 200, bi_fetched_at = ''1970-01-02'',
   bi_body = JObj [(''success'', JBool True), (''result'', JObj [(''period_start'', JStr ''1970-01-01''),
      (''period_end'', JStr ''1970-01-05''), (''account_tag'', JStr ''acc''),
      (''usage'', JArr [JObj [(''type'', JStr ''reads''), (''used'', JInt 3)]])])],
   bi_account_id = ''acc'', bi_expected_period = Some (''1970-01-01'', ''1970-01-05''),
   bi_pagination_complete = True, bi_coverage_end = Some ''1970-01-02'', bi_max_age_ms = 1000,
   bi_now = Some 86400500\<rparr>"

definition sample_mappings :: "billing_mapping list" where
  "sample_mappings =
    [\<lparr>bm_usage_type = ''reads'', bm_dimension_key = ''kv.reads'', bm_scale = 1 / 2, bm_evidence = ''e''\<rparr>]"

definition sample_billing_result :: billing_result where
  "sample_billing_result =
   \<lparr>br_state = VERIFIED, br_period_key = Some ''cycle:1970-01-01T00:00:00.000Z..1970-01-05T00:00:00.000Z'',
    br_observations = [\<lparr>bo_dimension_key = ''kv.reads'',
      bo_period_key = ''cycle:1970-01-01T00:00:00.000Z..1970-01-05T00:00:00.000Z'', bo_used = 2,
      bo_state = VERIFIED, bo_source = ''cloudflare-billable-usage'',
      bo_source_version = ''billable-usage@1970-01-02'', bo_as_of = ''1970-01-02T00:00:00.000Z'',
      bo_coverage_end = Some ''1970-01-02T00:00:00.000Z''\<rparr>], br_reasons = []\<rparr>"

lemma sample_billing_reads:
  "interpretBillableUsage (\<lambda>_. None) sample_billing_input sample_mappings = Inr sample_billing_result"
  by code_simp

theorem interpretBillableUsage_fail_closed_witness:
  "br_state sample_billing_result = VERIFIED \<and> br_observations sample_billing_result \<noteq> []
   \<and> bi_pagination_complete sample_billing_input"
  using interpretBillableUsage_fail_closed [OF sample_billing_reads]
  by (simp add: sample_billing_result_def)

text \<open>With the mappings the program registers (none) no payload is ever VERIFIED and no
  observation is produced, whatever the provider answers.\<close>

theorem interpretBillableUsage_registered:
  "case interpretBillableUsage lp inp BILLING_DIMENSION_MAPPINGS of
     Inl _ \<Rightarrow> True
   | Inr r \<Rightarrow> br_state r \<noteq> VERIFIED \<and> br_observations r = []"
proof (cases "interpretBillableUsage lp inp BILLING_DIMENSION_MAPPINGS")
  case (Inr r)
  have "br_state r \<noteq> VERIFIED \<and> br_observations r = []"
  proof (rule ccontr)
    assume n: "\<not> ?thesis"
    with Inr have "\<not> is_denial r" by (auto simp: is_denial_def)
    with Inr show False
      using read_usage_cases [of lp inp "[]"] unfolding interpretBillableUsage_def
      by (auto split: sum.splits option.splits if_splits
          simp: check_status_denial bindE_Inr BILLING_DIMENSION_MAPPINGS_def)
  qed
  with Inr show ?thesis by simp
qed simp

text \<open>Each observation of a VERIFIED reading is its usage row: the row's type selects the
  mapping, the value is not negative, and the recorded usage is the scaled value rounded up, so
  a reading never reports less than the provider did.\<close>

theorem interpretBillableUsage_rows:
  assumes "interpretBillableUsage lp inp ms = Inr r" "br_state r = VERIFIED"
    and "bi_body inp = JObj body" "fld body ''result'' = Some (JObj result)"
    and "nullish (fld result ''usage'') (fld result ''total_usage'') = Some (JArr rows)"
    and "k < length rows"
  shows "\<exists>row ut m v. rows ! k = JObj row \<and> usage_type row = Some ut \<and> m \<in> set ms
    \<and> bm_usage_type m = ut \<and> bo_dimension_key (br_observations r ! k) = bm_dimension_key m
    \<and> usage_value row = Some (JNum (Fin v)) \<and> 0 \<le> v
    \<and> v * bm_scale m \<le> of_int (bo_used (br_observations r ! k))
    \<and> of_int (bo_used (br_observations r ! k)) < v * bm_scale m + 1"
proof -
  from assms(2) have "\<not> is_denial r" by (auto simp: is_denial_def)
  then obtain pk where r: "r = read_usage lp inp ms result pk"
    using assms(1,3,4) unfolding interpretBillableUsage_def
    by (auto split: sum.splits option.splits if_splits simp: check_status_denial bindE_Inr)
  from \<open>\<not> is_denial r\<close> r obtain ce where
    m: "mapE (\<lambda>row i. read_usage_row ms inp pk ce row) rows = Inr (br_observations r)"
    using read_usage_cases [of lp inp ms result pk] assms(5) by auto
  then have "read_usage_row ms inp pk ce (rows ! k) = Inr (br_observations r ! k)"
    using assms(6) by (simp add: mapE_from_Inr)
  from read_usage_row_Inr [OF this] obtain row ut m v where
    *: "rows ! k = JObj row" "usage_type row = Some ut" "m \<in> set ms" "bm_usage_type m = ut"
      "bo_dimension_key (br_observations r ! k) = bm_dimension_key m"
      "usage_value row = Some (JNum (Fin v))" "0 \<le> v"
    and u: "bo_used (br_observations r ! k) = \<lceil>v * bm_scale m\<rceil>" by blast
  have "v * bm_scale m \<le> of_int \<lceil>v * bm_scale m\<rceil>" "of_int \<lceil>v * bm_scale m\<rceil> < v * bm_scale m + 1"
    by (simp_all add: le_of_int_ceiling) linarith
  with * u show ?thesis by metis
qed

theorem interpretBillableUsage_rows_witness:
  "\<exists>row ut m v. JObj [(''type'', JStr ''reads''), (''used'', JInt 3)] = JObj row
    \<and> usage_type row = Some ut \<and> m \<in> set sample_mappings
    \<and> bm_usage_type m = ut \<and> ''kv.reads'' = bm_dimension_key m
    \<and> usage_value row = Some (JNum (Fin v)) \<and> 0 \<le> v \<and> v * bm_scale m \<le> 2 \<and> 2 < v * bm_scale m + 1"
  using interpretBillableUsage_rows [OF sample_billing_reads, where k = 0
      and rows = "[JObj [(''type'', JStr ''reads''), (''used'', JInt 3)]]"
      and result = "[(''period_start'', JStr ''1970-01-01''), (''period_end'', JStr ''1970-01-05''),
        (''account_tag'', JStr ''acc''),
        (''usage'', JArr [JObj [(''type'', JStr ''reads''), (''used'', JInt 3)]])]"
      and body = "[(''success'', JBool True), (''result'', JObj [(''period_start'', JStr ''1970-01-01''),
        (''period_end'', JStr ''1970-01-05''), (''account_tag'', JStr ''acc''),
        (''usage'', JArr [JObj [(''type'', JStr ''reads''), (''used'', JInt 3)]])])]"]
  by (simp add: sample_billing_result_def sample_billing_input_def)

end
