(* ===== verification/Quota_Ledger.thy ===== *)
theory Quota_Ledger
  imports Quota_Billing
begin

text \<open>
  \<open>src/src/quota-admission.ts\<close>: the operator records (account period, baselines, catalog copy)
  and the read-only status of every dimension. The D1 tables are maps by primary key with the
  CHECK constraints of \<open>migrations/0017\<close>; a read that may fail on its own is named by
  \<open>quota_read\<close> and the parameter \<open>fails\<close> says which ones do.
\<close>

section \<open>Tables\<close>

record baseline_row =
  bl_state :: baseline_state
  bl_used :: rat
  bl_unobserved_upper_bound :: rat
  bl_source :: string
  bl_source_version :: string
  bl_as_of :: string
  bl_coverage_end :: "string option"
  bl_recorded_at :: string

record catalog_row =
  cr_unit :: string
  cr_period_kind :: period_kind
  cr_included :: "rat option"
  cr_threshold_95 :: "int option"
  cr_provable :: bool
  cr_catalog_version :: string
  cr_recorded_at :: string

record reservation_unit =
  ru_reservation_id :: string
  ru_dimension_key :: string
  ru_period_key :: string
  ru_units :: rat

record quota_db =
  qd_periods :: "string \<rightharpoonup> account_period \<times> string"
  qd_baselines :: "string \<times> string \<rightharpoonup> baseline_row"
  qd_catalog :: "string \<rightharpoonup> catalog_row"
  qd_reservation_units :: "reservation_unit list"
  qd_booked :: "string \<times> string \<rightharpoonup> rat"

datatype quota_read =
    ReadAnchor | ReadLive
  | ReadBaseline string string | ReadReserved string string | ReadBooked string string

section \<open>Operator records\<close>

definition recordAccountPeriod :: "quota_db \<Rightarrow> account_period \<Rightarrow> string \<Rightarrow> quota_db result" where
  "recordAccountPeriod db anchor now_iso =
     (if \<not> (ap_period_start anchor < ap_period_end anchor) then Inl ''CHECK constraint failed''
      else Inr (db\<lparr>qd_periods := (qd_periods db)(ap_account_id anchor \<mapsto> (anchor, now_iso))\<rparr>))"

definition recordBaseline ::
  "quota_db \<Rightarrow> string \<Rightarrow> string \<Rightarrow> baseline_row \<Rightarrow> string \<Rightarrow> quota_db result" where
  "recordBaseline db dimension_key period_key observation now_iso =
     (if bl_used observation < 0 \<or> bl_unobserved_upper_bound observation < 0
      then Inl ''CHECK constraint failed''
      else Inr (db\<lparr>qd_baselines := (qd_baselines db)((dimension_key, period_key) \<mapsto>
             observation\<lparr>bl_recorded_at := now_iso\<rparr>)\<rparr>))"

definition catalog_row_of :: "string \<Rightarrow> string \<Rightarrow> dimension_spec \<Rightarrow> catalog_row" where
  "catalog_row_of version now_iso d =
     \<lparr>cr_unit = ds_unit d, cr_period_kind = ds_period d, cr_included = ds_included d,
      cr_threshold_95 = ds_threshold_95 d, cr_provable = ds_provable d,
      cr_catalog_version = version, cr_recorded_at = now_iso\<rparr>"

text \<open>One batch of upserts, in the order of the list.\<close>

definition syncDimensionCatalog ::
  "quota_db \<Rightarrow> dimension_spec list \<Rightarrow> string \<Rightarrow> string \<Rightarrow> quota_db" where
  "syncDimensionCatalog db dimensions version now_iso =
     fold (\<lambda>d db. db\<lparr>qd_catalog := (qd_catalog db)(ds_key d \<mapsto> catalog_row_of version now_iso d)\<rparr>)
       dimensions db"

section \<open>Status\<close>

datatype gate_state = OPEN | CLOSED | UNKNOWN

record dimension_status =
  st_dimension_key :: string
  st_state :: gate_state
  st_period_key :: "string option"
  st_used :: "rat option"
  st_unobserved_upper_bound :: "rat option"
  st_reserved :: "rat option"
  st_booked :: "rat option"
  st_threshold_95 :: "int option"
  st_reason :: string

record quota_status =
  qs_account_id :: string
  qs_catalog_version :: string
  qs_period :: "(string \<times> string) option"
  qs_anchor_verified :: bool
  qs_live_reservations :: nat
  qs_dimensions :: "dimension_status list"

definition readAnchor :: "quota_db \<Rightarrow> string \<Rightarrow> account_period option" where
  "readAnchor db account_id = map_option fst (qd_periods db account_id)"

definition readBookedUsage :: "quota_db \<Rightarrow> string \<Rightarrow> string \<Rightarrow> rat option" where
  "readBookedUsage db dimension_key period_key = qd_booked db (dimension_key, period_key)"

definition reserved_units :: "quota_db \<Rightarrow> string \<Rightarrow> string \<Rightarrow> rat" where
  "reserved_units db k p = sum_list (map ru_units
     (filter (\<lambda>u. ru_dimension_key u = k \<and> ru_period_key u = p) (qd_reservation_units db)))"

definition live_reservations :: "quota_db \<Rightarrow> nat" where
  "live_reservations db = length (remdups (map ru_reservation_id (qd_reservation_units db)))"

text \<open>\<open>promise.catch(() => null)\<close>\<close>

definition catch_null :: "(quota_read \<Rightarrow> bool) \<Rightarrow> quota_read \<Rightarrow> 'a option \<Rightarrow> 'a option" where
  "catch_null fails rd v = (if fails rd then None else v)"

definition baseline_state_name :: "baseline_state \<Rightarrow> string" where
  "baseline_state_name s = (case s of VERIFIED \<Rightarrow> ''VERIFIED'' | UNVERIFIED \<Rightarrow> ''UNVERIFIED''
     | STALE \<Rightarrow> ''STALE'' | DENIED \<Rightarrow> ''DENIED'' | INCOMPLETE \<Rightarrow> ''INCOMPLETE'')"

definition unknown_status :: "string \<Rightarrow> int option \<Rightarrow> string \<Rightarrow> dimension_status" where
  "unknown_status key threshold reason =
     \<lparr>st_dimension_key = key, st_state = UNKNOWN, st_period_key = None, st_used = None,
      st_unobserved_upper_bound = None, st_reserved = None, st_booked = None,
      st_threshold_95 = threshold, st_reason = reason\<rparr>"

definition or_zero :: "rat option \<Rightarrow> rat" where
  "or_zero v = (case v of Some x \<Rightarrow> x | None \<Rightarrow> 0)"

text \<open>Real committed usage: baseline, unobserved tail and bookings.\<close>

definition committed_usage :: "baseline_row option \<Rightarrow> rat option \<Rightarrow> rat" where
  "committed_usage row booked =
     or_zero (map_option bl_used row) + or_zero (map_option bl_unobserved_upper_bound row) + or_zero booked"

text \<open>\<open>Number(null)\<close> is 0: a dimension without a threshold is never breached.\<close>

definition threshold_breached :: "int option \<Rightarrow> rat \<Rightarrow> bool" where
  "threshold_breached threshold committed =
     (let t = (case threshold of Some x \<Rightarrow> of_int x | None \<Rightarrow> 0) in t > 0 \<and> committed \<ge> t)"

definition period_status ::
  "quota_db \<Rightarrow> (quota_read \<Rightarrow> bool) \<Rightarrow> dimension_spec \<Rightarrow> string \<Rightarrow> dimension_status" where
  "period_status db fails sp pk =
     (let key = ds_key sp;
          row = catch_null fails (ReadBaseline key pk) (qd_baselines db (key, pk));
          reserved = catch_null fails (ReadReserved key pk) (Some (reserved_units db key pk));
          booked = catch_null fails (ReadBooked key pk) (readBookedUsage db key pk);
          breached = threshold_breached (ds_threshold_95 sp) (committed_usage row booked)
      in \<lparr>st_dimension_key = key,
          st_state = (if breached then CLOSED else OPEN),
          st_period_key = Some pk,
          st_used = map_option bl_used row,
          st_unobserved_upper_bound = map_option bl_unobserved_upper_bound row,
          st_reserved = reserved,
          st_booked = booked,
          st_threshold_95 = ds_threshold_95 sp,
          st_reason =
            (if breached then ''committed usage reached the 95% threshold (baseline plus booked)''
             else case row of
                 Some r \<Rightarrow> ''baseline state is '' @ baseline_state_name (bl_state r)
                           @ ''; informational only since the gate removal''
               | None \<Rightarrow> ''no baseline row yet; informational only since the gate removal'')\<rparr>)"

definition dimension_status_of ::
  "(string \<Rightarrow> int option) \<Rightarrow> quota_db \<Rightarrow> (quota_read \<Rightarrow> bool) \<Rightarrow> account_period option \<Rightarrow> int option
     \<Rightarrow> string \<Rightarrow> dimension_status result" where
  "dimension_status_of lp db fails anchor now key =
     (case dimensionSpec key of
        None \<Rightarrow> Inr (unknown_status key None ''dimension is not in the billing catalog'')
      | Some sp \<Rightarrow>
          bindE (resolvePeriod lp sp anchor now) (\<lambda>period.
          case period of
            None \<Rightarrow> Inr (unknown_status key (ds_threshold_95 sp)
                      ''account billing period anchor is not verified'')
          | Some p \<Rightarrow> Inr (period_status db fails sp (rp_period_key p))))"

definition quotaStatus ::
  "(string \<Rightarrow> int option) \<Rightarrow> quota_db \<Rightarrow> (quota_read \<Rightarrow> bool) \<Rightarrow> string \<Rightarrow> int option \<Rightarrow> string list
     \<Rightarrow> quota_status result" where
  "quotaStatus lp db fails account_id now catalog =
     (let anchor = catch_null fails ReadAnchor (readAnchor db account_id) in
      bindE (resolvePeriod lp (the (dimensionSpec ''d1.rows_read'')) anchor now) (\<lambda>rp.
      bindE (mapE (\<lambda>key i. dimension_status_of lp db fails anchor now key) catalog) (\<lambda>dims.
      Inr \<lparr>qs_account_id = account_id,
           qs_catalog_version = QUOTA_CATALOG_VERSION,
           qs_period = map_option (\<lambda>a. (ap_period_start a, ap_period_end a)) anchor,
           qs_anchor_verified = (rp \<noteq> None),
           qs_live_reservations = (if fails ReadLive then 0 else live_reservations db),
           qs_dimensions = dims\<rparr>)))"

section \<open>Facts\<close>

lemma period_status_simps [simp]:
  "st_period_key (period_status db fails sp pk) = Some pk"
  "st_dimension_key (period_status db fails sp pk) = ds_key sp"
  "st_threshold_95 (period_status db fails sp pk) = ds_threshold_95 sp"
  by (simp_all add: period_status_def Let_def)

lemma threshold_breached_iff: "threshold_breached th c \<longleftrightarrow> (\<exists>t. th = Some t \<and> 0 < t \<and> of_int t \<le> c)"
  by (auto simp: threshold_breached_def Let_def split: option.splits)

lemma period_status_state:
  "st_state (period_status db fails sp pk) \<noteq> UNKNOWN"
  "st_state (period_status db fails sp pk) = CLOSED \<longleftrightarrow>
     (\<exists>t. ds_threshold_95 sp = Some t \<and> 0 < t \<and> of_int t \<le>
        or_zero (st_used (period_status db fails sp pk))
        + or_zero (st_unobserved_upper_bound (period_status db fails sp pk))
        + or_zero (st_booked (period_status db fails sp pk)))"
  unfolding period_status_def Let_def threshold_breached_iff committed_usage_def
  by (simp_all only: dimension_status.select_convs gate_state.simps if_True if_False split: if_split) auto

lemma period_status_outage:
  "st_used (period_status db (\<lambda>_. True) sp pk) = None"
  "st_unobserved_upper_bound (period_status db (\<lambda>_. True) sp pk) = None"
  "st_booked (period_status db (\<lambda>_. True) sp pk) = None"
  by (simp_all add: period_status_def Let_def catch_null_def)

lemma dimension_status_of_key: "dimension_status_of lp db fails a now k = Inr st \<Longrightarrow> st_dimension_key st = k"
  by (auto simp: dimension_status_of_def unknown_status_def bindE_Inr
      dimensionSpec_iff split: option.splits)

lemma dimension_status_cases:
  assumes "dimension_status_of lp db fails a now k = Inr st"
  shows "(st_state st = UNKNOWN \<and> st_period_key st = None) \<or>
    (\<exists>sp p. dimensionSpec k = Some sp \<and> ds_key sp = k \<and> resolvePeriod lp sp a now = Inr (Some p)
       \<and> st = period_status db fails sp (rp_period_key p))"
  using assms
  by (auto simp: dimension_status_of_def unknown_status_def bindE_Inr dimensionSpec_iff
      split: option.splits)

section \<open>Properties\<close>

text \<open>A dimension is reported CLOSED exactly when its period resolved and the usage that
  could be read (baseline, unobserved tail, bookings) has reached a positive threshold; it is
  UNKNOWN exactly when it has no period key. A missing or unreadable row counts as zero.\<close>

theorem status_closed_iff_breached:
  assumes "dimension_status_of lp db fails anchor now key = Inr st"
  shows "(st_state st = UNKNOWN \<longleftrightarrow> st_period_key st = None)
    \<and> (st_state st = CLOSED \<longleftrightarrow>
        (\<exists>pk t. st_period_key st = Some pk \<and> st_threshold_95 st = Some t \<and> 0 < t
          \<and> of_int t \<le> or_zero (st_used st) + or_zero (st_unobserved_upper_bound st) + or_zero (st_booked st)))"
  using dimension_status_cases [OF assms] by (auto simp: period_status_state)

text \<open>Recording a baseline and reading the status of its dimension in the same period shows
  the recorded usage, and the record changes nothing the status of any other dimension or
  period reads.\<close>

theorem recordBaseline_status:
  assumes "recordBaseline db (ds_key sp) pk row now_iso = Inr db'"
    and "\<not> fails (ReadBaseline (ds_key sp) pk)"
  shows "st_used (period_status db' fails sp pk) = Some (bl_used row)
    \<and> st_unobserved_upper_bound (period_status db' fails sp pk) = Some (bl_unobserved_upper_bound row)
    \<and> (\<forall>sp' pk'. (ds_key sp', pk') \<noteq> (ds_key sp, pk) \<longrightarrow>
         period_status db' fails sp' pk' = period_status db fails sp' pk')"
proof -
  have db': "db' = db\<lparr>qd_baselines := (qd_baselines db)((ds_key sp, pk) \<mapsto> row\<lparr>bl_recorded_at := now_iso\<rparr>)\<rparr>"
    using assms(1) by (simp add: recordBaseline_def split: if_splits)
  have "period_status db' fails sp' pk' = period_status db fails sp' pk'" if "(ds_key sp', pk') \<noteq> (ds_key sp, pk)" for sp' pk'
  proof -
    have "qd_baselines db' (ds_key sp', pk') = qd_baselines db (ds_key sp', pk')" using that by (auto simp: db')
    then show ?thesis unfolding period_status_def readBookedUsage_def reserved_units_def Let_def by (simp add: db')
  qed
  moreover have b: "qd_baselines db' (ds_key sp, pk) = Some (row\<lparr>bl_recorded_at := now_iso\<rparr>)" by (simp add: db')
  have "st_used (period_status db' fails sp pk) = Some (bl_used row)"
    "st_unobserved_upper_bound (period_status db' fails sp pk) = Some (bl_unobserved_upper_bound row)"
    using assms(2) b by (simp_all add: period_status_def Let_def catch_null_def)
  ultimately show ?thesis by blast
qed

text \<open>When nothing can be read (every read fails), no catalog dimension is reported CLOSED:
  an outage of the ledger never closes a gate.\<close>

theorem status_outage_never_closed:
  assumes "dimension_status_of lp db (\<lambda>_. True) anchor now key = Inr st"
  shows "st_state st \<noteq> CLOSED"
  using dimension_status_cases [OF assms]
  by (auto simp: period_status_state period_status_outage or_zero_def)

text \<open>A dimension without an included allowance is never reported CLOSED, however much
  usage the baseline and the bookings show, although the catalog says it admits none.\<close>

theorem status_no_allowance_open:
  assumes "dimension_status_of lp db fails anchor now key = Inr st"
    and "admissionCeiling key = None"
  shows "st_state st \<noteq> CLOSED"
  using dimension_status_cases [OF assms(1)] assms(2)
  by (auto simp: period_status_state admissionCeiling_def)

section \<open>Witnesses\<close>

definition sample_anchor :: account_period where
  "sample_anchor =
     \<lparr>ap_account_id = ''acc'', ap_period_start = ''1970-01-01'', ap_period_end = ''1970-01-05'',
      ap_anchor_kind = SubscriptionRenewal, ap_source = ''s'', ap_source_version = ''v'',
      ap_verified_at = ''1970-01-01''\<rparr>"

definition empty_quota_db :: quota_db where
  "empty_quota_db = \<lparr>qd_periods = Map.empty, qd_baselines = Map.empty, qd_catalog = Map.empty,
     qd_reservation_units = [], qd_booked = Map.empty\<rparr>"

definition sample_row :: baseline_row where
  "sample_row = \<lparr>bl_state = VERIFIED, bl_used = 9499999, bl_unobserved_upper_bound = 1, bl_source = ''s'',
     bl_source_version = ''v'', bl_as_of = ''t'', bl_coverage_end = None, bl_recorded_at = ''r''\<rparr>"

definition sample_quota_db :: quota_db where
  "sample_quota_db = empty_quota_db\<lparr>qd_baselines := [(''kv.reads'', ''cycle:1970-01-01..1970-01-05'') \<mapsto> sample_row]\<rparr>"

lemma sample_dates:
  "date_parse lp ''1970-01-01'' = Some 0" "date_parse lp ''1970-01-05'' = Some 345600000"
proof -
  have "iso_parse ''1970-01-01'' = Some 0" "iso_parse ''1970-01-05'' = Some 345600000"
    by code_simp+
  then show "date_parse lp ''1970-01-01'' = Some 0" "date_parse lp ''1970-01-05'' = Some 345600000"
    by (simp_all add: date_parse_def)
qed

lemma sample_specs:
  "dimensionSpec ''kv.reads'' = Some (spec ''kv.reads'' ''reads'' BillingCycle (Some 10000000) True)"
  "dimensionSpec ''r2.ia_class_a'' = Some (spec ''r2.ia_class_a'' ''IA Class A ops'' BillingCycle None False)"
  by (simp_all add: dimensionSpec_def QUOTA_DIMENSIONS_def)

lemma sample_status:
  "dimension_status_of (\<lambda>_. None) db fails (Some sample_anchor) (Some 5) ''kv.reads'' =
     Inr (period_status db fails (spec ''kv.reads'' ''reads'' BillingCycle (Some 10000000) True)
       ''cycle:1970-01-01..1970-01-05'')"
  "dimension_status_of (\<lambda>_. None) db fails (Some sample_anchor) (Some 5) ''r2.ia_class_a'' =
     Inr (period_status db fails (spec ''r2.ia_class_a'' ''IA Class A ops'' BillingCycle None False)
       ''cycle:1970-01-01..1970-01-05'')"
  by (simp_all add: dimension_status_of_def sample_specs resolvePeriod_def resolve_cycle_def
      isVerifiedAnchor_def sample_anchor_def sample_dates)

theorem status_closed_iff_breached_witness:
  "st_state (period_status sample_quota_db (\<lambda>_. False)
     (spec ''kv.reads'' ''reads'' BillingCycle (Some 10000000) True) ''cycle:1970-01-01..1970-01-05'') = CLOSED"
  using status_closed_iff_breached [OF sample_status(1) [of sample_quota_db "\<lambda>_. False"]]
  by (simp add: period_status_def Let_def sample_quota_db_def sample_row_def catch_null_def or_zero_def
      readBookedUsage_def empty_quota_db_def threshold_breached_def committed_usage_def)

theorem recordBaseline_status_witness:
  "\<exists>db'. recordBaseline empty_quota_db ''kv.reads'' ''p'' sample_row ''now'' = Inr db'
     \<and> st_used (period_status db' (\<lambda>_. False)
          (spec ''kv.reads'' ''reads'' BillingCycle (Some 10000000) True) ''p'') = Some 9499999"
proof -
  obtain db' where r: "recordBaseline empty_quota_db ''kv.reads'' ''p'' sample_row ''now'' = Inr db'"
    by (simp add: recordBaseline_def sample_row_def)
  have "st_used (period_status db' (\<lambda>_. False)
      (spec ''kv.reads'' ''reads'' BillingCycle (Some 10000000) True) ''p'') = Some (bl_used sample_row)"
    using recordBaseline_status [of empty_quota_db
        "spec ''kv.reads'' ''reads'' BillingCycle (Some 10000000) True" "''p''" sample_row "''now''"
        db' "\<lambda>_. False"] r by simp
  with r show ?thesis by (simp add: sample_row_def)
qed

theorem status_outage_never_closed_witness:
  "st_state (period_status sample_quota_db (\<lambda>_. True)
     (spec ''kv.reads'' ''reads'' BillingCycle (Some 10000000) True) ''cycle:1970-01-01..1970-01-05'') \<noteq> CLOSED"
  by (rule status_outage_never_closed [OF sample_status(1)])

theorem status_no_allowance_open_witness:
  "st_state (period_status (empty_quota_db\<lparr>qd_booked := (\<lambda>_. Some 1000)\<rparr>) (\<lambda>_. False)
     (spec ''r2.ia_class_a'' ''IA Class A ops'' BillingCycle None False) ''cycle:1970-01-01..1970-01-05'') \<noteq> CLOSED"
  by (rule status_no_allowance_open [OF sample_status(2)])
    (simp add: admissionCeiling_def sample_specs)

end
