(* ===== verification/Quota_Observers.thy ===== *)
theory Quota_Observers
  imports Quota_Dimensions
begin

text \<open>
  \<open>src/src/quota-resource-adapters.ts\<close>: the per-request usage observer and the wrappers that
  feed it from D1, R2, Workers AI and Vectorize calls. The observer is the list of its totals
  in the insertion order of the code's Map. A wrapped call is modelled by its outcome: the
  error it raised (\<^term>\<open>Inl\<close>) or the result. \<open>Number(x)\<close> on strings and objects is the
  parameter \<open>conv\<close>.
\<close>

section \<open>The observer\<close>

type_synonym observer = "(string \<times> rat) list"

text \<open>\<open>Map.set\<close> keeps the place of an existing key and appends a new one.\<close>

fun map_set :: "string \<Rightarrow> rat \<Rightarrow> observer \<Rightarrow> observer" where
  "map_set k v [] = [(k, v)]"
| "map_set k v ((k', v') # xs) = (if k = k' then (k, v) # xs else (k', v') # map_set k v xs)"

definition observed_total :: "observer \<Rightarrow> string \<Rightarrow> rat" where
  "observed_total obs k = (case map_of obs k of Some v \<Rightarrow> v | None \<Rightarrow> 0)"

definition observer_record :: "string \<Rightarrow> jsnum \<Rightarrow> observer \<Rightarrow> observer" where
  "observer_record k units obs =
     (case units of
        Fin u \<Rightarrow> if u \<le> 0 then obs else map_set k (observed_total obs k + u) obs
      | _ \<Rightarrow> obs)"

definition observer_totals :: "observer \<Rightarrow> (string \<times> rat) list" where
  "observer_totals obs = obs"

section \<open>D1\<close>

definition to_number :: "(jsval \<Rightarrow> jsnum) \<Rightarrow> jsval option \<Rightarrow> jsnum" where
  "to_number conv v =
     (case v of None \<Rightarrow> NaN
      | Some x \<Rightarrow> (case x of JNull \<Rightarrow> Fin 0 | JBool b \<Rightarrow> Fin (if b then 1 else 0) | JNum n \<Rightarrow> n
          | _ \<Rightarrow> conv x))"

text \<open>\<open>record?.key\<close> on a value that may be undefined, null or a primitive: the property is then
  undefined, a NaN as a number, and nothing is recorded.\<close>

definition meta_props :: "jsval option \<Rightarrow> jsobj option" where
  "meta_props meta = (case meta of Some (JObj ob) \<Rightarrow> Some ob | _ \<Rightarrow> None)"

definition recordMeta :: "(jsval \<Rightarrow> jsnum) \<Rightarrow> jsval option \<Rightarrow> observer \<Rightarrow> observer" where
  "recordMeta conv meta obs =
     (case meta_props meta of None \<Rightarrow> obs
      | Some ob \<Rightarrow>
          observer_record ''d1.rows_written'' (to_number conv (fld ob ''rows_written''))
            (observer_record ''d1.rows_read'' (to_number conv (fld ob ''rows_read'')) obs))"

record d1_result =
  dr_results :: "jsobj list option"
  dr_meta :: "jsval option"

text \<open>The projection of \<open>first(column?)\<close> from the rows of \<open>all()\<close>: the first row or null, or
  its column (null when missing).\<close>

definition first_of_rows :: "string option \<Rightarrow> jsobj list \<Rightarrow> jsval" where
  "first_of_rows col rows =
     (case rows of [] \<Rightarrow> JNull
      | row # _ \<Rightarrow> (case col of None \<Rightarrow> JObj row
          | Some c \<Rightarrow> (case fld row c of Some v \<Rightarrow> v | None \<Rightarrow> JNull)))"

text \<open>The wrapped \<open>first\<close>: one \<open>all()\<close> whose meta is observed; when it raises, the native
  \<open>first()\<close> answers.\<close>

definition observed_first ::
  "(jsval \<Rightarrow> jsnum) \<Rightarrow> string option \<Rightarrow> 'e + d1_result \<Rightarrow> 'e + jsval \<Rightarrow> observer
     \<Rightarrow> observer \<times> ('e + jsval)" where
  "observed_first conv col all_outcome first_outcome obs =
     (case all_outcome of
        Inr r \<Rightarrow> (recordMeta conv (dr_meta r) obs,
                 Inr (first_of_rows col (case dr_results r of Some rs \<Rightarrow> rs | None \<Rightarrow> [])))
      | Inl _ \<Rightarrow> (obs, first_outcome))"

text \<open>The wrapped \<open>run\<close>, \<open>all\<close> and \<open>raw\<close>.\<close>

definition observed_run ::
  "(jsval \<Rightarrow> jsnum) \<Rightarrow> 'e + d1_result \<Rightarrow> observer \<Rightarrow> observer \<times> ('e + d1_result)" where
  "observed_run conv outcome obs =
     (case outcome of Inr r \<Rightarrow> (recordMeta conv (dr_meta r) obs, outcome) | Inl _ \<Rightarrow> (obs, outcome))"

definition observed_batch ::
  "(jsval \<Rightarrow> jsnum) \<Rightarrow> 'e + d1_result list \<Rightarrow> observer \<Rightarrow> observer \<times> ('e + d1_result list)" where
  "observed_batch conv outcome obs =
     (case outcome of
        Inr rs \<Rightarrow> (foldl (\<lambda>ob r. recordMeta conv (dr_meta r) ob) obs rs, outcome)
      | Inl _ \<Rightarrow> (obs, outcome))"

section \<open>R2\<close>

datatype r2_operation = R2Put | R2Get | R2Head | R2List | R2Delete

fun r2_class :: "r2_operation \<Rightarrow> string option" where
  "r2_class R2Put = Some ''r2.class_a''"
| "r2_class R2Get = Some ''r2.class_b''"
| "r2_class R2Head = Some ''r2.class_b''"
| "r2_class R2List = Some ''r2.class_a''"
| "r2_class R2Delete = None"

definition observed_r2 :: "r2_operation \<Rightarrow> 'e + 'a \<Rightarrow> observer \<Rightarrow> observer \<times> ('e + 'a)" where
  "observed_r2 operation outcome obs =
     (case outcome of
        Inl _ \<Rightarrow> (obs, outcome)
      | Inr _ \<Rightarrow> ((case r2_class operation of None \<Rightarrow> obs
                  | Some d \<Rightarrow> observer_record d (Fin 1) obs), outcome))"

section \<open>Workers AI and Vectorize\<close>

definition estimateEmbeddingNeurons :: "jsval option list \<Rightarrow> rat" where
  "estimateEmbeddingNeurons texts =
     (let chars = foldl (\<lambda>total t. total + (case as_string t of Some s \<Rightarrow> int (length s) | None \<Rightarrow> 0)) 0 texts;
          tokens = max 1 \<lceil>of_int chars / (2 :: rat)\<rceil>
      in (of_int tokens * 1075) / 1000000)"

text \<open>\<open>s.includes(t)\<close>\<close>

fun str_includes :: "string \<Rightarrow> string \<Rightarrow> bool" where
  "str_includes [] t = (t = [])"
| "str_includes (c # cs) t = (take (length t) (c # cs) = t \<or> str_includes cs t)"

definition reported_tokens :: "(jsval \<Rightarrow> jsnum) \<Rightarrow> jsval \<Rightarrow> jsnum" where
  "reported_tokens conv result =
     (case result of
        JObj r \<Rightarrow> (case fld r ''usage'' of Some (JObj u) \<Rightarrow> to_number conv (fld u ''tokens'') | _ \<Rightarrow> NaN)
      | _ \<Rightarrow> NaN)"

definition embedding_neurons :: "(jsval \<Rightarrow> jsnum) \<Rightarrow> jsval option \<Rightarrow> jsval \<Rightarrow> rat" where
  "embedding_neurons conv input result =
     (case reported_tokens conv result of
        Fin q \<Rightarrow> (q * 1075) / 1000000
      | _ \<Rightarrow> estimateEmbeddingNeurons
               (case input of Some (JArr xs) \<Rightarrow> map Some xs | _ \<Rightarrow> [input]))"

text \<open>A wrapped AI call: \<open>input\<close> is the \<open>text\<close> property of the second argument.\<close>

definition observed_ai ::
  "(jsval \<Rightarrow> jsnum) \<Rightarrow> string \<Rightarrow> jsval option \<Rightarrow> 'e + jsval \<Rightarrow> observer \<Rightarrow> observer \<times> ('e + jsval)" where
  "observed_ai conv model input outcome obs =
     (case outcome of
        Inl _ \<Rightarrow> (obs, outcome)
      | Inr result \<Rightarrow>
          (if str_includes model ''bge'' \<and> embedding_neurons conv input result > 0
           then observer_record ''ai.neurons'' (Fin (embedding_neurons conv input result)) obs
           else obs, outcome))"

definition observed_vectorize_query ::
  "rat \<Rightarrow> 'e + 'a \<Rightarrow> observer \<Rightarrow> observer \<times> ('e + 'a)" where
  "observed_vectorize_query dimensions outcome obs =
     (case outcome of
        Inl _ \<Rightarrow> (obs, outcome)
      | Inr _ \<Rightarrow> (if dimensions > 0 then observer_record ''vectorize.queried_dims'' (Fin dimensions) obs
                 else obs, outcome))"

section \<open>Facts\<close>

text \<open>The amount a recording adds: finite positive units only.\<close>

definition counted :: "jsnum \<Rightarrow> rat" where
  "counted u = (case u of Fin q \<Rightarrow> if q \<le> 0 then 0 else q | _ \<Rightarrow> 0)"

definition observer_ok :: "observer \<Rightarrow> bool" where
  "observer_ok obs \<longleftrightarrow> distinct (map fst obs) \<and> (\<forall>(k, v) \<in> set obs. 0 < v)"

lemma map_of_map_set: "map_of (map_set k v obs) = (map_of obs)(k \<mapsto> v)"
  by (induction k v obs rule: map_set.induct) auto

lemma fst_map_set: "fst ` set (map_set k v obs) = insert k (fst ` set obs)"
  by (induction k v obs rule: map_set.induct) auto

lemma map_set_ok: "observer_ok obs \<Longrightarrow> 0 < v \<Longrightarrow> observer_ok (map_set k v obs)"
proof (induction k v obs rule: map_set.induct)
  case (2 k v k' v' xs)
  then show ?case
    using fst_map_set [of k v xs] by (auto simp: observer_ok_def image_iff)
qed (simp add: observer_ok_def)

lemma observed_total_nonneg: "observer_ok obs \<Longrightarrow> 0 \<le> observed_total obs k"
  by (force simp: observed_total_def observer_ok_def split: option.splits dest!: map_of_SomeD)

lemma counted_nonneg [simp]: "0 \<le> counted u"
  by (simp add: counted_def split: jsnum.splits)

lemma observer_record_total:
  "observed_total (observer_record k u obs) j = observed_total obs j + (if j = k then counted u else 0)"
  by (auto simp: observer_record_def observed_total_def counted_def map_of_map_set
      split: jsnum.splits option.splits)

lemma observer_record_ok: "observer_ok obs \<Longrightarrow> observer_ok (observer_record k u obs)"
  using observed_total_nonneg [of obs k]
  by (auto simp: observer_record_def split: jsnum.splits intro: map_set_ok)

lemma recordMeta_ok: "observer_ok obs \<Longrightarrow> observer_ok (recordMeta conv m obs)"
  by (auto simp: recordMeta_def intro: observer_record_ok split: option.splits)

lemma recordMeta_grows: "observed_total obs k \<le> observed_total (recordMeta conv m obs) k"
  by (auto simp: recordMeta_def observer_record_total split: option.splits)

section \<open>Properties\<close>

text \<open>After any sequence of recordings the total of a dimension is the sum of the finite
  positive units recorded for it, every reported total is positive, and no dimension is
  reported twice.\<close>

theorem observer_totals_sum:
  "observed_total (observer_totals (fold (\<lambda>(k, u). observer_record k u) rs [])) d
     = sum_list (map (\<lambda>(k, u). if k = d then counted u else 0) rs)
   \<and> observer_ok (observer_totals (fold (\<lambda>(k, u). observer_record k u) rs []))"
proof -
  have "observed_total (fold (\<lambda>(k, u). observer_record k u) rs obs) d
      = observed_total obs d + sum_list (map (\<lambda>(k, u). if k = d then counted u else 0) rs)
    \<and> (observer_ok obs \<longrightarrow> observer_ok (fold (\<lambda>(k, u). observer_record k u) rs obs))" for obs
  proof (induction rs arbitrary: obs)
    case Nil
    then show ?case by simp
  next
    case (Cons r rs)
    obtain k u where r: "r = (k, u)" by (cases r)
    show ?case
      using Cons.IH [of "observer_record k u obs"]
      by (auto simp: r observer_record_total observer_record_ok)
  qed
  from this [of "[]"] show ?thesis
    by (simp add: observed_total_def observer_totals_def observer_ok_def)
qed

text \<open>The wrapped \<open>first\<close> never changes the business outcome: when the driver's \<open>first\<close> is
  the projection of the rows of its \<open>all\<close> (its documented meaning), the wrapper answers what
  the native call answers, on success and on failure, and it only ever adds to the observer.\<close>

theorem observed_first_transparent:
  assumes "\<And>r. all_outcome = Inr r \<Longrightarrow>
    first_outcome = Inr (first_of_rows col (case dr_results r of Some rs \<Rightarrow> rs | None \<Rightarrow> []))"
  shows "snd (observed_first conv col all_outcome first_outcome obs) = first_outcome
    \<and> observed_total obs k \<le> observed_total (fst (observed_first conv col all_outcome first_outcome obs)) k"
  using assms by (cases all_outcome) (auto simp: observed_first_def recordMeta_grows)

theorem observed_first_transparent_witness:
  "snd (observed_first (\<lambda>_. NaN) (Some ''n'')
      (Inr \<lparr>dr_results = Some [[(''n'', JInt 7)]], dr_meta = Some (JObj [(''rows_read'', JInt 4)])\<rparr>)
      (Inr (JInt 7) :: string + jsval) []) = Inr (JInt 7)
   \<and> observed_total [] ''d1.rows_read'' \<le> observed_total (fst (observed_first (\<lambda>_. NaN) (Some ''n'')
      (Inr \<lparr>dr_results = Some [[(''n'', JInt 7)]], dr_meta = Some (JObj [(''rows_read'', JInt 4)])\<rparr>)
      (Inr (JInt 7) :: string + jsval) [])) ''d1.rows_read''"
  by (rule observed_first_transparent) (auto simp: first_of_rows_def)

text \<open>The estimate of an embedding call is never zero and never below half a token per
  character, so an unreported call is always counted.\<close>

theorem estimateEmbeddingNeurons_positive:
  "1075 / 1000000 \<le> estimateEmbeddingNeurons texts
   \<and> of_nat (sum_list (map (\<lambda>t. case as_string t of Some s \<Rightarrow> length s | None \<Rightarrow> 0) texts)) / 2
       * 1075 / 1000000 \<le> estimateEmbeddingNeurons texts"
proof -
  define n where "n = sum_list (map (\<lambda>t. case as_string t of Some s \<Rightarrow> length s | None \<Rightarrow> 0) texts)"
  have "foldl (\<lambda>total t. total + (case as_string t of Some s \<Rightarrow> int (length s) | None \<Rightarrow> 0)) a texts
      = a + int (sum_list (map (\<lambda>t. case as_string t of Some s \<Rightarrow> length s | None \<Rightarrow> 0) texts))" for a
    by (induction texts arbitrary: a) (auto split: option.splits)
  then have e: "estimateEmbeddingNeurons texts = of_int (max 1 \<lceil>of_nat n / (2 :: rat)\<rceil>) * 1075 / 1000000"
    by (simp add: estimateEmbeddingNeurons_def Let_def n_def)
  have "of_nat n / 2 \<le> (of_int (max 1 \<lceil>of_nat n / (2 :: rat)\<rceil>) :: rat)"
    by (rule order_trans [OF le_of_int_ceiling]) simp
  moreover have "1 \<le> (of_int (max 1 \<lceil>of_nat n / (2 :: rat)\<rceil>) :: rat)" by simp
  ultimately show ?thesis unfolding e n_def [symmetric]
    by (intro conjI divide_right_mono mult_right_mono) (auto simp: divide_right_mono)
qed

end
