(* ===== verification/Quota_Metering.thy ===== *)
theory Quota_Metering
  imports Quota_Observers
begin

text \<open>
  \<open>src/src/quota-metering.ts\<close>: the hourly per-client usage aggregate and the one surviving gate,
  the circuit refusal of the semantic search. The tables are maps by primary key; a database
  that cannot be read is the \<^term>\<open>Inl\<close> of the read.
\<close>

definition QUOTA_CLIENT_UNATTRIBUTED :: string where
  "QUOTA_CLIENT_UNATTRIBUTED = ''unattributed''"

definition SEMANTIC_SEARCH_CIRCUIT_DIMENSIONS :: "string list" where
  "SEMANTIC_SEARCH_CIRCUIT_DIMENSIONS = [''ai.neurons'', ''vectorize.queried_dims'']"

definition quotaPeriodHour :: "int \<Rightarrow> string" where
  "quotaPeriodHour now = take 13 (to_iso now) @ '':00:00Z''"

definition sumDimension :: "(string \<times> rat) list \<Rightarrow> string \<Rightarrow> rat" where
  "sumDimension observed key = foldl (\<lambda>total (k, u). if k = key then total + u else total) 0 observed"

record usage_row =
  ur_call_count :: nat
  ur_d1_rows_read :: rat
  ur_d1_rows_written :: rat
  ur_ai_neurons :: rat
  ur_vectorize_queries :: rat
  ur_created_at :: string
  ur_updated_at :: string

type_synonym usage_table = "string \<times> string \<times> string \<rightharpoonup> usage_row"

record client_usage =
  cu_route :: string
  cu_client_id :: string
  cu_observed :: "(string \<times> rat) list"
  cu_now :: int

definition usage_key :: "client_usage \<Rightarrow> string \<times> string \<times> string" where
  "usage_key inp = (quotaPeriodHour (cu_now inp), cu_client_id inp, cu_route inp)"

text \<open>The values of the INSERT: one call and the measured totals.\<close>

definition usage_delta :: "client_usage \<Rightarrow> usage_row" where
  "usage_delta inp =
     \<lparr>ur_call_count = 1,
      ur_d1_rows_read = sumDimension (cu_observed inp) ''d1.rows_read'',
      ur_d1_rows_written = sumDimension (cu_observed inp) ''d1.rows_written'',
      ur_ai_neurons = sumDimension (cu_observed inp) ''ai.neurons'',
      ur_vectorize_queries = sumDimension (cu_observed inp) ''vectorize.queried_dims'' / 1024,
      ur_created_at = to_iso (cu_now inp), ur_updated_at = to_iso (cu_now inp)\<rparr>"

text \<open>ON CONFLICT DO UPDATE: counters add up, the creation time stays.\<close>

definition usage_merge :: "usage_row \<Rightarrow> usage_row \<Rightarrow> usage_row" where
  "usage_merge old d =
     old\<lparr>ur_call_count := ur_call_count old + 1,
         ur_d1_rows_read := ur_d1_rows_read old + ur_d1_rows_read d,
         ur_d1_rows_written := ur_d1_rows_written old + ur_d1_rows_written d,
         ur_ai_neurons := ur_ai_neurons old + ur_ai_neurons d,
         ur_vectorize_queries := ur_vectorize_queries old + ur_vectorize_queries d,
         ur_updated_at := ur_updated_at d\<rparr>"

definition recordClientUsage :: "usage_table \<Rightarrow> client_usage \<Rightarrow> usage_table" where
  "recordClientUsage tab inp =
     tab(usage_key inp \<mapsto> (case tab (usage_key inp) of None \<Rightarrow> usage_delta inp
                          | Some old \<Rightarrow> usage_merge old (usage_delta inp)))"

section \<open>The circuit gate\<close>

datatype circuit_state = CircuitClosed | CircuitOpen

record circuit_db_row =
  cd_dimension_key :: string
  cd_state :: string
  cd_current_usage :: rat
  cd_threshold_95 :: rat
  cd_as_of :: string

record circuit_row =
  cc_dimension_key :: string
  cc_state :: circuit_state
  cc_current_usage :: rat
  cc_threshold_95 :: rat
  cc_as_of :: string

definition circuit_row_of :: "circuit_db_row \<Rightarrow> circuit_row" where
  "circuit_row_of r =
     \<lparr>cc_dimension_key = cd_dimension_key r,
      cc_state = (if cd_state r = ''OPEN'' then CircuitOpen else CircuitClosed),
      cc_current_usage = cd_current_usage r, cc_threshold_95 = cd_threshold_95 r,
      cc_as_of = cd_as_of r\<rparr>"

definition readCircuitStates ::
  "(string + circuit_db_row list) \<Rightarrow> string list \<Rightarrow> string + circuit_row list" where
  "readCircuitStates table dimensionKeys =
     bindE table (\<lambda>rows. Inr (map circuit_row_of
       (filter (\<lambda>r. cd_dimension_key r \<in> set dimensionKeys) rows)))"

record circuit_refusal =
  rf_error_code :: string
  rf_retryable :: bool
  rf_request_id :: string
  rf_open_dimensions :: "(string \<times> rat \<times> rat \<times> string) list"
  rf_message :: string

text \<open>\<open>db\<close> is absent when the binding is missing; \<open>request_id\<close> is the random identifier.\<close>

definition semanticSearchCircuitRefusal ::
  "string \<Rightarrow> (string + circuit_db_row list) option \<Rightarrow> circuit_refusal option" where
  "semanticSearchCircuitRefusal request_id db =
     (case db of None \<Rightarrow> None
      | Some table \<Rightarrow>
     (case readCircuitStates table SEMANTIC_SEARCH_CIRCUIT_DIMENSIONS of
        Inl _ \<Rightarrow> None
      | Inr rows \<Rightarrow>
          (let open' = filter (\<lambda>r. cc_state r = CircuitOpen) rows
           in if length open' = 0 then None
              else Some \<lparr>rf_error_code = ''QUOTA_CIRCUIT_OPEN'', rf_retryable = False,
                rf_request_id = request_id,
                rf_open_dimensions = map (\<lambda>r. (cc_dimension_key r, cc_current_usage r,
                   cc_threshold_95 r, cc_as_of r)) open',
                rf_message = ''the 12h official-meter reconcile marked a guarded resource dimension OPEN; search_documents_semantic is paused until the circuit closes''\<rparr>)))"

section \<open>Facts\<close>

lemma sumDimension_sum:
  "sumDimension observed key = sum_list (map (\<lambda>(k, u). if k = key then u else 0) observed)"
proof -
  have "foldl (\<lambda>total (k, u). if k = key then total + u else total) a observed
      = a + sum_list (map (\<lambda>(k, u). if k = key then u else 0) observed)" for a :: rat
    by (induction observed arbitrary: a) auto
  from this [of 0] show ?thesis by (simp add: sumDimension_def)
qed

text \<open>The requests of a reqs that belong to a key.\<close>

definition for_key :: "string \<times> string \<times> string \<Rightarrow> client_usage list \<Rightarrow> client_usage list" where
  "for_key k reqs = filter (\<lambda>i. usage_key i = k) reqs"

lemma recordClientUsage_other: "k \<noteq> usage_key inp \<Longrightarrow> recordClientUsage tab inp k = tab k"
  by (simp add: recordClientUsage_def)

lemma recordClientUsage_same:
  "recordClientUsage tab inp (usage_key inp) =
     Some (case tab (usage_key inp) of None \<Rightarrow> usage_delta inp
           | Some old \<Rightarrow> usage_merge old (usage_delta inp))"
  by (simp add: recordClientUsage_def)

section \<open>Properties\<close>

text \<open>After any log of requests, starting from an empty table, the row of an hour, client
  and route exists exactly when a request of that key occurred, its call count is the number of
  those requests and every counter is the sum of their measured totals: hours, clients and
  routes never mix.\<close>

theorem recordClientUsage_aggregates:
  "case foldl recordClientUsage Map.empty reqs k of
     None \<Rightarrow> for_key k reqs = []
   | Some row \<Rightarrow> for_key k reqs \<noteq> []
      \<and> ur_call_count row = length (for_key k reqs)
      \<and> ur_d1_rows_read row = sum_list (map (\<lambda>i. sumDimension (cu_observed i) ''d1.rows_read'') (for_key k reqs))
      \<and> ur_d1_rows_written row = sum_list (map (\<lambda>i. sumDimension (cu_observed i) ''d1.rows_written'') (for_key k reqs))
      \<and> ur_ai_neurons row = sum_list (map (\<lambda>i. sumDimension (cu_observed i) ''ai.neurons'') (for_key k reqs))
      \<and> ur_vectorize_queries row = sum_list (map (\<lambda>i. sumDimension (cu_observed i) ''vectorize.queried_dims'' / 1024) (for_key k reqs))
      \<and> ur_created_at row = to_iso (cu_now (hd (for_key k reqs)))
      \<and> ur_updated_at row = to_iso (cu_now (last (for_key k reqs)))"
proof (induction reqs rule: rev_induct)
  case Nil
  then show ?case by (simp add: for_key_def)
next
  case (snoc i reqs)
  show ?case
  proof (cases "usage_key i = k")
    case False
    then have f: "for_key k (reqs @ [i]) = for_key k reqs" by (simp add: for_key_def)
    show ?thesis using snoc False unfolding f by (simp add: recordClientUsage_other)
  next
    case True
    have f: "for_key (usage_key i) (reqs @ [i]) = for_key (usage_key i) reqs @ [i]"
      by (simp add: for_key_def)
    show ?thesis using snoc unfolding True [symmetric] unfolding f
      by (cases "foldl recordClientUsage Map.empty reqs (usage_key i)")
        (auto simp: recordClientUsage_same usage_delta_def usage_merge_def)
  qed
qed

text \<open>The semantic search is refused exactly when the circuit table can be read and holds
  an OPEN row of one of the two guarded dimensions; a missing binding or a failed read never
  refuses, and a refusal lists precisely the open guarded rows.\<close>

theorem semanticSearchCircuitRefusal_iff:
  "(semanticSearchCircuitRefusal rid db \<noteq> None \<longleftrightarrow>
     (\<exists>rows. db = Some (Inr rows) \<and> (\<exists>r \<in> set rows. cd_state r = ''OPEN''
        \<and> (cd_dimension_key r = ''ai.neurons'' \<or> cd_dimension_key r = ''vectorize.queried_dims''))))
   \<and> (case semanticSearchCircuitRefusal rid db of None \<Rightarrow> True
      | Some refusal \<Rightarrow> (\<exists>rows. db = Some (Inr rows) \<and> rf_open_dimensions refusal =
          map (\<lambda>r. (cd_dimension_key r, cd_current_usage r, cd_threshold_95 r, cd_as_of r))
            (filter (\<lambda>r. cd_state r = ''OPEN'' \<and> cd_dimension_key r \<in> {''ai.neurons'', ''vectorize.queried_dims''}) rows)))"
proof (cases db)
  case None
  then show ?thesis by (simp add: semanticSearchCircuitRefusal_def)
next
  case (Some t)
  show ?thesis
  proof (cases t)
    case (Inl e)
    then show ?thesis by (simp add: Some semanticSearchCircuitRefusal_def readCircuitStates_def)
  next
    case (Inr rows)
    define g where "g = filter (\<lambda>r. cd_state r = ''OPEN'' \<and> cd_dimension_key r \<in> {''ai.neurons'', ''vectorize.queried_dims''}) rows"
    have o: "filter (\<lambda>r. cc_state r = CircuitOpen) (map circuit_row_of
        (filter (\<lambda>r. cd_dimension_key r \<in> {''ai.neurons'', ''vectorize.queried_dims''}) rows))
      = map circuit_row_of g"
      unfolding g_def by (induction rows) (auto simp: circuit_row_of_def)
    have r: "readCircuitStates t SEMANTIC_SEARCH_CIRCUIT_DIMENSIONS = Inr (map circuit_row_of
        (filter (\<lambda>r. cd_dimension_key r \<in> {''ai.neurons'', ''vectorize.queried_dims''}) rows))"
      by (simp add: Inr readCircuitStates_def SEMANTIC_SEARCH_CIRCUIT_DIMENSIONS_def)
    have s: "semanticSearchCircuitRefusal rid db = None \<longleftrightarrow> g = []"
      "semanticSearchCircuitRefusal rid db = Some r' \<Longrightarrow> rf_open_dimensions r' =
         map (\<lambda>r. (cd_dimension_key r, cd_current_usage r, cd_threshold_95 r, cd_as_of r)) g" for r'
      unfolding Some semanticSearchCircuitRefusal_def option.case r sum.case o Let_def
      by (auto simp: circuit_row_of_def split: if_splits)
    have "g \<noteq> [] \<longleftrightarrow> (\<exists>r \<in> set rows. cd_state r = ''OPEN''
        \<and> (cd_dimension_key r = ''ai.neurons'' \<or> cd_dimension_key r = ''vectorize.queried_dims''))"
      unfolding g_def by (auto simp: filter_empty_conv)
    with s show ?thesis
      unfolding g_def Some Inr by (auto split: option.splits)
  qed
qed

end
