(* ===== verification/Kv_Store.thy ===== *)
theory Kv_Store
  imports Js_Date
begin

text \<open>
  The interface between the documents kept in the PORTFOLIO_UNIVERSE KV and their readers:
  a document is written after a full validation and read back with the same validation. The
  locale states what a reader relies on; the portfolio status, the live universe, the complete
  baseline and the delta interpret it.
\<close>

text \<open>\<open>assertExactKeys\<close>: no key outside the allowed ones, and none of them missing.\<close>

definition assertExactKeys :: "jsobj \<Rightarrow> string list \<Rightarrow> string \<Rightarrow> unit result" where
  "assertExactKeys ob allowed context' =
     (case find (\<lambda>k. k \<notin> set allowed) (map fst ob) of
        Some k \<Rightarrow> Inl (context' @ ''.'' @ k @ '' is not allowed'')
      | None \<Rightarrow>
     (case find (\<lambda>k. \<not> has_key ob k) allowed of
        Some k \<Rightarrow> Inl (context' @ ''.'' @ k @ '' is required'')
      | None \<Rightarrow> Inr ()))"

lemma assertExactKeys_ok:
  "assertExactKeys ob allowed c = Inr u \<longleftrightarrow> fst ` set ob = set allowed"
  by (force simp: assertExactKeys_def find_None_iff has_key_def map_of_eq_None_iff
      split: option.splits dest: find_Some_iff [THEN iffD1])

locale kv_document =
  fixes put_doc :: "kv \<Rightarrow> jsval \<Rightarrow> 'p \<Rightarrow> (kv \<times> 'a) result"
    and get_doc :: "kv \<Rightarrow> 'a option result"
    and doc_key :: string
  assumes read_write: "put_doc kv v p = Inr (kv', a) \<Longrightarrow> get_doc kv' = Inr (Some a)"
    and write_frame: "put_doc kv v p = Inr (kv', a) \<Longrightarrow> k \<noteq> doc_key \<Longrightarrow> kv' k = kv k"
    and read_local: "kv doc_key = kv' doc_key \<Longrightarrow> get_doc kv = get_doc kv'"
begin

text \<open>A run of write attempts: a rejected one leaves the store as it is.\<close>

fun run :: "kv \<Rightarrow> (jsval \<times> 'p) list \<Rightarrow> kv" where
  "run kv [] = kv"
| "run kv ((v, p) # ws) = run (case put_doc kv v p of Inl _ \<Rightarrow> kv | Inr (kv', _) \<Rightarrow> kv') ws"

fun last_accepted :: "kv \<Rightarrow> 'a option \<Rightarrow> (jsval \<times> 'p) list \<Rightarrow> 'a option" where
  "last_accepted kv acc [] = acc"
| "last_accepted kv acc ((v, p) # ws) =
     (case put_doc kv v p of Inl _ \<Rightarrow> last_accepted kv acc ws
      | Inr (kv', a) \<Rightarrow> last_accepted kv' (Some a) ws)"

lemma read_run:
  "get_doc kv = Inr acc \<Longrightarrow> get_doc (run kv ws) = Inr (last_accepted kv acc ws)"
proof (induction ws arbitrary: kv acc)
  case (Cons w ws)
  obtain v p where w: "w = (v, p)" by (cases w)
  show ?case
  proof (cases "put_doc kv v p")
    case (Inl e)
    then show ?thesis using Cons by (simp add: w)
  next
    case (Inr r)
    obtain kv' a where r: "r = (kv', a)" by (cases r)
    then have "get_doc kv' = Inr (Some a)" using Inr by (simp add: read_write)
    then show ?thesis using Cons.IH [of kv' "Some a"] Inr by (simp add: w r)
  qed
qed simp

lemma run_frame: "k \<noteq> doc_key \<Longrightarrow> run kv ws k = kv k"
proof (induction ws arbitrary: kv)
  case (Cons w ws)
  obtain v p where w: "w = (v, p)" by (cases w)
  show ?case
    using Cons write_frame [of kv v p _ _ k]
    by (auto simp: w split: sum.splits)
qed simp

end

end
