(* ===== verification/Portfolio_Status.thy ===== *)
theory Portfolio_Status
  imports Kv_Store
begin

text \<open>
  \<open>src/src/portfolio-status.ts\<close>: the \<open>portfolio-status/1\<close> document (validation, storage), the
  derivation of the three portfolio states from the age of the last real complete confirmation
  (LRCCA), the conservative order on the states, and the presentation decision for consumers.
\<close>

section \<open>States\<close>

datatype portfolio_state = LIVE_COMPLETE | LKG_VALID | PORTFOLIO_UNKNOWN

fun CONSERVATISM :: "portfolio_state \<Rightarrow> nat" where
  "CONSERVATISM LIVE_COMPLETE = 0"
| "CONSERVATISM LKG_VALID = 1"
| "CONSERVATISM PORTFOLIO_UNKNOWN = 2"

text \<open>The conservative order as a linear order: larger is more conservative.\<close>

instantiation portfolio_state :: linorder
begin

definition less_eq_portfolio_state :: "portfolio_state \<Rightarrow> portfolio_state \<Rightarrow> bool" where
  "less_eq_portfolio_state a b \<longleftrightarrow> CONSERVATISM a \<le> CONSERVATISM b"

definition less_portfolio_state :: "portfolio_state \<Rightarrow> portfolio_state \<Rightarrow> bool" where
  "less_portfolio_state a b \<longleftrightarrow> CONSERVATISM a < CONSERVATISM b"

instance
proof
  fix x y z :: portfolio_state
  show "x < y \<longleftrightarrow> x \<le> y \<and> \<not> y \<le> x"
    by (auto simp: less_eq_portfolio_state_def less_portfolio_state_def)
  show "x \<le> x" by (simp add: less_eq_portfolio_state_def)
  show "x \<le> y \<Longrightarrow> y \<le> z \<Longrightarrow> x \<le> z" by (simp add: less_eq_portfolio_state_def)
  show "x \<le> y \<Longrightarrow> y \<le> x \<Longrightarrow> x = y"
    by (cases x; cases y) (simp_all add: less_eq_portfolio_state_def)
  show "x \<le> y \<or> y \<le> x" by (auto simp: less_eq_portfolio_state_def)
qed

end

lemma state_order [simp]:
  "LIVE_COMPLETE \<le> s" "s \<le> PORTFOLIO_UNKNOWN" "LKG_VALID \<le> s \<longleftrightarrow> s \<noteq> LIVE_COMPLETE"
  "PORTFOLIO_UNKNOWN \<le> s \<longleftrightarrow> s = PORTFOLIO_UNKNOWN" "s \<le> LIVE_COMPLETE \<longleftrightarrow> s = LIVE_COMPLETE"
  by (cases s; simp add: less_eq_portfolio_state_def)+

definition state_name :: "portfolio_state \<Rightarrow> string" where
  "state_name s = (case s of LIVE_COMPLETE \<Rightarrow> ''LIVE_COMPLETE'' | LKG_VALID \<Rightarrow> ''LKG_VALID''
     | PORTFOLIO_UNKNOWN \<Rightarrow> ''PORTFOLIO_UNKNOWN'')"

definition state_of_name :: "string \<Rightarrow> portfolio_state option" where
  "state_of_name n = find (\<lambda>s. state_name s = n) [LIVE_COMPLETE, LKG_VALID, PORTFOLIO_UNKNOWN]"

lemma state_of_name_name [simp]: "state_of_name (state_name s) = Some s"
  by (cases s) (simp_all add: state_of_name_def state_name_def)

lemma state_of_name_Some: "state_of_name n = Some s \<longleftrightarrow> n = state_name s"
proof
  assume "state_of_name n = Some s"
  then show "n = state_name s"
    by (auto simp: state_of_name_def split: if_split_asm)
qed simp

lemma state_name_inj [simp]: "state_name a = state_name b \<longleftrightarrow> a = b"
  by (metis option.inject state_of_name_name)

section \<open>The status document\<close>

definition LIVE_COMPLETE_MAX_AGE_SECONDS :: rat where
  "LIVE_COMPLETE_MAX_AGE_SECONDS = 24 * 60 * 60"

definition LKG_VALID_MAX_AGE_SECONDS :: rat where
  "LKG_VALID_MAX_AGE_SECONDS = 10 * 24 * 60 * 60"

definition FUTURE_TOLERANCE_SECONDS :: rat where
  "FUTURE_TOLERANCE_SECONDS = 300"

definition PORTFOLIO_STATUS_KV_KEY :: string where
  "PORTFOLIO_STATUS_KV_KEY = ''live-portfolio/status''"

definition TOP_LEVEL_KEYS :: "string list" where
  "TOP_LEVEL_KEYS = [''schema_version'', ''generated_at'', ''state'', ''last_real_complete_confirmed_at'',
     ''universe_content_hash'', ''source_manifest_hash'']"

record portfolio_status =
  ps_generated_at :: string
  ps_state :: portfolio_state
  ps_lrcca :: "string option"
  ps_universe_content_hash :: string
  ps_source_manifest_hash :: string

record stored_status = portfolio_status +
  ps_received_at :: string

definition assertTimestamp ::
  "(string \<Rightarrow> int option) \<Rightarrow> jsval option \<Rightarrow> string \<Rightarrow> string result" where
  "assertTimestamp lp v context' =
     (case as_string v of
        None \<Rightarrow> Inl (context' @ '' must be a non-empty string'')
      | Some s \<Rightarrow>
          if js_trim s = '''' then Inl (context' @ '' must be a non-empty string'')
          else if date_parse lp s = None then Inl (context' @ '' must be a parseable timestamp'')
          else Inr s)"

definition assertSha256 :: "jsval option \<Rightarrow> string \<Rightarrow> string result" where
  "assertSha256 v field =
     (case as_string v of
        Some s \<Rightarrow> if is_sha256 s then Inr s else Inl (field @ '' must be sha256:<64 lowercase hex>'')
      | None \<Rightarrow> Inl (field @ '' must be sha256:<64 lowercase hex>''))"

definition declared_state :: "jsobj \<Rightarrow> portfolio_state result" where
  "declared_state ob =
     (case Option.bind (as_string (fld ob ''state'')) state_of_name of
        Some s \<Rightarrow> Inr s
      | None \<Rightarrow> Inl ''state must be one of LIVE_COMPLETE, LKG_VALID, PORTFOLIO_UNKNOWN'')"

definition validatePortfolioStatus ::
  "(string \<Rightarrow> int option) \<Rightarrow> jsval \<Rightarrow> portfolio_status result" where
  "validatePortfolioStatus lp v =
     (case as_record v of
        None \<Rightarrow> Inl ''portfolio status must be an object''
      | Some ob \<Rightarrow>
     bindE (assertExactKeys ob TOP_LEVEL_KEYS ''portfolio_status'') (\<lambda>_.
     bindE (throw_if [(fld ob ''schema_version'' \<noteq> Some (JStr ''portfolio-status/1''),
                       ''schema_version must be portfolio-status/1'')]) (\<lambda>_.
     bindE (assertTimestamp lp (fld ob ''generated_at'') ''generated_at'') (\<lambda>generatedAt.
     bindE (declared_state ob) (\<lambda>declared.
     bindE (if fld ob ''last_real_complete_confirmed_at'' = Some JNull then Inr None
            else bindE (assertTimestamp lp (fld ob ''last_real_complete_confirmed_at'')
                          ''last_real_complete_confirmed_at'') (\<lambda>s. Inr (Some s))) (\<lambda>confirmedAt.
     bindE (assertSha256 (fld ob ''universe_content_hash'') ''universe_content_hash'') (\<lambda>uh.
     bindE (assertSha256 (fld ob ''source_manifest_hash'') ''source_manifest_hash'') (\<lambda>mh.
     bindE (throw_if [(declared \<noteq> PORTFOLIO_UNKNOWN \<and> confirmedAt = None,
                       ''state '' @ state_name declared @ '' requires last_real_complete_confirmed_at'')]) (\<lambda>_.
     Inr \<lparr>ps_generated_at = generatedAt, ps_state = declared, ps_lrcca = confirmedAt,
          ps_universe_content_hash = uh, ps_source_manifest_hash = mh\<rparr>)))))))))"

text \<open>The object the code writes, in its key order.\<close>

definition status_object :: "portfolio_status \<Rightarrow> jsobj" where
  "status_object p =
     [(''schema_version'', JStr ''portfolio-status/1''),
      (''generated_at'', JStr (ps_generated_at p)),
      (''state'', JStr (state_name (ps_state p))),
      (''last_real_complete_confirmed_at'', (case ps_lrcca p of None \<Rightarrow> JNull | Some s \<Rightarrow> JStr s)),
      (''universe_content_hash'', JStr (ps_universe_content_hash p)),
      (''source_manifest_hash'', JStr (ps_source_manifest_hash p))]"

definition with_received_at :: "portfolio_status \<Rightarrow> string \<Rightarrow> stored_status" where
  "with_received_at p r = portfolio_status.extend p \<lparr>ps_received_at = r\<rparr>"

definition writePortfolioStatus ::
  "(string \<Rightarrow> int option) \<Rightarrow> kv \<Rightarrow> jsval \<Rightarrow> string \<Rightarrow> (kv \<times> stored_status) result" where
  "writePortfolioStatus lp kv v receivedAt =
     bindE (validatePortfolioStatus lp v) (\<lambda>p.
     Inr (kv(PORTFOLIO_STATUS_KV_KEY \<mapsto>
            JsonText (JObj (status_object p @ [(''received_at'', JStr receivedAt)]))),
          with_received_at p receivedAt))"

definition readPortfolioStatus ::
  "(string \<Rightarrow> int option) \<Rightarrow> kv \<Rightarrow> stored_status option result" where
  "readPortfolioStatus lp kv =
     (case kv PORTFOLIO_STATUS_KV_KEY of
        None \<Rightarrow> Inr None
      | Some EmptyText \<Rightarrow> Inr None
      | Some BadText \<Rightarrow> Inl ''stored portfolio status is invalid JSON''
      | Some (JsonText parsed) \<Rightarrow>
     (case as_record parsed of
        None \<Rightarrow> Inl ''stored portfolio status is missing received_at''
      | Some ob \<Rightarrow>
     (case as_string (fld ob ''received_at'') of
        None \<Rightarrow> Inl ''stored portfolio status is missing received_at''
      | Some r \<Rightarrow>
          if r = '''' then Inl ''stored portfolio status is missing received_at''
          else bindE (validatePortfolioStatus lp (JObj (filter (\<lambda>(k, _). k \<noteq> ''received_at'') ob)))
                 (\<lambda>p. Inr (Some (with_received_at p r))))))"

section \<open>Derivation and presentation\<close>

definition derivePortfolioState ::
  "(string \<Rightarrow> int option) \<Rightarrow> string option \<Rightarrow> bool \<Rightarrow> int \<Rightarrow> portfolio_state" where
  "derivePortfolioState lp confirmedAt lkgPresent now =
     (if \<not> lkgPresent then PORTFOLIO_UNKNOWN
      else (case confirmedAt of None \<Rightarrow> PORTFOLIO_UNKNOWN
        | Some c \<Rightarrow>
     if c = '''' then PORTFOLIO_UNKNOWN
     else (case date_parse lp c of None \<Rightarrow> PORTFOLIO_UNKNOWN
        | Some parsed \<Rightarrow>
     if age_seconds now parsed < - FUTURE_TOLERANCE_SECONDS then PORTFOLIO_UNKNOWN
     else if age_seconds now parsed \<le> LIVE_COMPLETE_MAX_AGE_SECONDS then LIVE_COMPLETE
     else if age_seconds now parsed \<le> LKG_VALID_MAX_AGE_SECONDS then LKG_VALID
     else PORTFOLIO_UNKNOWN)))"

definition mostConservativePortfolioState :: "portfolio_state list \<Rightarrow> portfolio_state" where
  "mostConservativePortfolioState states =
     (case states of [] \<Rightarrow> PORTFOLIO_UNKNOWN
      | s # _ \<Rightarrow> foldl (\<lambda>result state. if CONSERVATISM state > CONSERVATISM result then state else result)
                  s states)"

definition reconcilePortfolioState :: "portfolio_state \<Rightarrow> portfolio_state \<Rightarrow> portfolio_state" where
  "reconcilePortfolioState declared recomputed = mostConservativePortfolioState [declared, recomputed]"

definition downgradePortfolioState :: "portfolio_state \<Rightarrow> portfolio_state \<Rightarrow> portfolio_state" where
  "downgradePortfolioState state floor' = mostConservativePortfolioState [state, floor']"

definition isOverlayAllowed :: "portfolio_state \<Rightarrow> bool" where
  "isOverlayAllowed state \<longleftrightarrow> state \<noteq> PORTFOLIO_UNKNOWN"

datatype freshness_anchor = LRCCA | GENERATED_AT

record anchor_view =
  av_anchor :: freshness_anchor
  av_anchor_fallback :: bool
  av_fresh :: bool

record presentation_input =
  pi_universe_present :: bool
  pi_universe_content_hash :: "string option"
  pi_universe_manifest_hash :: "string option"
  pi_status :: "portfolio_status option"
  pi_anchor :: "anchor_view option"
  pi_now :: int

datatype state_source = STATUS_DOC | STATUS_DOC_MISSING

record presentation =
  pp_portfolio_state :: portfolio_state
  pp_declared_state :: "portfolio_state option"
  pp_state_source :: state_source
  pp_state_reconciled :: bool
  pp_stale :: bool
  pp_apply_overlay :: bool
  pp_fresh :: bool
  pp_freshness_anchor :: "freshness_anchor option"
  pp_freshness_anchor_fallback :: bool
  pp_cross_check_mismatch :: bool

definition resolvePortfolioPresentation ::
  "(string \<Rightarrow> int option) \<Rightarrow> presentation_input \<Rightarrow> presentation" where
  "resolvePortfolioPresentation lp inp =
     (let fresh = (pi_universe_present inp \<and> (case pi_anchor inp of None \<Rightarrow> False | Some a \<Rightarrow> av_fresh a));
          anchor = map_option av_anchor (pi_anchor inp);
          fallback = (case pi_anchor inp of None \<Rightarrow> False | Some a \<Rightarrow> av_anchor_fallback a)
      in case pi_status inp of
         None \<Rightarrow>
           \<lparr>pp_portfolio_state = PORTFOLIO_UNKNOWN, pp_declared_state = None,
            pp_state_source = STATUS_DOC_MISSING, pp_state_reconciled = False, pp_stale = True,
            pp_apply_overlay = False, pp_fresh = fresh, pp_freshness_anchor = anchor,
            pp_freshness_anchor_fallback = fallback, pp_cross_check_mismatch = False\<rparr>
       | Some status \<Rightarrow>
           (let declared = ps_state status;
                recomputed = derivePortfolioState lp (ps_lrcca status) (pi_universe_present inp) (pi_now inp);
                reconciled = reconcilePortfolioState declared recomputed;
                mismatch = (\<not> pi_universe_present inp
                  \<or> pi_universe_content_hash inp \<noteq> Some (ps_universe_content_hash status)
                  \<or> pi_universe_manifest_hash inp \<noteq> Some (ps_source_manifest_hash status));
                state = (if mismatch then downgradePortfolioState reconciled LKG_VALID else reconciled)
            in \<lparr>pp_portfolio_state = state, pp_declared_state = Some declared,
                pp_state_source = STATUS_DOC, pp_state_reconciled = (state \<noteq> declared),
                pp_stale = (state \<noteq> LIVE_COMPLETE), pp_apply_overlay = (fresh \<and> isOverlayAllowed state),
                pp_fresh = fresh, pp_freshness_anchor = anchor,
                pp_freshness_anchor_fallback = fallback, pp_cross_check_mismatch = mismatch\<rparr>))"

section \<open>Facts\<close>

lemma mostConservative_max:
  "mostConservativePortfolioState (s # ss) = Max (set (s # ss))"
proof -
  have f: "(\<lambda>result state. if CONSERVATISM state > CONSERVATISM result then state else result)
      = (\<lambda>a b. max a b)"
    by (intro ext, rename_tac a b, case_tac a; case_tac b)
      (simp_all add: max_def less_eq_portfolio_state_def)
  have "foldl max (Max (insert a A)) xs = Max (insert a A \<union> set xs)"
    if "finite A" for a :: portfolio_state and A xs
    using that
  proof (induction xs arbitrary: a A)
    case (Cons x xs)
    have "max (Max (insert a A)) x = Max (insert x (insert a A))"
      using Cons.prems by (simp add: max.commute)
    then show ?case using Cons.IH [of "insert a A" x] Cons.prems by (simp add: insert_commute)
  qed simp
  from this [of "{}" s "s # ss"] show ?thesis
    by (simp add: mostConservativePortfolioState_def f)
qed

lemma reconcile_max [simp]: "reconcilePortfolioState a b = max a b"
  by (simp add: reconcilePortfolioState_def mostConservative_max)

lemma downgrade_max [simp]: "downgradePortfolioState a b = max a b"
  by (simp add: downgradePortfolioState_def mostConservative_max)

lemma assertTimestamp_ok:
  "assertTimestamp lp v c = Inr s \<longleftrightarrow> v = Some (JStr s) \<and> js_trim s \<noteq> '''' \<and> date_parse lp s \<noteq> None"
  by (auto simp: assertTimestamp_def split: option.splits)

lemma assertSha256_ok: "assertSha256 v c = Inr s \<longleftrightarrow> v = Some (JStr s) \<and> is_sha256 s"
  by (auto simp: assertSha256_def split: option.splits)

lemma declared_state_ok: "declared_state ob = Inr s \<longleftrightarrow> fld ob ''state'' = Some (JStr (state_name s))"
proof (cases "as_string (fld ob ''state'')")
  case None
  then have "fld ob ''state'' \<noteq> Some (JStr (state_name s))" by auto
  with None show ?thesis by (simp add: declared_state_def)
next
  case (Some n)
  then have "fld ob ''state'' = Some (JStr n)" by simp
  then show ?thesis
    by (cases "state_of_name n") (auto simp: declared_state_def state_of_name_Some)
qed

text \<open>What a validated status satisfies.\<close>

definition status_ok :: "(string \<Rightarrow> int option) \<Rightarrow> portfolio_status \<Rightarrow> bool" where
  "status_ok lp p \<longleftrightarrow>
     js_trim (ps_generated_at p) \<noteq> '''' \<and> date_parse lp (ps_generated_at p) \<noteq> None
     \<and> (case ps_lrcca p of None \<Rightarrow> ps_state p = PORTFOLIO_UNKNOWN
        | Some c \<Rightarrow> js_trim c \<noteq> '''' \<and> date_parse lp c \<noteq> None)
     \<and> is_sha256 (ps_universe_content_hash p) \<and> is_sha256 (ps_source_manifest_hash p)"


lemma validate_status_ok: "validatePortfolioStatus lp v = Inr p \<Longrightarrow> status_ok lp p"
  by (cases v) (auto simp: validatePortfolioStatus_def bindE_Inr throw_if_ok assertTimestamp_ok
      assertSha256_ok status_ok_def split: if_splits)

lemma validate_status_object:
  assumes "status_ok lp p"
  shows "validatePortfolioStatus lp (JObj (status_object p)) = Inr p"
proof -
  have k: "assertExactKeys (status_object p) TOP_LEVEL_KEYS c = Inr ()" for c
    by (simp add: assertExactKeys_ok status_object_def TOP_LEVEL_KEYS_def)
  have d: "declared_state (status_object p) = Inr (ps_state p)"
    by (simp add: declared_state_ok status_object_def)
  show ?thesis
    using assms unfolding validatePortfolioStatus_def as_record.simps option.case k d bindE.simps
    by (auto simp: status_object_def assertTimestamp_def assertSha256_def status_ok_def
        split: option.splits)
qed

lemma read_after_write_status:
  assumes "writePortfolioStatus lp kv v r = Inr (kv', st)" "r \<noteq> ''''"
  shows "readPortfolioStatus lp kv' = Inr (Some st)"
proof -
  obtain p where p: "validatePortfolioStatus lp v = Inr p"
    and kv': "kv' = kv(PORTFOLIO_STATUS_KV_KEY \<mapsto>
      JsonText (JObj (status_object p @ [(''received_at'', JStr r)])))"
    and st: "st = with_received_at p r"
    using assms(1) by (auto simp: writePortfolioStatus_def bindE_Inr)
  have f: "filter (\<lambda>(k, _). k \<noteq> ''received_at'') (status_object p @ [(''received_at'', JStr r)]) = status_object p"
    "fld (status_object p @ [(''received_at'', JStr r)]) ''received_at'' = Some (JStr r)"
    by (simp_all add: status_object_def)
  have "validatePortfolioStatus lp (JObj (status_object p)) = Inr p"
    by (rule validate_status_object [OF validate_status_ok [OF p]])
  then show ?thesis using assms(2) f by (simp add: readPortfolioStatus_def kv' st)
qed

text \<open>The status document as a KV document; the time of receipt is the clock at the write.\<close>

interpretation status_doc: kv_document "\<lambda>kv v t. writePortfolioStatus lp kv v (to_iso t)"
    "readPortfolioStatus lp" PORTFOLIO_STATUS_KV_KEY for lp
proof
  show "writePortfolioStatus lp kv v (to_iso t) = Inr (kv', a) \<Longrightarrow> readPortfolioStatus lp kv' = Inr (Some a)"
    for kv v t kv' a by (rule read_after_write_status [OF _ to_iso_nonempty])
  show "writePortfolioStatus lp kv v (to_iso t) = Inr (kv', a) \<Longrightarrow> k \<noteq> PORTFOLIO_STATUS_KV_KEY \<Longrightarrow> kv' k = kv k"
    for kv v t kv' a k by (auto simp: writePortfolioStatus_def bindE_Inr)
  show "kv PORTFOLIO_STATUS_KV_KEY = kv' PORTFOLIO_STATUS_KV_KEY \<Longrightarrow>
      readPortfolioStatus lp kv = readPortfolioStatus lp kv'" for kv kv'
    by (simp add: readPortfolioStatus_def)
qed

lemma derive_cases:
  "derivePortfolioState lp c lkg now =
    (case c of Some s \<Rightarrow>
       (case date_parse lp s of Some t \<Rightarrow>
          if lkg \<and> s \<noteq> '''' \<and> - 300000 \<le> now - t \<and> now - t \<le> 864000000
          then (if now - t \<le> 86400000 then LIVE_COMPLETE else LKG_VALID) else PORTFOLIO_UNKNOWN
        | None \<Rightarrow> PORTFOLIO_UNKNOWN)
     | None \<Rightarrow> PORTFOLIO_UNKNOWN)"
proof -
  have a: "age_seconds now t < - FUTURE_TOLERANCE_SECONDS \<longleftrightarrow> now - t < - 300000"
    "age_seconds now t \<le> LIVE_COMPLETE_MAX_AGE_SECONDS \<longleftrightarrow> now - t \<le> 86400000"
    "age_seconds now t \<le> LKG_VALID_MAX_AGE_SECONDS \<longleftrightarrow> now - t \<le> 864000000" for t
    using age_seconds_le [of now t 86400] age_seconds_le [of now t 864000]
      age_seconds_less [of now t "- 300"]
    by (simp_all add: FUTURE_TOLERANCE_SECONDS_def LIVE_COMPLETE_MAX_AGE_SECONDS_def
        LKG_VALID_MAX_AGE_SECONDS_def)
  show ?thesis unfolding derivePortfolioState_def a by (auto split: option.splits)
qed

section \<open>Properties\<close>

text \<open>The derived state is decided by the age of the last confirmation alone: with a usable
  LKG and a readable time it is LIVE_COMPLETE up to exactly 24 hours, LKG_VALID up to exactly
  ten days, and PORTFOLIO_UNKNOWN beyond, as it is without LKG, without confirmation, or more
  than five minutes in the future.\<close>

theorem derivePortfolioState_thresholds:
  assumes "date_parse lp c = Some t" "c \<noteq> ''''"
  shows "(derivePortfolioState lp (Some c) True now = LIVE_COMPLETE \<longleftrightarrow>
            - 300000 \<le> now - t \<and> now - t \<le> 24 * 3600 * 1000)
    \<and> (derivePortfolioState lp (Some c) True now = LKG_VALID \<longleftrightarrow>
            24 * 3600 * 1000 < now - t \<and> now - t \<le> 10 * 24 * 3600 * 1000)
    \<and> derivePortfolioState lp (Some c) False now = PORTFOLIO_UNKNOWN
    \<and> derivePortfolioState lp None True now = PORTFOLIO_UNKNOWN"
  using assms by (auto simp: derive_cases)

theorem derivePortfolioState_thresholds_witness:
  "derivePortfolioState (\<lambda>_. None) (Some ''1970-01-01T00:00:00.000Z'') True 86400000 = LIVE_COMPLETE
   \<and> derivePortfolioState (\<lambda>_. None) (Some ''1970-01-01T00:00:00.000Z'') True 86400001 = LKG_VALID"
proof -
  have d: "date_parse (\<lambda>_. None) ''1970-01-01T00:00:00.000Z'' = Some 0" by code_simp
  show ?thesis
    using derivePortfolioState_thresholds [OF d, of 86400000]
      derivePortfolioState_thresholds [OF d, of 86400001] by simp
qed

text \<open>Once a confirmation is trusted, the passing of time only makes the derived state more
  conservative: the state at a later instant is at least that of an earlier one.\<close>

theorem derivePortfolioState_decays:
  assumes "now \<le> later" "derivePortfolioState lp c lkg now \<noteq> PORTFOLIO_UNKNOWN"
  shows "derivePortfolioState lp c lkg now \<le> derivePortfolioState lp c lkg later"
  using assms by (auto simp: derive_cases split: option.splits if_splits)

theorem derivePortfolioState_decays_witness:
  "derivePortfolioState (\<lambda>_. Some 0) (Some ''x'') True 86400001
     \<le> derivePortfolioState (\<lambda>_. Some 0) (Some ''x'') True 864000001"
proof (rule derivePortfolioState_decays)
  have "iso_parse ''x'' = None" by code_simp
  then show "derivePortfolioState (\<lambda>_. Some 0) (Some ''x'') True 86400001 \<noteq> PORTFOLIO_UNKNOWN"
    by (simp add: derive_cases date_parse_def)
qed simp

text \<open>The presented state is never less conservative than what the document declares nor
  than what its own timestamp supports; it is LIVE_COMPLETE exactly when both say so and the
  universe is present with both hashes equal to the document's; the overlay applies only to a
  fresh, present universe with a document whose state is not unknown, and the presentation is
  stale unless it is LIVE_COMPLETE.\<close>

theorem presentation_conservative:
  "case pi_status inp of
     None \<Rightarrow> pp_portfolio_state (resolvePortfolioPresentation lp inp) = PORTFOLIO_UNKNOWN
        \<and> \<not> pp_apply_overlay (resolvePortfolioPresentation lp inp)
        \<and> pp_stale (resolvePortfolioPresentation lp inp)
   | Some d \<Rightarrow>
      ps_state d \<le> pp_portfolio_state (resolvePortfolioPresentation lp inp)
      \<and> derivePortfolioState lp (ps_lrcca d) (pi_universe_present inp) (pi_now inp)
          \<le> pp_portfolio_state (resolvePortfolioPresentation lp inp)
      \<and> (pp_portfolio_state (resolvePortfolioPresentation lp inp) = LIVE_COMPLETE \<longleftrightarrow>
           ps_state d = LIVE_COMPLETE
           \<and> derivePortfolioState lp (ps_lrcca d) (pi_universe_present inp) (pi_now inp) = LIVE_COMPLETE
           \<and> pi_universe_content_hash inp = Some (ps_universe_content_hash d)
           \<and> pi_universe_manifest_hash inp = Some (ps_source_manifest_hash d))
      \<and> (pp_apply_overlay (resolvePortfolioPresentation lp inp) \<longleftrightarrow>
           pi_universe_present inp \<and> (\<exists>a. pi_anchor inp = Some a \<and> av_fresh a)
           \<and> ps_state d \<noteq> PORTFOLIO_UNKNOWN
           \<and> derivePortfolioState lp (ps_lrcca d) True (pi_now inp) \<noteq> PORTFOLIO_UNKNOWN)
      \<and> (pp_stale (resolvePortfolioPresentation lp inp) \<longleftrightarrow>
           pp_portfolio_state (resolvePortfolioPresentation lp inp) \<noteq> LIVE_COMPLETE)"
proof (cases "pi_status inp")
  case None
  then show ?thesis by (simp add: resolvePortfolioPresentation_def Let_def)
next
  case (Some d)
  define r where "r = derivePortfolioState lp (ps_lrcca d) (pi_universe_present inp) (pi_now inp)"
  have u: "r \<noteq> PORTFOLIO_UNKNOWN \<Longrightarrow> pi_universe_present inp"
    by (cases "pi_universe_present inp") (simp_all add: r_def derivePortfolioState_def)
  have p: "pi_universe_present inp \<Longrightarrow> derivePortfolioState lp (ps_lrcca d) True (pi_now inp) = r"
    by (simp add: r_def)
  have m: "max a b = LIVE_COMPLETE \<longleftrightarrow> a = LIVE_COMPLETE \<and> b = LIVE_COMPLETE"
    "max a b = PORTFOLIO_UNKNOWN \<longleftrightarrow> a = PORTFOLIO_UNKNOWN \<or> b = PORTFOLIO_UNKNOWN"
    "max a LKG_VALID \<noteq> LIVE_COMPLETE" for a b :: portfolio_state
    by (cases a; cases b; simp add: max_def)+
  show ?thesis
    using u p unfolding resolvePortfolioPresentation_def Let_def Some option.case r_def [symmetric]
    by (auto simp: isOverlayAllowed_def m r_def [symmetric] le_max_iff_disj split: option.splits)
qed


definition sample_status :: portfolio_status where
  "sample_status = \<lparr>ps_generated_at = ''1970-01-01'', ps_state = PORTFOLIO_UNKNOWN, ps_lrcca = None,
     ps_universe_content_hash = ''sha256:'' @ replicate 64 CHR ''a'',
     ps_source_manifest_hash = ''sha256:'' @ replicate 64 CHR ''b''\<rparr>"

lemma sample_status_ok: "status_ok (\<lambda>_. None) sample_status"
  by code_simp


end
