(* ===== verification/Portfolio_Delta.thy ===== *)
theory Portfolio_Delta
  imports Portfolio_Status
begin

text \<open>
  \<open>src/src/portfolio-delta.ts\<close>: the reducer that turns authenticated LIVE observations into
  added and removed code identities, its private last-known-good baseline, and the handler that
  reads, reduces and persists both. \<open>localeCompare\<close> is the parameter \<open>lc\<close>; a KV \<open>put\<close> succeeds
  or fails as the parameter \<open>put_ok\<close> says for its key.
\<close>

section \<open>Data\<close>

definition PORTFOLIO_UNIVERSE_BASELINE_KV_KEY :: string where
  "PORTFOLIO_UNIVERSE_BASELINE_KV_KEY = ''live-portfolio/private/complete-baseline-v1''"

definition PORTFOLIO_UNIVERSE_DELTA_KV_KEY :: string where
  "PORTFOLIO_UNIVERSE_DELTA_KV_KEY = ''live-portfolio/private/latest-delta-v1''"

definition BASELINE_SCHEMA :: string where
  "BASELINE_SCHEMA = ''portfolio_universe_complete_baseline_v1''"

record observation =
  ob_state :: portfolio_state
  ob_complete_hash :: string
  ob_active_codes :: "jsval list"
  ob_observed_at :: string

record complete_baseline =
  cb_complete_hash :: string
  cb_codes :: "string list"
  cb_observed_at :: string
  cb_eligible :: bool
  cb_last_state :: portfolio_state
  cb_last_observed_hash :: string
  cb_last_observed_at :: string

record universe_delta =
  ud_previous_hash :: string
  ud_current_hash :: string
  ud_added :: "string list"
  ud_removed :: "string list"
  ud_observed_at :: string

definition DELTA_KEYS :: "string list" where
  "DELTA_KEYS = [''previous_complete_hash'', ''current_complete_hash'', ''added_codes'',
     ''removed_codes'', ''observed_at'']"

definition BASELINE_KEYS :: "string list" where
  "BASELINE_KEYS = [''schema_version'', ''current_complete_hash'', ''codes'', ''observed_at'',
     ''eligible'', ''last_state'', ''last_observed_hash'', ''last_observed_at'']"

definition baseline_object :: "complete_baseline \<Rightarrow> jsobj" where
  "baseline_object b =
     [(''schema_version'', JStr BASELINE_SCHEMA),
      (''current_complete_hash'', JStr (cb_complete_hash b)),
      (''codes'', JArr (map JStr (cb_codes b))),
      (''observed_at'', JStr (cb_observed_at b)),
      (''eligible'', JBool (cb_eligible b)),
      (''last_state'', JStr (state_name (cb_last_state b))),
      (''last_observed_hash'', JStr (cb_last_observed_hash b)),
      (''last_observed_at'', JStr (cb_last_observed_at b))]"

definition delta_object :: "universe_delta \<Rightarrow> jsobj" where
  "delta_object d =
     [(''previous_complete_hash'', JStr (ud_previous_hash d)),
      (''current_complete_hash'', JStr (ud_current_hash d)),
      (''added_codes'', JArr (map JStr (ud_added d))),
      (''removed_codes'', JArr (map JStr (ud_removed d))),
      (''observed_at'', JStr (ud_observed_at d))]"

section \<open>Validation\<close>

text \<open>\<open>/^(CN|HK):[0-9]{5,6}$/\<close>\<close>

definition is_code :: "string \<Rightarrow> bool" where
  "is_code s \<longleftrightarrow> (take 3 s = ''CN:'' \<or> take 3 s = ''HK:'') \<and> list_all is_digit (drop 3 s)
     \<and> (length s = 8 \<or> length s = 9)"

definition canonicalCode :: "jsval \<Rightarrow> string \<Rightarrow> string result" where
  "canonicalCode v context' =
     bindE (case v of
         JStr s \<Rightarrow> Inr s
       | JObj ob \<Rightarrow> Inr (template (fld ob ''market'') @ '':'' @ template (fld ob ''code''))
       | _ \<Rightarrow> Inl (context' @ '' must be a market:code string or object''))
     (\<lambda>candidate. if is_code candidate then Inr candidate
        else Inl (context' @ '' must be CN:<5-6 digits> or HK:<5-6 digits>''))"

definition indexed :: "string \<Rightarrow> nat \<Rightarrow> string" where
  "indexed context' i = context' @ ''['' @ show_nat i @ '']''"

definition canonicalPortfolioCodes ::
  "(string \<Rightarrow> string \<Rightarrow> int) \<Rightarrow> jsval list \<Rightarrow> string \<Rightarrow> string list result" where
  "canonicalPortfolioCodes lc values context' =
     bindE (mapE (\<lambda>v i. canonicalCode v (indexed context' i)) values) (\<lambda>result.
     if length (js_set result) \<noteq> length result
     then Inl (context' @ '' contains duplicate code identities'')
     else Inr (sort_by lc (js_set result)))"

definition assertCanonicalCodes ::
  "(string \<Rightarrow> string \<Rightarrow> int) \<Rightarrow> jsval option \<Rightarrow> string \<Rightarrow> string list result" where
  "assertCanonicalCodes lc v context' =
     (case as_array v of
        None \<Rightarrow> Inl (context' @ '' must be an array'')
      | Some items \<Rightarrow>
          bindE (mapE (\<lambda>x i. canonicalCode x (indexed context' i)) items) (\<lambda>codes.
          bindE (throw_if
            [(map JStr codes \<noteq> items, context' @ '' must contain canonical market:code strings only''),
             (length (js_set codes) \<noteq> length codes, context' @ '' contains duplicate code identities''),
             (sort_by lc codes \<noteq> codes, context' @ '' must be sorted canonically'')]) (\<lambda>_.
          Inr codes)))"

definition assertStamp ::
  "(string \<Rightarrow> int option) \<Rightarrow> jsval option \<Rightarrow> string \<Rightarrow> string result" where
  "assertStamp lp v context' =
     (case as_string v of
        None \<Rightarrow> Inl (context' @ '' must be a non-empty timestamp'')
      | Some s \<Rightarrow>
          if js_trim s = '''' then Inl (context' @ '' must be a non-empty timestamp'')
          else if date_parse lp s = None then Inl (context' @ '' must be a parseable timestamp'')
          else Inr s)"

definition assertState :: "jsval option \<Rightarrow> string \<Rightarrow> portfolio_state result" where
  "assertState v context' =
     (case Option.bind (as_string v) state_of_name of
        Some s \<Rightarrow> Inr s
      | None \<Rightarrow> Inl (context' @ '' must be one of LIVE_COMPLETE, LKG_VALID, PORTFOLIO_UNKNOWN''))"

text \<open>\<open>Date.parse(left) - Date.parse(right)\<close>, on validated timestamps.\<close>

definition compareObservationTime :: "(string \<Rightarrow> int option) \<Rightarrow> string \<Rightarrow> string \<Rightarrow> int" where
  "compareObservationTime lp left right =
     (case (date_parse lp left, date_parse lp right) of (Some a, Some b) \<Rightarrow> a - b | _ \<Rightarrow> 0)"

record normalized_observation =
  no_state :: portfolio_state
  no_complete_hash :: string
  no_active_codes :: "string list"
  no_observed_at :: string

definition validateObservation ::
  "(string \<Rightarrow> int option) \<Rightarrow> (string \<Rightarrow> string \<Rightarrow> int) \<Rightarrow> observation \<Rightarrow> normalized_observation result" where
  "validateObservation lp lc o' =
     bindE (assertSha256 (Some (JStr (ob_complete_hash o'))) ''observation.current_complete_hash'') (\<lambda>h.
     bindE (assertStamp lp (Some (JStr (ob_observed_at o'))) ''observation.observed_at'') (\<lambda>t.
     bindE (canonicalPortfolioCodes lc (ob_active_codes o') ''observation.active_codes'') (\<lambda>cs.
     Inr \<lparr>no_state = ob_state o', no_complete_hash = h, no_active_codes = cs, no_observed_at = t\<rparr>)))"

definition validatePortfolioCompleteBaseline ::
  "(string \<Rightarrow> int option) \<Rightarrow> (string \<Rightarrow> string \<Rightarrow> int) \<Rightarrow> jsval \<Rightarrow> complete_baseline result" where
  "validatePortfolioCompleteBaseline lp lc v =
     (case as_record v of
        None \<Rightarrow> Inl ''portfolio complete baseline must be an object''
      | Some ob \<Rightarrow>
     bindE (assertExactKeys ob BASELINE_KEYS ''portfolio_complete_baseline'') (\<lambda>_.
     bindE (throw_if [(fld ob ''schema_version'' \<noteq> Some (JStr BASELINE_SCHEMA),
        ''schema_version must be '' @ BASELINE_SCHEMA)]) (\<lambda>_.
     bindE (assertSha256 (fld ob ''current_complete_hash'') ''current_complete_hash'') (\<lambda>h.
     bindE (assertCanonicalCodes lc (fld ob ''codes'') ''codes'') (\<lambda>codes.
     bindE (assertStamp lp (fld ob ''observed_at'') ''observed_at'') (\<lambda>observedAt.
     (case as_bool (fld ob ''eligible'') of
        None \<Rightarrow> Inl ''eligible must be boolean''
      | Some eligible \<Rightarrow>
     bindE (assertState (fld ob ''last_state'') ''last_state'') (\<lambda>lastState.
     bindE (assertSha256 (fld ob ''last_observed_hash'') ''last_observed_hash'') (\<lambda>lastHash.
     bindE (assertStamp lp (fld ob ''last_observed_at'') ''last_observed_at'') (\<lambda>lastAt.
     bindE (throw_if
       [(eligible \<noteq> (lastState = LIVE_COMPLETE), ''eligible must match last_state''),
        (compareObservationTime lp lastAt observedAt < 0, ''last_observed_at cannot precede observed_at'')]) (\<lambda>_.
     Inr \<lparr>cb_complete_hash = h, cb_codes = codes, cb_observed_at = observedAt, cb_eligible = eligible,
          cb_last_state = lastState, cb_last_observed_hash = lastHash,
          cb_last_observed_at = lastAt\<rparr>)))))))))))"

definition validatePortfolioUniverseDelta ::
  "(string \<Rightarrow> int option) \<Rightarrow> (string \<Rightarrow> string \<Rightarrow> int) \<Rightarrow> jsval \<Rightarrow> universe_delta result" where
  "validatePortfolioUniverseDelta lp lc v =
     (case as_record v of
        None \<Rightarrow> Inl ''portfolio universe delta must be an object''
      | Some ob \<Rightarrow>
     bindE (assertExactKeys ob DELTA_KEYS ''portfolio_universe_delta'') (\<lambda>_.
     bindE (assertSha256 (fld ob ''previous_complete_hash'') ''previous_complete_hash'') (\<lambda>p.
     bindE (assertSha256 (fld ob ''current_complete_hash'') ''current_complete_hash'') (\<lambda>c.
     bindE (throw_if [(p = c, ''delta hashes must differ'')]) (\<lambda>_.
     bindE (assertCanonicalCodes lc (fld ob ''added_codes'') ''added_codes'') (\<lambda>added.
     bindE (assertCanonicalCodes lc (fld ob ''removed_codes'') ''removed_codes'') (\<lambda>removed.
     bindE (throw_if [(list_ex (\<lambda>x. x \<in> set removed) added,
        ''delta added_codes and removed_codes must not overlap'')]) (\<lambda>_.
     bindE (assertStamp lp (fld ob ''observed_at'') ''observed_at'') (\<lambda>t.
     Inr \<lparr>ud_previous_hash = p, ud_current_hash = c, ud_added = added, ud_removed = removed,
          ud_observed_at = t\<rparr>)))))))))"

section \<open>The reducer\<close>

definition next_complete_baseline :: "normalized_observation \<Rightarrow> complete_baseline" where
  "next_complete_baseline o' =
     \<lparr>cb_complete_hash = no_complete_hash o', cb_codes = no_active_codes o',
      cb_observed_at = no_observed_at o', cb_eligible = True, cb_last_state = LIVE_COMPLETE,
      cb_last_observed_hash = no_complete_hash o', cb_last_observed_at = no_observed_at o'\<rparr>"

definition break_continuity :: "complete_baseline \<Rightarrow> normalized_observation \<Rightarrow> complete_baseline" where
  "break_continuity b o' =
     b\<lparr>cb_eligible := False, cb_last_state := no_state o',
       cb_last_observed_hash := no_complete_hash o', cb_last_observed_at := no_observed_at o'\<rparr>"

definition raw_delta :: "complete_baseline \<Rightarrow> normalized_observation \<Rightarrow> universe_delta" where
  "raw_delta b o' =
     \<lparr>ud_previous_hash = cb_complete_hash b, ud_current_hash = no_complete_hash o',
      ud_added = filter (\<lambda>c. c \<notin> set (cb_codes b)) (no_active_codes o'),
      ud_removed = filter (\<lambda>c. c \<notin> set (no_active_codes o')) (cb_codes b),
      ud_observed_at = no_observed_at o'\<rparr>"

definition reduce_with_baseline ::
  "(string \<Rightarrow> int option) \<Rightarrow> (string \<Rightarrow> string \<Rightarrow> int) \<Rightarrow> complete_baseline \<Rightarrow> normalized_observation
     \<Rightarrow> (complete_baseline option \<times> universe_delta option) result" where
  "reduce_with_baseline lp lc b o' =
     (if compareObservationTime lp (no_observed_at o') (cb_last_observed_at b) < 0
      then Inr (Some b, None)
      else (let sameTimestampConflict =
                  (compareObservationTime lp (no_observed_at o') (cb_last_observed_at b) = 0
                   \<and> (no_state o' \<noteq> cb_last_state b \<or> no_complete_hash o' \<noteq> cb_last_observed_hash b))
            in if no_state o' \<noteq> LIVE_COMPLETE then Inr (Some (break_continuity b o'), None)
               else if \<not> cb_eligible b \<or> sameTimestampConflict
               then Inr (Some (next_complete_baseline o'), None)
               else if cb_complete_hash b = no_complete_hash o'
               then Inr (Some (next_complete_baseline o'), None)
               else bindE (validatePortfolioUniverseDelta lp lc (JObj (delta_object (raw_delta b o'))))
                      (\<lambda>d. Inr (Some (next_complete_baseline o'), Some d))))"

definition reducePortfolioUniverseDelta ::
  "(string \<Rightarrow> int option) \<Rightarrow> (string \<Rightarrow> string \<Rightarrow> int) \<Rightarrow> complete_baseline option \<Rightarrow> observation
     \<Rightarrow> (complete_baseline option \<times> universe_delta option) result" where
  "reducePortfolioUniverseDelta lp lc previous current =
     bindE (validateObservation lp lc current) (\<lambda>o'.
     case previous of
       None \<Rightarrow> if no_state o' \<noteq> LIVE_COMPLETE then Inr (None, None)
               else Inr (Some (next_complete_baseline o'), None)
     | Some p \<Rightarrow>
         bindE (validatePortfolioCompleteBaseline lp lc (JObj (baseline_object p))) (\<lambda>b.
         reduce_with_baseline lp lc b o'))"

section \<open>Storage and the handler\<close>

definition readJson :: "kv \<Rightarrow> string \<Rightarrow> string \<Rightarrow> jsval option result" where
  "readJson kv k description =
     (case kv k of
        None \<Rightarrow> Inr None
      | Some (JsonText JNull) \<Rightarrow> Inr None
      | Some (JsonText v) \<Rightarrow> Inr (Some v)
      | Some _ \<Rightarrow> Inl (description @ '' is invalid JSON''))"

definition readPortfolioCompleteBaseline ::
  "(string \<Rightarrow> int option) \<Rightarrow> (string \<Rightarrow> string \<Rightarrow> int) \<Rightarrow> kv \<Rightarrow> complete_baseline option result" where
  "readPortfolioCompleteBaseline lp lc kv =
     bindE (readJson kv PORTFOLIO_UNIVERSE_BASELINE_KV_KEY ''stored portfolio baseline'') (\<lambda>parsed.
     case parsed of None \<Rightarrow> Inr None
     | Some v \<Rightarrow> bindE (validatePortfolioCompleteBaseline lp lc v) (\<lambda>b. Inr (Some b)))"

definition writePortfolioCompleteBaseline ::
  "(string \<Rightarrow> int option) \<Rightarrow> (string \<Rightarrow> string \<Rightarrow> int) \<Rightarrow> kv \<Rightarrow> jsval \<Rightarrow> (kv \<times> complete_baseline) result" where
  "writePortfolioCompleteBaseline lp lc kv v =
     bindE (validatePortfolioCompleteBaseline lp lc v) (\<lambda>b.
     Inr (kv(PORTFOLIO_UNIVERSE_BASELINE_KV_KEY \<mapsto> JsonText (JObj (baseline_object b))), b))"

definition readPortfolioUniverseDelta ::
  "(string \<Rightarrow> int option) \<Rightarrow> (string \<Rightarrow> string \<Rightarrow> int) \<Rightarrow> kv \<Rightarrow> universe_delta option result" where
  "readPortfolioUniverseDelta lp lc kv =
     bindE (readJson kv PORTFOLIO_UNIVERSE_DELTA_KV_KEY ''stored portfolio delta'') (\<lambda>parsed.
     case parsed of None \<Rightarrow> Inr None
     | Some v \<Rightarrow> bindE (validatePortfolioUniverseDelta lp lc v) (\<lambda>d. Inr (Some d)))"

definition writePortfolioUniverseDelta ::
  "(string \<Rightarrow> int option) \<Rightarrow> (string \<Rightarrow> string \<Rightarrow> int) \<Rightarrow> kv \<Rightarrow> jsval \<Rightarrow> (kv \<times> universe_delta) result" where
  "writePortfolioUniverseDelta lp lc kv v =
     bindE (validatePortfolioUniverseDelta lp lc v) (\<lambda>d.
     Inr (kv(PORTFOLIO_UNIVERSE_DELTA_KV_KEY \<mapsto> JsonText (JObj (delta_object d))), d))"

text \<open>A write whose \<open>put\<close> may fail: the store is unchanged then.\<close>

definition try_put :: "(string \<Rightarrow> bool) \<Rightarrow> string \<Rightarrow> kv \<Rightarrow> (kv \<times> 'a) result \<Rightarrow> kv \<times> unit result" where
  "try_put put_ok k kv outcome =
     (case outcome of
        Inl e \<Rightarrow> (kv, Inl e)
      | Inr (kv', _) \<Rightarrow> if put_ok k then (kv', Inr ()) else (kv, Inl ''KV put failed''))"

text \<open>The handler: the event is written before the baseline advances.\<close>

definition recordPortfolioUniverseObservation ::
  "(string \<Rightarrow> int option) \<Rightarrow> (string \<Rightarrow> string \<Rightarrow> int) \<Rightarrow> (string \<Rightarrow> bool) \<Rightarrow> kv \<Rightarrow> observation
     \<Rightarrow> kv \<times> universe_delta option result" where
  "recordPortfolioUniverseObservation lp lc put_ok kv o' =
     (case bindE (readPortfolioCompleteBaseline lp lc kv) (\<lambda>previous.
           bindE (readPortfolioUniverseDelta lp lc kv) (\<lambda>_.
           reducePortfolioUniverseDelta lp lc previous o')) of
        Inl e \<Rightarrow> (kv, Inl e)
      | Inr (baseline, delta) \<Rightarrow>
     (case (case delta of None \<Rightarrow> (kv, Inr ())
            | Some d \<Rightarrow> try_put put_ok PORTFOLIO_UNIVERSE_DELTA_KV_KEY kv
                          (writePortfolioUniverseDelta lp lc kv (JObj (delta_object d)))) of
        (kv1, Inl e) \<Rightarrow> (kv1, Inl e)
      | (kv1, Inr _) \<Rightarrow>
     (case (case baseline of None \<Rightarrow> (kv1, Inr ())
            | Some b \<Rightarrow> try_put put_ok PORTFOLIO_UNIVERSE_BASELINE_KV_KEY kv1
                          (writePortfolioCompleteBaseline lp lc kv1 (JObj (baseline_object b)))) of
        (kv2, Inl e) \<Rightarrow> (kv2, Inl e)
      | (kv2, Inr _) \<Rightarrow> (kv2, Inr delta))))"

section \<open>Facts\<close>

text \<open>Canonical code lists: well-formed, without duplicates, sorted.\<close>

definition codes_ok :: "(string \<Rightarrow> string \<Rightarrow> int) \<Rightarrow> string list \<Rightarrow> bool" where
  "codes_ok lc cs \<longleftrightarrow> list_all is_code cs \<and> distinct cs \<and> sort_by lc cs = cs"

lemma canonicalCode_str: "canonicalCode (JStr s) c = Inr t \<longleftrightarrow> s = t \<and> is_code s"
  by (auto simp: canonicalCode_def split: if_splits)

lemma canonicalCode_is_code: "canonicalCode v c = Inr t \<Longrightarrow> is_code t"
  by (auto simp: canonicalCode_def bindE_Inr split: if_splits)

lemma mapE_canonical_strs:
  "mapE (\<lambda>x i. canonicalCode x (indexed c i)) (map JStr cs) = Inr ds \<longleftrightarrow> cs = ds \<and> list_all is_code cs"
  by (auto simp: mapE_from_Inr canonicalCode_str list_all_length intro: nth_equalityI)

lemma assertCanonicalCodes_iff:
  "assertCanonicalCodes lc v c = Inr cs \<longleftrightarrow> v = Some (JArr (map JStr cs)) \<and> codes_ok lc cs"
proof
  assume "assertCanonicalCodes lc v c = Inr cs"
  then obtain items where "v = Some (JArr items)" "map JStr cs = items"
    "mapE (\<lambda>x i. canonicalCode x (indexed c i)) items = Inr cs" "distinct cs" "sort_by lc cs = cs"
    by (auto simp: assertCanonicalCodes_def bindE_Inr length_js_set split: option.splits if_splits)
  then show "v = Some (JArr (map JStr cs)) \<and> codes_ok lc cs"
    using mapE_canonical_strs by (auto simp: codes_ok_def)
next
  assume "v = Some (JArr (map JStr cs)) \<and> codes_ok lc cs"
  then have "mapE (\<lambda>x i. canonicalCode x (indexed c i)) (map JStr cs) = Inr cs"
    "v = Some (JArr (map JStr cs))" "distinct cs" "sort_by lc cs = cs"
    using mapE_canonical_strs by (auto simp: codes_ok_def)
  then show "assertCanonicalCodes lc v c = Inr cs"
    by (simp add: assertCanonicalCodes_def length_js_set)
qed

lemma canonicalPortfolioCodes_ok:
  assumes "comparator lc" "canonicalPortfolioCodes lc vs c = Inr cs"
  shows "codes_ok lc cs"
proof -
  obtain ds where ds: "mapE (\<lambda>v i. canonicalCode v (indexed c i)) vs = Inr ds" "distinct ds"
    and cs: "cs = sort_by lc (js_set ds)"
    using assms(2) by (auto simp: canonicalPortfolioCodes_def bindE_Inr length_js_set split: if_splits)
  have "list_all is_code ds"
    using ds(1) by (auto simp: mapE_from_Inr list_all_length dest: canonicalCode_is_code)
  then show ?thesis
    using comparator.sort_idem [OF assms(1)] by (auto simp: codes_ok_def cs list_all_iff)
qed

lemma assertStamp_ok:
  "assertStamp lp v c = Inr s \<longleftrightarrow> v = Some (JStr s) \<and> js_trim s \<noteq> '''' \<and> date_parse lp s \<noteq> None"
  by (auto simp: assertStamp_def split: option.splits)

lemma assertState_ok: "assertState v c = Inr s \<longleftrightarrow> v = Some (JStr (state_name s))"
proof (cases "as_string v")
  case None
  then have "v \<noteq> Some (JStr (state_name s))" by auto
  with None show ?thesis by (simp add: assertState_def)
next
  case (Some n)
  then have "v = Some (JStr n)" by simp
  then show ?thesis
    by (cases "state_of_name n") (auto simp: assertState_def state_of_name_Some)
qed

definition stamp_ok :: "(string \<Rightarrow> int option) \<Rightarrow> string \<Rightarrow> bool" where
  "stamp_ok lp s \<longleftrightarrow> js_trim s \<noteq> '''' \<and> date_parse lp s \<noteq> None"

definition baseline_ok ::
  "(string \<Rightarrow> int option) \<Rightarrow> (string \<Rightarrow> string \<Rightarrow> int) \<Rightarrow> complete_baseline \<Rightarrow> bool" where
  "baseline_ok lp lc b \<longleftrightarrow> is_sha256 (cb_complete_hash b) \<and> codes_ok lc (cb_codes b)
     \<and> stamp_ok lp (cb_observed_at b) \<and> cb_eligible b = (cb_last_state b = LIVE_COMPLETE)
     \<and> is_sha256 (cb_last_observed_hash b) \<and> stamp_ok lp (cb_last_observed_at b)
     \<and> 0 \<le> compareObservationTime lp (cb_last_observed_at b) (cb_observed_at b)"

definition delta_ok ::
  "(string \<Rightarrow> int option) \<Rightarrow> (string \<Rightarrow> string \<Rightarrow> int) \<Rightarrow> universe_delta \<Rightarrow> bool" where
  "delta_ok lp lc d \<longleftrightarrow> is_sha256 (ud_previous_hash d) \<and> is_sha256 (ud_current_hash d)
     \<and> ud_previous_hash d \<noteq> ud_current_hash d \<and> codes_ok lc (ud_added d) \<and> codes_ok lc (ud_removed d)
     \<and> set (ud_added d) \<inter> set (ud_removed d) = {} \<and> stamp_ok lp (ud_observed_at d)"

lemma validate_baseline_ok: "validatePortfolioCompleteBaseline lp lc v = Inr b \<Longrightarrow> baseline_ok lp lc b"
  by (cases v) (auto simp: validatePortfolioCompleteBaseline_def bindE_Inr throw_if_ok assertStamp_ok
      assertSha256_ok assertCanonicalCodes_iff assertState_ok baseline_ok_def stamp_ok_def
      split: option.splits if_splits)

lemma baseline_object_fields:
  "assertExactKeys (baseline_object b) BASELINE_KEYS c = Inr ()"
  "fld (baseline_object b) ''schema_version'' = Some (JStr BASELINE_SCHEMA)"
  "fld (baseline_object b) ''current_complete_hash'' = Some (JStr (cb_complete_hash b))"
  "fld (baseline_object b) ''codes'' = Some (JArr (map JStr (cb_codes b)))"
  "fld (baseline_object b) ''observed_at'' = Some (JStr (cb_observed_at b))"
  "fld (baseline_object b) ''eligible'' = Some (JBool (cb_eligible b))"
  "fld (baseline_object b) ''last_state'' = Some (JStr (state_name (cb_last_state b)))"
  "fld (baseline_object b) ''last_observed_hash'' = Some (JStr (cb_last_observed_hash b))"
  "fld (baseline_object b) ''last_observed_at'' = Some (JStr (cb_last_observed_at b))"
  by (simp_all add: baseline_object_def assertExactKeys_ok BASELINE_KEYS_def)

lemma validate_baseline_object:
  "validatePortfolioCompleteBaseline lp lc (JObj (baseline_object b)) = Inr b' \<longleftrightarrow> b' = b \<and> baseline_ok lp lc b"
  unfolding validatePortfolioCompleteBaseline_def as_record.simps option.case baseline_object_fields
    as_bool.simps
  by (cases b) (auto simp: bindE_Inr throw_if_ok assertStamp_ok assertSha256_ok
      assertCanonicalCodes_iff assertState_ok baseline_ok_def stamp_ok_def)

lemma validate_delta_ok: "validatePortfolioUniverseDelta lp lc v = Inr d \<Longrightarrow> delta_ok lp lc d"
  by (cases v) (auto simp: validatePortfolioUniverseDelta_def bindE_Inr throw_if_ok assertStamp_ok
      assertSha256_ok assertCanonicalCodes_iff delta_ok_def stamp_ok_def list_ex_iff split: if_splits)

lemma delta_object_fields:
  "assertExactKeys (delta_object d) DELTA_KEYS c = Inr ()"
  "fld (delta_object d) ''previous_complete_hash'' = Some (JStr (ud_previous_hash d))"
  "fld (delta_object d) ''current_complete_hash'' = Some (JStr (ud_current_hash d))"
  "fld (delta_object d) ''added_codes'' = Some (JArr (map JStr (ud_added d)))"
  "fld (delta_object d) ''removed_codes'' = Some (JArr (map JStr (ud_removed d)))"
  "fld (delta_object d) ''observed_at'' = Some (JStr (ud_observed_at d))"
  by (simp_all add: delta_object_def assertExactKeys_ok DELTA_KEYS_def)

lemma validate_delta_object:
  "validatePortfolioUniverseDelta lp lc (JObj (delta_object d)) = Inr d' \<longleftrightarrow> d' = d \<and> delta_ok lp lc d"
  unfolding validatePortfolioUniverseDelta_def as_record.simps option.case delta_object_fields
  by (cases d) (auto simp: bindE_Inr throw_if_ok assertStamp_ok assertSha256_ok
      assertCanonicalCodes_iff delta_ok_def stamp_ok_def list_ex_iff)

text \<open>The two documents as KV documents.\<close>

lemma readJson_local: "kv k = kv' k \<Longrightarrow> readJson kv k d = readJson kv' k d"
  by (simp add: readJson_def)

interpretation baseline_doc: kv_document "\<lambda>kv v (_ :: unit). writePortfolioCompleteBaseline lp lc kv v"
    "readPortfolioCompleteBaseline lp lc" PORTFOLIO_UNIVERSE_BASELINE_KV_KEY for lp lc
proof
  show "writePortfolioCompleteBaseline lp lc kv v = Inr (kv', b) \<Longrightarrow>
      readPortfolioCompleteBaseline lp lc kv' = Inr (Some b)" for kv v kv' b
    using validate_baseline_ok [of lp lc v b]
    by (auto simp: writePortfolioCompleteBaseline_def readPortfolioCompleteBaseline_def readJson_def
        bindE_Inr validate_baseline_object)
  show "writePortfolioCompleteBaseline lp lc kv v = Inr (kv', b) \<Longrightarrow>
      k \<noteq> PORTFOLIO_UNIVERSE_BASELINE_KV_KEY \<Longrightarrow> kv' k = kv k" for kv v kv' b k
    by (auto simp: writePortfolioCompleteBaseline_def bindE_Inr)
  show "kv PORTFOLIO_UNIVERSE_BASELINE_KV_KEY = kv' PORTFOLIO_UNIVERSE_BASELINE_KV_KEY \<Longrightarrow>
      readPortfolioCompleteBaseline lp lc kv = readPortfolioCompleteBaseline lp lc kv'" for kv kv'
    by (simp add: readPortfolioCompleteBaseline_def readJson_local [of kv _ kv'])
qed

interpretation delta_doc: kv_document "\<lambda>kv v (_ :: unit). writePortfolioUniverseDelta lp lc kv v"
    "readPortfolioUniverseDelta lp lc" PORTFOLIO_UNIVERSE_DELTA_KV_KEY for lp lc
proof
  show "writePortfolioUniverseDelta lp lc kv v = Inr (kv', b) \<Longrightarrow>
      readPortfolioUniverseDelta lp lc kv' = Inr (Some b)" for kv v kv' b
    using validate_delta_ok [of lp lc v b]
    by (auto simp: writePortfolioUniverseDelta_def readPortfolioUniverseDelta_def readJson_def
        bindE_Inr validate_delta_object)
  show "writePortfolioUniverseDelta lp lc kv v = Inr (kv', b) \<Longrightarrow>
      k \<noteq> PORTFOLIO_UNIVERSE_DELTA_KV_KEY \<Longrightarrow> kv' k = kv k" for kv v kv' b k
    by (auto simp: writePortfolioUniverseDelta_def bindE_Inr)
  show "kv PORTFOLIO_UNIVERSE_DELTA_KV_KEY = kv' PORTFOLIO_UNIVERSE_DELTA_KV_KEY \<Longrightarrow>
      readPortfolioUniverseDelta lp lc kv = readPortfolioUniverseDelta lp lc kv'" for kv kv'
    by (simp add: readPortfolioUniverseDelta_def readJson_local [of kv _ kv'])
qed

lemma validateObservation_ok:
  assumes "comparator lc" "validateObservation lp lc o' = Inr n"
  shows "no_state n = ob_state o'" "no_complete_hash n = ob_complete_hash o'"
    "no_observed_at n = ob_observed_at o'" "is_sha256 (no_complete_hash n)"
    "stamp_ok lp (no_observed_at n)" "codes_ok lc (no_active_codes n)"
  using assms(2) canonicalPortfolioCodes_ok [OF assms(1)]
  by (auto simp: validateObservation_def bindE_Inr assertSha256_ok assertStamp_ok stamp_ok_def)

lemma raw_delta_ok:
  assumes "comparator lc" "codes_ok lc (cb_codes b)" "codes_ok lc (no_active_codes n)"
    and "is_sha256 (cb_complete_hash b)" "is_sha256 (no_complete_hash n)"
    and "cb_complete_hash b \<noteq> no_complete_hash n" "stamp_ok lp (no_observed_at n)"
  shows "delta_ok lp lc (raw_delta b n)"
  using assms comparator.sort_filter [OF assms(1)]
  by (auto simp: delta_ok_def raw_delta_def codes_ok_def list_all_iff)

lemma compare_self [simp]: "compareObservationTime lp t t = 0"
  by (simp add: compareObservationTime_def split: option.splits)

lemma next_baseline_ok:
  assumes "codes_ok lc (no_active_codes n)" "is_sha256 (no_complete_hash n)" "stamp_ok lp (no_observed_at n)"
  shows "baseline_ok lp lc (next_complete_baseline n)"
  using assms by (simp add: baseline_ok_def next_complete_baseline_def)

lemma compare_trans:
  "stamp_ok lp a \<Longrightarrow> stamp_ok lp b \<Longrightarrow> stamp_ok lp c \<Longrightarrow>
   0 \<le> compareObservationTime lp a b \<Longrightarrow> 0 \<le> compareObservationTime lp b c \<Longrightarrow>
   0 \<le> compareObservationTime lp a c"
  by (auto simp: compareObservationTime_def stamp_ok_def split: option.splits)

lemma break_continuity_ok:
  assumes "baseline_ok lp lc b" "is_sha256 (no_complete_hash n)" "stamp_ok lp (no_observed_at n)"
    and "no_state n \<noteq> LIVE_COMPLETE" "0 \<le> compareObservationTime lp (no_observed_at n) (cb_last_observed_at b)"
  shows "baseline_ok lp lc (break_continuity b n)"
  using assms compare_trans [OF assms(3), of "cb_last_observed_at b" "cb_observed_at b"]
  by (auto simp: baseline_ok_def break_continuity_def)

text \<open>The reducer on validated inputs, by cases; it never rejects there.\<close>

lemma reduce_with_baseline_eq:
  assumes "comparator lc" "baseline_ok lp lc b" "codes_ok lc (no_active_codes n)"
    and "is_sha256 (no_complete_hash n)" "stamp_ok lp (no_observed_at n)"
  shows "reduce_with_baseline lp lc b n =
    Inr (if compareObservationTime lp (no_observed_at n) (cb_last_observed_at b) < 0 then (Some b, None)
      else if no_state n \<noteq> LIVE_COMPLETE then (Some (break_continuity b n), None)
      else (Some (next_complete_baseline n),
        if cb_eligible b \<and> cb_complete_hash b \<noteq> no_complete_hash n
           \<and> \<not> (compareObservationTime lp (no_observed_at n) (cb_last_observed_at b) = 0
                \<and> no_complete_hash n \<noteq> cb_last_observed_hash b)
        then Some (raw_delta b n) else None))"
proof -
  have v: "cb_complete_hash b \<noteq> no_complete_hash n \<Longrightarrow>
      validatePortfolioUniverseDelta lp lc (JObj (delta_object (raw_delta b n))) = Inr (raw_delta b n)"
    using raw_delta_ok [OF assms(1), of b n lp] assms(2-5)
    by (simp add: validate_delta_object baseline_ok_def)
  have "cb_eligible b \<longleftrightarrow> cb_last_state b = LIVE_COMPLETE"
    using assms(2) by (simp add: baseline_ok_def)
  then show ?thesis using v by (auto simp: reduce_with_baseline_def Let_def)
qed

lemma reduce_Inr:
  assumes "comparator lc" "reducePortfolioUniverseDelta lp lc prev o' = Inr (nb, d)"
  obtains n where "validateObservation lp lc o' = Inr n"
    and "case prev of None \<Rightarrow> d = None \<and> nb = (if no_state n \<noteq> LIVE_COMPLETE then None
                                            else Some (next_complete_baseline n))
         | Some b \<Rightarrow> baseline_ok lp lc b \<and> reduce_with_baseline lp lc b n = Inr (nb, d)"
  using assms by (auto simp: reducePortfolioUniverseDelta_def bindE_Inr validate_baseline_object
      split: option.splits if_splits)

text \<open>What the reducer returns is valid.\<close>

lemma reduce_valid:
  assumes "comparator lc" "reducePortfolioUniverseDelta lp lc prev o' = Inr (nb, d)"
  shows "nb = Some b' \<Longrightarrow> baseline_ok lp lc b'" "d = Some x \<Longrightarrow> delta_ok lp lc x"
proof -
  obtain n where n: "validateObservation lp lc o' = Inr n"
    and c: "case prev of None \<Rightarrow> d = None \<and> nb = (if no_state n \<noteq> LIVE_COMPLETE then None
                                            else Some (next_complete_baseline n))
         | Some b \<Rightarrow> baseline_ok lp lc b \<and> reduce_with_baseline lp lc b n = Inr (nb, d)"
    by (rule reduce_Inr [OF assms])
  note v = validateObservation_ok [OF assms(1) n]
  note nx = next_baseline_ok [OF v(6,4,5)]
  have "(nb = Some b' \<longrightarrow> baseline_ok lp lc b') \<and> (d = Some x \<longrightarrow> delta_ok lp lc x)"
  proof (cases prev)
    case None
    with c nx show ?thesis by (auto split: if_splits)
  next
    case (Some b)
    with c have b: "baseline_ok lp lc b" "reduce_with_baseline lp lc b n = Inr (nb, d)" by auto
    have "cb_complete_hash b \<noteq> no_complete_hash n \<Longrightarrow> delta_ok lp lc (raw_delta b n)"
      using raw_delta_ok [OF assms(1) _ v(6) _ v(4) _ v(5)] b(1) by (auto simp: baseline_ok_def)
    then show ?thesis
      using b(2) nx break_continuity_ok [OF b(1) v(4,5)] b(1)
      unfolding reduce_with_baseline_eq [OF assms(1) b(1) v(6,4,5)]
      by (auto split: if_splits)
  qed
  then show "nb = Some b' \<Longrightarrow> baseline_ok lp lc b'" "d = Some x \<Longrightarrow> delta_ok lp lc x" by auto
qed

text \<open>Reducing the same observation once more changes nothing and yields no event.\<close>

lemma reduce_again:
  assumes "comparator lc" "reducePortfolioUniverseDelta lp lc prev o' = Inr (nb, d)"
  shows "reducePortfolioUniverseDelta lp lc nb o' = Inr (nb, None)"
proof -
  obtain n where n: "validateObservation lp lc o' = Inr n"
    and c: "case prev of None \<Rightarrow> d = None \<and> nb = (if no_state n \<noteq> LIVE_COMPLETE then None
                                            else Some (next_complete_baseline n))
         | Some b \<Rightarrow> baseline_ok lp lc b \<and> reduce_with_baseline lp lc b n = Inr (nb, d)"
    by (rule reduce_Inr [OF assms])
  note v = validateObservation_ok [OF assms(1) n]
  have step: "reducePortfolioUniverseDelta lp lc (Some b1) o' = reduce_with_baseline lp lc b1 n"
    if "baseline_ok lp lc b1" for b1
    using that n validate_baseline_object [of lp lc b1 b1] by (simp add: reducePortfolioUniverseDelta_def)
  note eq = reduce_with_baseline_eq [OF assms(1) _ v(6,4,5)]
  show ?thesis
  proof (cases nb)
    case None
    then show ?thesis
      using n c by (cases prev) (auto simp: reducePortfolioUniverseDelta_def
          reduce_with_baseline_eq [OF assms(1) _ v(6,4,5)] split: if_splits)
  next
    case (Some b1)
    then have ok: "baseline_ok lp lc b1" using reduce_valid(1) [OF assms] by simp
    consider "prev = Some b1" "compareObservationTime lp (no_observed_at n) (cb_last_observed_at b1) < 0"
      | b where "no_state n \<noteq> LIVE_COMPLETE" "b1 = break_continuity b n"
      | "no_state n = LIVE_COMPLETE" "b1 = next_complete_baseline n"
      using c Some by (cases prev) (auto simp: eq split: if_splits)
    then have "reduce_with_baseline lp lc b1 n = Inr (Some b1, None)"
    proof cases
      case (2 b)
      have "cb_last_observed_at b1 = no_observed_at n" "break_continuity b1 n = b1"
        using 2 by (simp_all add: break_continuity_def)
      then show ?thesis using 2(1) by (simp add: eq [OF ok])
    next
      case 3
      have "cb_last_observed_at b1 = no_observed_at n" "cb_complete_hash b1 = no_complete_hash n"
        using 3 by (simp_all add: next_complete_baseline_def)
      then show ?thesis using 3(1) by (simp add: eq [OF ok] 3(2) [symmetric])
    qed (simp add: eq [OF ok])
    then show ?thesis using step [OF ok] Some by simp
  qed
qed

text \<open>A witness's data: one complete baseline and a later complete observation.\<close>

definition sample_hash :: "char \<Rightarrow> string" where
  "sample_hash c = ''sha256:'' @ replicate 64 c"

definition sample_baseline :: complete_baseline where
  "sample_baseline = \<lparr>cb_complete_hash = sample_hash CHR ''a'', cb_codes = [''CN:000001'', ''CN:000002''],
     cb_observed_at = ''1970-01-01T00:00:00.000Z'', cb_eligible = True, cb_last_state = LIVE_COMPLETE,
     cb_last_observed_hash = sample_hash CHR ''a'', cb_last_observed_at = ''1970-01-01T00:00:00.000Z''\<rparr>"

definition sample_observation :: "portfolio_state \<Rightarrow> observation" where
  "sample_observation s = \<lparr>ob_state = s, ob_complete_hash = sample_hash CHR ''b'',
     ob_active_codes = [JStr ''HK:00700'', JStr ''CN:000002''], ob_observed_at = ''1970-01-01T00:00:01.000Z''\<rparr>"

definition sample_delta :: universe_delta where
  "sample_delta = \<lparr>ud_previous_hash = sample_hash CHR ''a'', ud_current_hash = sample_hash CHR ''b'',
     ud_added = [''HK:00700''], ud_removed = [''CN:000001''], ud_observed_at = ''1970-01-01T00:00:01.000Z''\<rparr>"

definition sample_next :: complete_baseline where
  "sample_next = \<lparr>cb_complete_hash = sample_hash CHR ''b'', cb_codes = [''CN:000002'', ''HK:00700''],
     cb_observed_at = ''1970-01-01T00:00:01.000Z'', cb_eligible = True, cb_last_state = LIVE_COMPLETE,
     cb_last_observed_hash = sample_hash CHR ''b'', cb_last_observed_at = ''1970-01-01T00:00:01.000Z''\<rparr>"

definition sample_broken :: complete_baseline where
  "sample_broken = sample_baseline\<lparr>cb_eligible := False, cb_last_state := LKG_VALID,
     cb_last_observed_hash := sample_hash CHR ''b'', cb_last_observed_at := ''1970-01-01T00:00:01.000Z''\<rparr>"

lemma sample_reduce:
  "reducePortfolioUniverseDelta (\<lambda>_. None) cu_cmp (Some sample_baseline) (sample_observation LIVE_COMPLETE)
     = Inr (Some sample_next, Some sample_delta)"
  "reducePortfolioUniverseDelta (\<lambda>_. None) cu_cmp (Some sample_baseline) (sample_observation LKG_VALID)
     = Inr (Some sample_broken, None)"
  "reducePortfolioUniverseDelta (\<lambda>_. None) cu_cmp (Some sample_broken) (sample_observation LIVE_COMPLETE)
     = Inr (Some sample_next, None)"
  by code_simp+

text \<open>The handler as a whole, when every write succeeds, and what a failed one leaves behind.\<close>

abbreviation all_ok :: "string \<Rightarrow> bool" where
  "all_ok \<equiv> \<lambda>_. True"

lemma try_put_ok:
  "try_put put_ok k kv outcome = (kv', Inr u) \<longleftrightarrow> (\<exists>a. outcome = Inr (kv', a) \<and> put_ok k)"
  by (auto simp: try_put_def split: sum.splits)

definition put_delta :: "universe_delta option \<Rightarrow> kv \<Rightarrow> kv" where
  "put_delta d kv = (case d of None \<Rightarrow> kv
     | Some x \<Rightarrow> kv(PORTFOLIO_UNIVERSE_DELTA_KV_KEY \<mapsto> JsonText (JObj (delta_object x))))"

definition put_baseline :: "complete_baseline option \<Rightarrow> kv \<Rightarrow> kv" where
  "put_baseline b kv = (case b of None \<Rightarrow> kv
     | Some x \<Rightarrow> kv(PORTFOLIO_UNIVERSE_BASELINE_KV_KEY \<mapsto> JsonText (JObj (baseline_object x))))"

lemma keys_differ [simp]:
  "PORTFOLIO_UNIVERSE_BASELINE_KV_KEY \<noteq> PORTFOLIO_UNIVERSE_DELTA_KV_KEY"
  "PORTFOLIO_UNIVERSE_DELTA_KV_KEY \<noteq> PORTFOLIO_UNIVERSE_BASELINE_KV_KEY"
  by (simp_all add: PORTFOLIO_UNIVERSE_BASELINE_KV_KEY_def PORTFOLIO_UNIVERSE_DELTA_KV_KEY_def)

lemma put_again:
  "put_delta d (put_delta d kv) = put_delta d kv"
  "put_baseline b (put_baseline b kv) = put_baseline b kv"
  by (auto simp: put_delta_def put_baseline_def split: option.splits)

lemma write_valid:
  "delta_ok lp lc x \<Longrightarrow> writePortfolioUniverseDelta lp lc kv (JObj (delta_object x)) = Inr (put_delta (Some x) kv, x)"
  "baseline_ok lp lc b \<Longrightarrow> writePortfolioCompleteBaseline lp lc kv (JObj (baseline_object b)) = Inr (put_baseline (Some b) kv, b)"
  using validate_delta_object [of lp lc x x] validate_baseline_object [of lp lc b b]
  by (simp_all add: writePortfolioUniverseDelta_def writePortfolioCompleteBaseline_def put_delta_def put_baseline_def)

lemma put_delta_reads:
  "readPortfolioCompleteBaseline lp lc (put_delta d kv) = readPortfolioCompleteBaseline lp lc kv"
  by (rule baseline_doc.read_local) (simp add: put_delta_def split: option.splits)

lemma put_baseline_reads:
  "readPortfolioUniverseDelta lp lc (put_baseline b kv) = readPortfolioUniverseDelta lp lc kv"
  by (rule delta_doc.read_local) (simp add: put_baseline_def split: option.splits)

lemma read_put_delta:
  "(\<And>x. d = Some x \<Longrightarrow> delta_ok lp lc x) \<Longrightarrow> readPortfolioUniverseDelta lp lc kv = Inr old \<Longrightarrow>
   \<exists>y. readPortfolioUniverseDelta lp lc (put_delta d kv) = Inr y"
  using delta_doc.read_write [OF write_valid(1)] by (cases d) (auto simp: put_delta_def)

lemma read_put_baseline:
  "(\<And>x. b = Some x \<Longrightarrow> baseline_ok lp lc x) \<Longrightarrow> readPortfolioCompleteBaseline lp lc kv = Inr old \<Longrightarrow>
   readPortfolioCompleteBaseline lp lc (put_baseline b kv) = Inr (if b = None then old else b)"
  using baseline_doc.read_write [OF write_valid(2)] by (cases b) (auto simp: put_baseline_def)

lemma record_eq:
  assumes "comparator lc" "readPortfolioCompleteBaseline lp lc kv = Inr prev"
    and "readPortfolioUniverseDelta lp lc kv = Inr old"
    and "reducePortfolioUniverseDelta lp lc prev o' = Inr (nb, d)"
  shows "recordPortfolioUniverseObservation lp lc put_ok kv o' =
    (if d \<noteq> None \<and> \<not> put_ok PORTFOLIO_UNIVERSE_DELTA_KV_KEY then (kv, Inl ''KV put failed'')
     else if nb \<noteq> None \<and> \<not> put_ok PORTFOLIO_UNIVERSE_BASELINE_KV_KEY
     then (put_delta d kv, Inl ''KV put failed'')
     else (put_baseline nb (put_delta d kv), Inr d))"
  using assms(2-4) reduce_valid [OF assms(1,4)]
  by (cases d; cases nb)
    (auto simp: recordPortfolioUniverseObservation_def try_put_def write_valid put_delta_def put_baseline_def)

lemma record_Inr:
  assumes "recordPortfolioUniverseObservation lp lc put_ok kv o' = (kv2, Inr r)"
  obtains prev old nb d where "readPortfolioCompleteBaseline lp lc kv = Inr prev"
    and "readPortfolioUniverseDelta lp lc kv = Inr old"
    and "reducePortfolioUniverseDelta lp lc prev o' = Inr (nb, d)"
  using assms by (auto simp: recordPortfolioUniverseObservation_def bindE_Inr split: sum.splits)

lemma reduce_previous:
  "reducePortfolioUniverseDelta lp lc (Some b) o' \<noteq> Inr (None, d)"
  by (auto simp: reducePortfolioUniverseDelta_def reduce_with_baseline_def Let_def bindE_Inr split: if_splits)

lemma sample_validate:
  "validateObservation (\<lambda>_. None) cu_cmp (sample_observation LIVE_COMPLETE) =
     Inr \<lparr>no_state = LIVE_COMPLETE, no_complete_hash = sample_hash CHR ''b'',
       no_active_codes = [''CN:000002'', ''HK:00700''], no_observed_at = ''1970-01-01T00:00:01.000Z''\<rparr>"
  by code_simp

section \<open>Properties\<close>

text \<open>C32: an emitted delta is exact: it arises only between two LIVE_COMPLETE observations with
  no gap between them, and its added and removed codes are the set differences of the new and
  the previous codes, disjoint, with differing hashes; applying it to the previous codes gives
  exactly the new ones.\<close>

theorem reduce_delta_exact:
  assumes "comparator lc" "reducePortfolioUniverseDelta lp lc prev o' = Inr (nb, Some d)"
  shows "\<exists>b n. prev = Some b \<and> cb_eligible b \<and> cb_last_state b = LIVE_COMPLETE
    \<and> ob_state o' = LIVE_COMPLETE \<and> validateObservation lp lc o' = Inr n
    \<and> nb = Some (next_complete_baseline n)
    \<and> set (ud_added d) = set (no_active_codes n) - set (cb_codes b)
    \<and> set (ud_removed d) = set (cb_codes b) - set (no_active_codes n)
    \<and> (set (cb_codes b) - set (ud_removed d)) \<union> set (ud_added d) = set (no_active_codes n)
    \<and> ud_previous_hash d = cb_complete_hash b \<and> ud_current_hash d = ob_complete_hash o'
    \<and> ud_previous_hash d \<noteq> ud_current_hash d"
proof -
  obtain n where n: "validateObservation lp lc o' = Inr n"
    and c: "case prev of None \<Rightarrow> Some d = None \<and> nb = (if no_state n \<noteq> LIVE_COMPLETE then None
                                            else Some (next_complete_baseline n))
         | Some b \<Rightarrow> baseline_ok lp lc b \<and> reduce_with_baseline lp lc b n = Inr (nb, Some d)"
    by (rule reduce_Inr [OF assms])
  then obtain b where b: "prev = Some b" "baseline_ok lp lc b"
    "reduce_with_baseline lp lc b n = Inr (nb, Some d)"
    by (auto split: option.splits)
  note v = validateObservation_ok [OF assms(1) n]
  have "cb_eligible b" "no_state n = LIVE_COMPLETE" "cb_complete_hash b \<noteq> no_complete_hash n"
    "d = raw_delta b n" "nb = Some (next_complete_baseline n)"
    using b(3) unfolding reduce_with_baseline_eq [OF assms(1) b(2) v(6,4,5)]
    by (auto split: if_splits)
  moreover have "cb_last_state b = LIVE_COMPLETE"
    using \<open>cb_eligible b\<close> b(2) by (simp add: baseline_ok_def)
  ultimately show ?thesis using b(1) n v(1,2) by (auto simp: raw_delta_def)
qed

theorem reduce_delta_exact_witness:
  "set (ud_added sample_delta) = {''HK:00700''} \<and> set (ud_removed sample_delta) = {''CN:000001''}
   \<and> ud_current_hash sample_delta = sample_hash CHR ''b''"
proof -
  obtain b n where b: "Some sample_baseline = Some b"
    and n: "validateObservation (\<lambda>_. None) cu_cmp (sample_observation LIVE_COMPLETE) = Inr n"
    and d: "set (ud_added sample_delta) = set (no_active_codes n) - set (cb_codes b)"
      "set (ud_removed sample_delta) = set (cb_codes b) - set (no_active_codes n)"
      "ud_current_hash sample_delta = ob_complete_hash (sample_observation LIVE_COMPLETE)"
    using reduce_delta_exact [OF cu.comparator_axioms sample_reduce(1)] by blast
  have "no_active_codes n = [''CN:000002'', ''HK:00700'']"
    using arg_cong [OF n [unfolded sample_validate sum.inject], of no_active_codes] by simp
  moreover have "cb_codes b = [''CN:000001'', ''CN:000002'']"
    using arg_cong [OF b [unfolded option.inject], of cb_codes] by (simp add: sample_baseline_def)
  ultimately show ?thesis unfolding d by (simp add: sample_observation_def insert_Diff_if)
qed

text \<open>An observation that is not LIVE_COMPLETE never yields a delta, keeps the codes and the
  hash of the last complete baseline, and breaks continuity unless it is older than the last
  one seen; after such a break the next complete observation yields no delta either, so no
  removal is inferred across a gap.\<close>

theorem reduce_gap_no_delta:
  assumes "comparator lc" "ob_state o1 \<noteq> LIVE_COMPLETE"
    and "reducePortfolioUniverseDelta lp lc (Some b) o1 = Inr (nb, d1)"
    and "0 \<le> compareObservationTime lp (ob_observed_at o1) (cb_last_observed_at b)"
    and "reducePortfolioUniverseDelta lp lc nb o2 = Inr (nb2, d2)"
  shows "d1 = None \<and> d2 = None
    \<and> (\<exists>b1. nb = Some b1 \<and> cb_codes b1 = cb_codes b \<and> cb_complete_hash b1 = cb_complete_hash b
         \<and> \<not> cb_eligible b1)"
proof -
  obtain n1 where n1: "validateObservation lp lc o1 = Inr n1"
    and r1: "baseline_ok lp lc b" "reduce_with_baseline lp lc b n1 = Inr (nb, d1)"
    using reduce_Inr [OF assms(1,3)] by auto
  note v1 = validateObservation_ok [OF assms(1) n1]
  have 1: "nb = Some (break_continuity b n1)" "d1 = None"
    using r1(2) assms(2,4) v1(1,3) unfolding reduce_with_baseline_eq [OF assms(1) r1(1) v1(6,4,5)]
    by auto
  obtain n2 where n2: "validateObservation lp lc o2 = Inr n2"
    and r2: "baseline_ok lp lc (break_continuity b n1)"
      "reduce_with_baseline lp lc (break_continuity b n1) n2 = Inr (nb2, d2)"
    using reduce_Inr [OF assms(1,5)] by (auto simp: 1)
  note v2 = validateObservation_ok [OF assms(1) n2]
  have "d2 = None"
    using r2(2) unfolding reduce_with_baseline_eq [OF assms(1) r2(1) v2(6,4,5)]
    by (auto simp: break_continuity_def split: if_splits)
  with 1 show ?thesis by (auto simp: break_continuity_def)
qed

theorem reduce_gap_no_delta_witness:
  "reducePortfolioUniverseDelta (\<lambda>_. None) cu_cmp (Some sample_broken) (sample_observation LIVE_COMPLETE)
     = Inr (Some sample_next, None) \<and> cb_codes sample_broken = cb_codes sample_baseline
   \<and> \<not> cb_eligible sample_broken"
proof -
  have "0 \<le> compareObservationTime (\<lambda>_. None) (ob_observed_at (sample_observation LKG_VALID))
      (cb_last_observed_at sample_baseline)"
    by code_simp
  from reduce_gap_no_delta [OF cu.comparator_axioms _ sample_reduce(2) this sample_reduce(3)]
  show ?thesis using sample_reduce(3) by (simp add: sample_observation_def)
qed

text \<open>The reducer keeps its state valid: the baseline it returns and any delta pass their own
  strict validators unchanged, so what is persisted can always be read back.\<close>

theorem reduce_preserves_validity:
  assumes "comparator lc" "reducePortfolioUniverseDelta lp lc prev o' = Inr (nb, d)"
  shows "(\<forall>b. nb = Some b \<longrightarrow> validatePortfolioCompleteBaseline lp lc (JObj (baseline_object b)) = Inr b)
    \<and> (\<forall>x. d = Some x \<longrightarrow> validatePortfolioUniverseDelta lp lc (JObj (delta_object x)) = Inr x)"
  using reduce_valid [OF assms] by (simp add: validate_baseline_object validate_delta_object)

theorem reduce_preserves_validity_witness:
  "validatePortfolioCompleteBaseline (\<lambda>_. None) cu_cmp (JObj (baseline_object sample_next)) = Inr sample_next
   \<and> validatePortfolioUniverseDelta (\<lambda>_. None) cu_cmp (JObj (delta_object sample_delta)) = Inr sample_delta"
  using reduce_preserves_validity [OF cu.comparator_axioms sample_reduce(1)] by simp

text \<open>The handler survives a failing write: wherever the delta or the baseline put of a call
  fails, repeating the call with the same observation ends in the state and the event that an
  undisturbed call produces, and repeating it after it succeeded changes nothing and reports no
  event, so an observation is never lost and its event never doubled.\<close>

theorem record_replay_safe:
  assumes "comparator lc" "recordPortfolioUniverseObservation lp lc all_ok kv o' = (kv2, Inr d)"
    and "recordPortfolioUniverseObservation lp lc put_ok kv o' = (kv1, r)"
  shows "(case r of Inl _ \<Rightarrow> recordPortfolioUniverseObservation lp lc all_ok kv1 o' = (kv2, Inr d)
          | Inr e \<Rightarrow> kv1 = kv2 \<and> e = d)
    \<and> recordPortfolioUniverseObservation lp lc all_ok kv2 o' = (kv2, Inr None)"
proof -
  obtain prev old nb d' where rd: "readPortfolioCompleteBaseline lp lc kv = Inr prev"
    "readPortfolioUniverseDelta lp lc kv = Inr old"
    and red: "reducePortfolioUniverseDelta lp lc prev o' = Inr (nb, d')"
    by (rule record_Inr [OF assms(2)])
  note full = record_eq [OF assms(1) rd red]
  have d: "d' = d" "kv2 = put_baseline nb (put_delta d kv)"
    using assms(2) by (auto simp: full)
  note valid = reduce_valid [OF assms(1) red [unfolded d(1)]]
  obtain old' where old': "readPortfolioUniverseDelta lp lc (put_delta d kv) = Inr old'"
    using read_put_delta [OF valid(2) rd(2)] by blast
  note mid = record_eq [OF assms(1) _ old' red [unfolded d(1)], unfolded put_delta_reads, OF rd(1)]
  have nb: "prev = None" if "nb = None"
    using red that by (cases prev) (auto simp: reduce_previous)
  have last: "readPortfolioCompleteBaseline lp lc kv2 = Inr nb"
    using read_put_baseline [OF valid(1), of nb "put_delta d kv" prev] rd(1) nb
    by (auto simp: d(2) put_delta_reads)
  have "readPortfolioUniverseDelta lp lc kv2 = Inr old'"
    using old' by (simp add: d(2) put_baseline_reads)
  note again = record_eq [OF assms(1) last this reduce_again [OF assms(1) red]]
  have "put_baseline nb (put_delta None kv2) = kv2"
    by (simp add: d(2) put_again put_delta_def)
  with again have 2: "recordPortfolioUniverseObservation lp lc all_ok kv2 o' = (kv2, Inr None)"
    by simp
  have "kv1 = kv \<or> kv1 = put_delta d kv" if "r = Inl e" for e
    using assms(3) that by (auto simp: full d(1) split: if_splits)
  moreover have "kv1 = kv2 \<and> e = d" if "r = Inr e" for e
    using assms(3) that by (auto simp: full d split: if_splits)
  ultimately show ?thesis
    using assms(2) mid [of all_ok] 2 by (auto simp: d(2) put_again split: sum.splits)
qed

theorem record_replay_safe_witness:
  "recordPortfolioUniverseObservation (\<lambda>_. None) cu_cmp all_ok
      (put_delta (Some sample_delta) (put_baseline (Some sample_baseline) Map.empty)) (sample_observation LIVE_COMPLETE)
    = (put_baseline (Some sample_next) (put_delta (Some sample_delta)
        (put_baseline (Some sample_baseline) Map.empty)), Inr (Some sample_delta))"
proof -
  let ?kv = "put_baseline (Some sample_baseline) Map.empty"
  have ok: "baseline_ok (\<lambda>_. None) cu_cmp sample_baseline" by code_simp
  have e: "readPortfolioCompleteBaseline (\<lambda>_. None) cu_cmp Map.empty = Inr None"
    "readPortfolioUniverseDelta (\<lambda>_. None) cu_cmp Map.empty = Inr None"
    by (simp_all add: readPortfolioCompleteBaseline_def readPortfolioUniverseDelta_def readJson_def)
  have "readPortfolioCompleteBaseline (\<lambda>_. None) cu_cmp ?kv = Inr (Some sample_baseline)"
    using read_put_baseline [of "Some sample_baseline", OF _ e(1)] ok by simp
  note rec = record_eq [OF cu.comparator_axioms this _ sample_reduce(1), unfolded put_baseline_reads, OF e(2)]
  have "recordPortfolioUniverseObservation (\<lambda>_. None) cu_cmp all_ok ?kv (sample_observation LIVE_COMPLETE)
      = (put_baseline (Some sample_next) (put_delta (Some sample_delta) ?kv), Inr (Some sample_delta))"
    by (simp add: rec)
  note replay = record_replay_safe [OF cu.comparator_axioms this]
  have "recordPortfolioUniverseObservation (\<lambda>_. None) cu_cmp (\<lambda>k. k = PORTFOLIO_UNIVERSE_DELTA_KV_KEY) ?kv
      (sample_observation LIVE_COMPLETE) = (put_delta (Some sample_delta) ?kv, Inl ''KV put failed'')"
    by (simp add: rec)
  from replay [OF this] show ?thesis by simp
qed

end
