(* ===== verification/Portfolio_Validation.thy ===== *)
theory Portfolio_Validation
  imports Js_Prelude
begin

text \<open>
  \<open>src/src/portfolio-validation.ts\<close>: the contract of a quote snapshot. A row is an open object
  (\<open>[key: string]: unknown\<close>), so it stays a \<^typ>\<open>jsobj\<close>; the snapshot is split into the three
  fields the code iterates over and the rest. \<open>validateSnapshot\<close> asserts the type of its
  argument: it returns the narrowed view of it.
\<close>

section \<open>Data\<close>

type_synonym quote_stock = jsobj

record quote_snapshot =
  qs_fields :: jsobj
  qs_summary :: jsobj
  qs_stocks :: "quote_stock list"
  qs_universe :: "jsobj list"

record snapshot_counts =
  sc_total :: nat
  sc_active_quote :: nat
  sc_active_holding :: nat
  sc_watch :: nat
  sc_exited_watch :: nat
  sc_core :: nat
  sc_growth :: nat
  sc_mapping :: nat

record validation_options =
  vo_expected_active :: "int option"
  vo_require_watch :: bool

definition GROUPS :: "string list" where
  "GROUPS = [''Core'', ''Growth'', ''Watch'']"

definition PORTFOLIO_GROUPS :: "string list" where
  "PORTFOLIO_GROUPS = [''core'', ''growth'', ''watch'', ''mapping'']"

definition PORTFOLIO_STATUSES :: "string list" where
  "PORTFOLIO_STATUSES = [''CORE'', ''GROWTH'', ''WATCH'']"

definition HOLDING_STATUSES :: "string list" where
  "HOLDING_STATUSES = [''ACTIVE'', ''MAPPING_ONLY'', ''WATCH'']"

definition MARKETS :: "string list" where
  "MARKETS = [''CN'', ''HK'']"

definition EXCHANGES :: "string list" where
  "EXCHANGES = [''SZ'', ''SH'', ''HK'']"

definition UNIVERSE_FIELDS :: "string list" where
  "UNIVERSE_FIELDS = [''code'', ''market'', ''exchange'', ''name'', ''group'', ''portfolio_group'',
     ''portfolio_status'', ''holding_status'', ''mapping_only'', ''mapped_to'', ''mapping_to'',
     ''position_qty'', ''is_position'']"

definition REQUIRED_STOCK_FIELDS :: "string list" where
  "REQUIRED_STOCK_FIELDS =
     [''code'', ''market'', ''exchange'', ''name'', ''group'', ''portfolio_group'',
      ''portfolio_status'', ''holding_status'', ''mapping_only'', ''mapped_to'', ''mapping_to'',
      ''position_qty'', ''is_position'', ''price'', ''change'', ''change_pct'', ''pre_close'',
      ''prev_close'', ''open'', ''high'', ''low'', ''pct_change'', ''volume'', ''amount'',
      ''market_status'', ''market_data_time'', ''source_update_time'', ''freshness_basis'',
      ''quote_time'', ''fetch_time'', ''age_seconds'', ''primary_source'', ''secondary_source'',
      ''source_status'', ''quality'']"

definition DERIVED_SUMMARY_FIELDS :: "string list" where
  "DERIVED_SUMMARY_FIELDS = [''active_quote_total'', ''active_holding_total'', ''watch_total'',
     ''exited_watch_total'', ''mapping_total'', ''core_total'', ''growth_total'']"

section \<open>Rows\<close>

definition requireString :: "jsobj \<Rightarrow> string \<Rightarrow> string \<Rightarrow> string result" where
  "requireString record' field context' =
     (case as_string (fld record' field) of
        None \<Rightarrow> Inl (context' @ ''.'' @ field @ '' must be a non-empty string'')
      | Some s \<Rightarrow> if s = '''' then Inl (context' @ ''.'' @ field @ '' must be a non-empty string'')
                  else Inr s)"

definition instrumentKey :: "jsobj \<Rightarrow> string" where
  "instrumentKey stock = template (fld stock ''market'') @ '':'' @ template (fld stock ''code'')"

text \<open>\<open>typeof v !== "string" || !allowed.has(v)\<close>\<close>

definition outside :: "string list \<Rightarrow> jsval option \<Rightarrow> bool" where
  "outside allowed v = (case as_string v of None \<Rightarrow> True | Some s \<Rightarrow> s \<notin> set allowed)"

abbreviation is_str :: "jsval option \<Rightarrow> string \<Rightarrow> bool" where
  "is_str v s \<equiv> v = Some (JStr s)"

definition expected_broad_group :: "jsval option \<Rightarrow> string" where
  "expected_broad_group pg =
     (if is_str pg ''core'' \<or> is_str pg ''mapping'' then ''Core''
      else if is_str pg ''growth'' then ''Growth'' else ''Watch'')"

definition expected_portfolio_status :: "jsval option \<Rightarrow> jsval" where
  "expected_portfolio_status pg =
     (if is_str pg ''core'' then JStr ''CORE''
      else if is_str pg ''growth'' then JStr ''GROWTH''
      else if is_str pg ''watch'' then JStr ''WATCH'' else JNull)"

text \<open>\<open>positionQty !== null && (!isFiniteNumber(positionQty) || positionQty < 0)\<close>\<close>

definition bad_quantity :: "jsval option \<Rightarrow> bool" where
  "bad_quantity v = (v \<noteq> Some JNull \<and> (case as_finite v of None \<Rightarrow> True | Some q \<Rightarrow> q < 0))"

definition not_string_or_null :: "jsval option \<Rightarrow> bool" where
  "not_string_or_null v = (v \<noteq> Some JNull \<and> as_string v = None)"

definition validateClassification :: "jsobj \<Rightarrow> string \<Rightarrow> unit result" where
  "validateClassification stock context' =
     (let market = fld stock ''market''; exchange = fld stock ''exchange'';
          group = fld stock ''group''; pg = fld stock ''portfolio_group'';
          pst = fld stock ''portfolio_status''; hs = fld stock ''holding_status'';
          mo = fld stock ''mapping_only''; mappingTo = fld stock ''mapping_to'';
          mappedTo = fld stock ''mapped_to''; qty = fld stock ''position_qty'';
          pos = fld stock ''is_position''
      in throw_if
       [(outside MARKETS market, context' @ ''.market must be CN or HK''),
        (outside EXCHANGES exchange, context' @ ''.exchange must be SZ, SH, or HK''),
        (is_str market ''HK'' \<and> \<not> is_str exchange ''HK'' \<or> is_str market ''CN'' \<and> is_str exchange ''HK'',
           context' @ ''.market and exchange are inconsistent''),
        (outside GROUPS group, context' @ ''.group must be Core, Growth, or Watch''),
        (outside PORTFOLIO_GROUPS pg, context' @ ''.portfolio_group is invalid''),
        (pst \<noteq> Some JNull \<and> outside PORTFOLIO_STATUSES pst,
           context' @ ''.portfolio_status must be CORE, GROWTH, WATCH, or null''),
        (outside HOLDING_STATUSES hs, context' @ ''.holding_status is invalid''),
        (as_bool mo = None, context' @ ''.mapping_only must be boolean''),
        (\<not> is_str group (expected_broad_group pg), context' @ ''.group does not match portfolio_group''),
        (is_str pg ''mapping'' \<and> \<not> is_str hs ''MAPPING_ONLY'',
           context' @ ''.mapping rows must use holding_status=MAPPING_ONLY''),
        (\<not> is_str pg ''mapping'' \<and> is_str hs ''MAPPING_ONLY'',
           context' @ ''.MAPPING_ONLY is only valid for mapping rows''),
        (pst \<noteq> Some (expected_portfolio_status pg),
           context' @ ''.portfolio_status does not match portfolio_group''),
        (mo \<noteq> Some (JBool (is_str pg ''mapping'')),
           context' @ ''.mapping_only does not match portfolio_group''),
        (not_string_or_null mappingTo, context' @ ''.mapping_to must be a string or null''),
        (not_string_or_null mappedTo, context' @ ''.mapped_to must be a string or null''),
        (\<not> strict_eq mappingTo mappedTo, context' @ ''.mapping_to and mapped_to must match''),
        (is_str pg ''mapping'' \<and> (as_string mappingTo = None \<or> \<not> truthy mappingTo),
           context' @ ''.mapping records require a non-empty mapping_to''),
        (\<not> is_str pg ''mapping'' \<and> (mappingTo \<noteq> Some JNull \<or> mappedTo \<noteq> Some JNull),
           context' @ ''.mapping fields are only allowed for mapping records''),
        (bad_quantity qty, context' @ ''.position_qty must be null or a non-negative number''),
        (as_bool pos = None, context' @ ''.is_position must be boolean''),
        (pos \<noteq> Some (JBool (is_str hs ''ACTIVE'')),
           context' @ ''.holding_status and is_position are inconsistent''),
        (pos = Some (JBool False) \<and> qty \<noteq> Some (JNum (Fin 0)),
           context' @ ''.non-position rows must have position_qty=0''),
        (pos = Some (JBool True) \<and> qty \<noteq> Some JNull
           \<and> (case as_finite qty of None \<Rightarrow> False | Some q \<Rightarrow> q \<le> 0),
           context' @ ''.position_qty must be positive when supplied for a position'')])"

text \<open>\<open>for (const field of fields) { if (bad(field)) throw message(field); }\<close>\<close>

definition each_field :: "string list \<Rightarrow> (string \<Rightarrow> bool) \<Rightarrow> (string \<Rightarrow> string) \<Rightarrow> unit result" where
  "each_field names bad message = throw_if (map (\<lambda>f. (bad f, message f)) names)"

definition row_context :: "string \<Rightarrow> nat \<Rightarrow> string" where
  "row_context name i = name @ ''['' @ show_nat i @ '']''"

definition numericFields :: "string list" where
  "numericFields = [''price'', ''change'', ''change_pct'', ''pre_close'', ''prev_close'', ''open'',
     ''high'', ''low'', ''pct_change'', ''volume'', ''amount'', ''age_seconds'']"

definition validateStock :: "jsval \<Rightarrow> nat \<Rightarrow> quote_stock result" where
  "validateStock v index =
     (let c = row_context ''stocks'' index in
      case as_record v of None \<Rightarrow> Inl (c @ '' must be an object'')
      | Some ob \<Rightarrow>
      bindE (each_field REQUIRED_STOCK_FIELDS (\<lambda>f. \<not> has_key ob f) (\<lambda>f. c @ ''.'' @ f @ '' is required'')) (\<lambda>_.
      bindE (requireString ob ''code'' c) (\<lambda>_.
      bindE (requireString ob ''name'' c) (\<lambda>_.
      bindE (validateClassification ob c) (\<lambda>_.
      bindE (each_field numericFields
        (\<lambda>f. as_finite (fld ob f) = None \<and> \<not> (\<not> truthy (fld ob ''is_position'') \<and> fld ob f = Some JNull))
        (\<lambda>f. c @ ''.'' @ f @ '' must be a finite number'')) (\<lambda>_.
      bindE (requireString ob ''market_status'' c) (\<lambda>_.
      bindE (requireString ob ''freshness_basis'' c) (\<lambda>_.
      bindE (requireString ob ''source_status'' c) (\<lambda>_.
      bindE (requireString ob ''quality'' c) (\<lambda>_.
      bindE (throw_if [(\<not> is_str (fld ob ''market_status'') ''OPEN'' \<and> \<not> is_str (fld ob ''market_status'') ''CLOSED'',
        c @ ''.market_status must be OPEN or CLOSED'')]) (\<lambda>_.
      bindE (each_field [''market_data_time'', ''quote_time'', ''source_update_time'']
        (\<lambda>f. not_string_or_null (fld ob f)) (\<lambda>f. c @ ''.'' @ f @ '' must be a string or null'')) (\<lambda>_.
      bindE (requireString ob ''fetch_time'' c) (\<lambda>_.
      bindE (each_field [''primary_source'', ''secondary_source'']
        (\<lambda>f. not_string_or_null (fld ob f)) (\<lambda>f. c @ ''.'' @ f @ '' must be a string or null'')) (\<lambda>_.
      Inr ob))))))))))))))"

definition validateUniverseItem :: "jsval \<Rightarrow> nat \<Rightarrow> jsobj result" where
  "validateUniverseItem v index =
     (let c = row_context ''portfolio_universe'' index in
      case as_record v of None \<Rightarrow> Inl (c @ '' must be an object'')
      | Some ob \<Rightarrow>
      bindE (each_field UNIVERSE_FIELDS (\<lambda>f. \<not> has_key ob f) (\<lambda>f. c @ ''.'' @ f @ '' is required'')) (\<lambda>_.
      bindE (requireString ob ''code'' c) (\<lambda>_.
      bindE (requireString ob ''name'' c) (\<lambda>_.
      bindE (validateClassification ob c) (\<lambda>_.
      Inr ob)))))"

section \<open>Counts and keys\<close>

definition in_group :: "string \<Rightarrow> quote_stock \<Rightarrow> bool" where
  "in_group g stock \<longleftrightarrow> is_str (fld stock ''portfolio_group'') g"

definition is_position :: "quote_stock \<Rightarrow> bool" where
  "is_position stock = truthy (fld stock ''is_position'')"

definition is_active_quote :: "quote_stock \<Rightarrow> bool" where
  "is_active_quote stock \<longleftrightarrow> is_position stock \<or> truthy (fld stock ''mapping_only'')"

definition count_stock :: "quote_stock \<Rightarrow> snapshot_counts \<Rightarrow> snapshot_counts" where
  "count_stock s c =
     c\<lparr>sc_core := sc_core c + of_bool (in_group ''core'' s),
       sc_growth := sc_growth c + of_bool (in_group ''growth'' s),
       sc_watch := sc_watch c + of_bool (in_group ''watch'' s),
       sc_mapping := sc_mapping c + of_bool (in_group ''mapping'' s),
       sc_active_quote := sc_active_quote c + of_bool (is_active_quote s),
       sc_active_holding := sc_active_holding c + of_bool (is_position s)\<rparr>"

definition getSnapshotCounts :: "quote_stock list \<Rightarrow> snapshot_counts" where
  "getSnapshotCounts stocks =
     fold count_stock stocks
       \<lparr>sc_total = length stocks, sc_active_quote = 0, sc_active_holding = 0, sc_watch = 0,
        sc_exited_watch = 0, sc_core = 0, sc_growth = 0, sc_mapping = 0\<rparr>"

definition getActiveQuoteCodes :: "quote_snapshot \<Rightarrow> jsval option list" where
  "getActiveQuoteCodes snapshot =
     map (\<lambda>s. fld s ''code'') (filter is_active_quote (qs_stocks snapshot))"

definition getActiveQuoteKeys :: "quote_snapshot \<Rightarrow> string list" where
  "getActiveQuoteKeys snapshot = map instrumentKey (filter is_active_quote (qs_stocks snapshot))"

section \<open>The snapshot\<close>

definition compareUniverseToStock :: "jsobj \<Rightarrow> quote_stock \<Rightarrow> nat \<Rightarrow> unit result" where
  "compareUniverseToStock universe stock index =
     each_field UNIVERSE_FIELDS (\<lambda>f. \<not> strict_eq (fld universe f) (fld stock f))
       (\<lambda>f. row_context ''portfolio_universe'' index @ '' does not match stocks for ''
            @ instrumentKey stock @ '': '' @ f)"

text \<open>The map from instrument key to row, and the walk over the universe with its seen keys.\<close>

fun index_stocks :: "(string \<rightharpoonup> quote_stock) \<Rightarrow> quote_stock list \<Rightarrow> (string \<rightharpoonup> quote_stock) result" where
  "index_stocks m [] = Inr m"
| "index_stocks m (s # ss) =
     (if m (instrumentKey s) \<noteq> None then Inl (''duplicate instrument key: '' @ instrumentKey s)
      else index_stocks (m(instrumentKey s \<mapsto> s)) ss)"

fun check_universe ::
  "(string \<rightharpoonup> quote_stock) \<Rightarrow> string list \<Rightarrow> nat \<Rightarrow> jsobj list \<Rightarrow> unit result" where
  "check_universe m seen i [] = Inr ()"
| "check_universe m seen i (u # us) =
     (let k = instrumentKey u in
      if k \<in> set seen then Inl (''duplicate portfolio universe key: '' @ k)
      else case m k of
          None \<Rightarrow> Inl (''portfolio_universe instrument is missing from stocks: '' @ k)
        | Some s \<Rightarrow> bindE (compareUniverseToStock u s i) (\<lambda>_. check_universe m (k # seen) (Suc i) us))"

definition derived :: "snapshot_counts \<Rightarrow> string \<Rightarrow> nat" where
  "derived c f =
     (if f = ''active_quote_total'' then sc_active_quote c
      else if f = ''active_holding_total'' then sc_active_holding c
      else if f = ''watch_total'' then sc_watch c
      else if f = ''exited_watch_total'' then 0
      else if f = ''mapping_total'' then sc_mapping c
      else if f = ''core_total'' then sc_core c
      else sc_growth c)"

definition check_summary :: "jsobj \<Rightarrow> snapshot_counts \<Rightarrow> unit result" where
  "check_summary summary c =
     each_field DERIVED_SUMMARY_FIELDS
       (\<lambda>f. has_key summary f \<and> fld summary f \<noteq> Some (JInt (int (derived c f))))
       (\<lambda>f. ''summary.'' @ f @ '' does not match derived value '' @ show_nat (derived c f))"

definition nonempty_text :: "jsval option \<Rightarrow> bool" where
  "nonempty_text v \<longleftrightarrow> as_string v \<noteq> None \<and> truthy v"

definition non_negative_integer :: "jsval option \<Rightarrow> bool" where
  "non_negative_integer v = (case as_finite v of None \<Rightarrow> False | Some q \<Rightarrow> 0 \<le> q \<and> is_integer q)"

definition validateSnapshot :: "validation_options \<Rightarrow> jsval \<Rightarrow> quote_snapshot result" where
  "validateSnapshot options v =
     (case as_record v of None \<Rightarrow> Inl ''upstream returned non-object JSON''
      | Some ob \<Rightarrow>
      bindE (throw_if
        [(\<not> nonempty_text (fld ob ''portfolio_version''), ''portfolio_version must be a non-empty string''),
         (\<not> nonempty_text (fld ob ''snapshot_time''), ''upstream JSON missing required field: snapshot_time''),
         (\<not> nonempty_text (fld ob ''system_quality''), ''upstream JSON missing required field: system_quality'')]) (\<lambda>_.
      (case Option.bind (fld ob ''summary'') as_record of
         None \<Rightarrow> Inl ''upstream JSON missing required field: summary''
       | Some summary \<Rightarrow>
      bindE (throw_if [(\<not> non_negative_integer (fld summary ''total''),
        ''summary.total must be a non-negative integer'')]) (\<lambda>_.
      (case as_array (fld ob ''stocks'') of
         None \<Rightarrow> Inl ''upstream JSON missing required field: stocks''
       | Some rows \<Rightarrow>
      bindE (throw_if [(fld summary ''total'' \<noteq> Some (JInt (int (length rows))),
        ''summary.total='' @ template (fld summary ''total'') @ '' but stocks.length='' @ show_nat (length rows))]) (\<lambda>_.
      (case as_array (fld ob ''portfolio_universe'') of
         None \<Rightarrow> Inl ''upstream JSON missing required field: portfolio_universe''
       | Some items \<Rightarrow>
      bindE (mapE validateStock rows) (\<lambda>stocks.
      bindE (mapE validateUniverseItem items) (\<lambda>universe.
      bindE (throw_if [(length universe \<noteq> length stocks,
        ''portfolio_universe.length='' @ show_nat (length universe) @ '' but stocks.length='' @ show_nat (length stocks))]) (\<lambda>_.
      bindE (index_stocks Map.empty stocks) (\<lambda>stockByKey.
      bindE (check_universe stockByKey [] 0 universe) (\<lambda>_.
      (let counts = getSnapshotCounts stocks in
      bindE (throw_if
        [(vo_expected_active options \<noteq> None \<and> vo_expected_active options \<noteq> Some (int (sc_active_quote counts)),
            ''active quote count must be '' @ show_int (the (vo_expected_active options))
            @ '', got '' @ show_nat (sc_active_quote counts)),
         (vo_require_watch options \<and> sc_watch counts = 0,
            ''snapshot must include at least one Watch record'')]) (\<lambda>_.
      bindE (check_summary summary counts) (\<lambda>_.
      Inr \<lparr>qs_fields = filter (\<lambda>(k, _). k \<notin> set [''summary'', ''stocks'', ''portfolio_universe'']) ob,
           qs_summary = summary, qs_stocks = stocks, qs_universe = universe\<rparr>)))))))))))))))"


section \<open>Facts\<close>

lemma each_field_ok [simp]: "each_field names bad msg = Inr u \<longleftrightarrow> (\<forall>f \<in> set names. \<not> bad f)"
  by (auto simp: each_field_def throw_if_ok list_all_iff)

lemma requireString_ok:
  "requireString ob f c = Inr s \<longleftrightarrow> fld ob f = Some (JStr s) \<and> s \<noteq> ''''"
  by (auto simp: requireString_def split: option.splits)

text \<open>What a validated classification says about the row.\<close>

definition classified :: "quote_stock \<Rightarrow> bool" where
  "classified s \<longleftrightarrow>
     (\<exists>m \<in> set MARKETS. is_str (fld s ''market'') m)
   \<and> (\<exists>g \<in> set PORTFOLIO_GROUPS. is_str (fld s ''portfolio_group'') g)
   \<and> fld s ''mapping_only'' = Some (JBool (is_str (fld s ''portfolio_group'') ''mapping''))
   \<and> (is_str (fld s ''holding_status'') ''MAPPING_ONLY'' \<longleftrightarrow> is_str (fld s ''portfolio_group'') ''mapping'')
   \<and> fld s ''is_position'' = Some (JBool (is_str (fld s ''holding_status'') ''ACTIVE''))
   \<and> \<not> bad_quantity (fld s ''position_qty'')
   \<and> (fld s ''is_position'' = Some (JBool False) \<longrightarrow> fld s ''position_qty'' = Some (JNum (Fin 0)))"

lemma outside_iff: "\<not> outside allowed v \<longleftrightarrow> (\<exists>s \<in> set allowed. v = Some (JStr s))"
  by (auto simp: outside_def split: option.splits)

lemma validateClassification_ok: "validateClassification s c = Inr u \<Longrightarrow> classified s"
  unfolding validateClassification_def Let_def throw_if_ok classified_def
  by (simp add: outside_iff) blast

lemma validateStock_ok:
  assumes "validateStock v i = Inr s"
  shows "v = JObj s" "classified s" "\<forall>f \<in> set REQUIRED_STOCK_FIELDS. has_key s f"
    "\<exists>c. fld s ''code'' = Some (JStr c) \<and> c \<noteq> ''''"
  using assms by (auto simp: validateStock_def Let_def bindE_Inr requireString_ok
      dest: validateClassification_ok split: option.splits)

lemma validateUniverseItem_ok:
  assumes "validateUniverseItem v i = Inr u"
  shows "v = JObj u" "classified u"
  using assms by (auto simp: validateUniverseItem_def Let_def bindE_Inr
      dest: validateClassification_ok split: option.splits)

lemma getSnapshotCounts_eq:
  "getSnapshotCounts ss =
    \<lparr>sc_total = length ss, sc_active_quote = length (filter is_active_quote ss),
     sc_active_holding = length (filter is_position ss),
     sc_watch = length (filter (in_group ''watch'') ss), sc_exited_watch = 0,
     sc_core = length (filter (in_group ''core'') ss),
     sc_growth = length (filter (in_group ''growth'') ss),
     sc_mapping = length (filter (in_group ''mapping'') ss)\<rparr>"
proof -
  have "fold count_stock ss c =
     c\<lparr>sc_active_quote := sc_active_quote c + length (filter is_active_quote ss),
       sc_active_holding := sc_active_holding c + length (filter is_position ss),
       sc_watch := sc_watch c + length (filter (in_group ''watch'') ss),
       sc_core := sc_core c + length (filter (in_group ''core'') ss),
       sc_growth := sc_growth c + length (filter (in_group ''growth'') ss),
       sc_mapping := sc_mapping c + length (filter (in_group ''mapping'') ss)\<rparr>" for c
    by (induction ss arbitrary: c) (simp_all add: count_stock_def)
  then show ?thesis by (simp add: getSnapshotCounts_def)
qed

lemma classified_group:
  "classified s \<Longrightarrow> in_group ''core'' s \<or> in_group ''growth'' s \<or> in_group ''watch'' s \<or> in_group ''mapping'' s"
  by (auto simp: classified_def in_group_def PORTFOLIO_GROUPS_def)

lemma classified_active:
  assumes "classified s"
  shows "is_active_quote s \<longleftrightarrow> is_position s \<or> in_group ''mapping'' s"
    and "\<not> (is_position s \<and> in_group ''mapping'' s)"
  using assms by (auto simp: classified_def is_active_quote_def is_position_def in_group_def)

lemma classified_counts:
  assumes "list_all classified ss"
  shows "length (filter (in_group ''core'') ss) + length (filter (in_group ''growth'') ss)
      + length (filter (in_group ''watch'') ss) + length (filter (in_group ''mapping'') ss) = length ss"
    and "length (filter is_active_quote ss) =
      length (filter is_position ss) + length (filter (in_group ''mapping'') ss)"
  using assms
proof (induction ss)
  case (Cons s ss)
  { case 1
    then have "classified s" by simp
    from classified_group [OF this] Cons(1) 1 show ?case by (auto simp: in_group_def) }
  { case 2
    then have "classified s" by simp
    from classified_active [OF this] Cons(2) 2 show ?case by auto }
qed simp_all

lemma index_stocks_ok:
  assumes "index_stocks m ss = Inr m'"
  shows "distinct (map instrumentKey ss)" "s \<in> set ss \<Longrightarrow> m (instrumentKey s) = None"
    "m' k = Some x \<Longrightarrow> m k = Some x \<or> x \<in> set ss \<and> instrumentKey x = k"
proof -
  have "distinct (map instrumentKey ss) \<and> (\<forall>s \<in> set ss. m (instrumentKey s) = None)
     \<and> (\<forall>k x. m' k = Some x \<longrightarrow> m k = Some x \<or> x \<in> set ss \<and> instrumentKey x = k)"
    using assms
  proof (induction ss arbitrary: m)
    case (Cons s ss)
    then have n: "m (instrumentKey s) = None" and "index_stocks (m(instrumentKey s \<mapsto> s)) ss = Inr m'"
      by (auto split: if_splits)
    from Cons.IH [OF this(2)] n show ?case by (auto split: if_splits)
  qed simp
  then show "distinct (map instrumentKey ss)" "s \<in> set ss \<Longrightarrow> m (instrumentKey s) = None"
    "m' k = Some x \<Longrightarrow> m k = Some x \<or> x \<in> set ss \<and> instrumentKey x = k" by auto
qed

lemma check_universe_ok:
  assumes "check_universe m seen i us = Inr v"
  shows "distinct (map instrumentKey us)" "u \<in> set us \<Longrightarrow> instrumentKey u \<notin> set seen"
    "u \<in> set us \<Longrightarrow> \<exists>s. m (instrumentKey u) = Some s
       \<and> (\<forall>f \<in> set UNIVERSE_FIELDS. strict_eq (fld u f) (fld s f))"
proof -
  have "distinct (map instrumentKey us) \<and> (\<forall>u \<in> set us. instrumentKey u \<notin> set seen)
     \<and> (\<forall>u \<in> set us. \<exists>s. m (instrumentKey u) = Some s
          \<and> (\<forall>f \<in> set UNIVERSE_FIELDS. strict_eq (fld u f) (fld s f)))"
    using assms
  proof (induction us arbitrary: seen i)
    case (Cons u us)
    then obtain s where k: "instrumentKey u \<notin> set seen" "m (instrumentKey u) = Some s"
      "compareUniverseToStock u s i = Inr ()"
      and c: "check_universe m (instrumentKey u # seen) (Suc i) us = Inr v"
      by (auto simp: Let_def bindE_Inr split: if_splits option.splits)
    from Cons.IH [OF c] k show ?case by (auto simp: compareUniverseToStock_def)
  qed simp
  then show "distinct (map instrumentKey us)" "u \<in> set us \<Longrightarrow> instrumentKey u \<notin> set seen"
    "u \<in> set us \<Longrightarrow> \<exists>s. m (instrumentKey u) = Some s
       \<and> (\<forall>f \<in> set UNIVERSE_FIELDS. strict_eq (fld u f) (fld s f))" by auto
qed

text \<open>What \<open>validateSnapshot\<close> has established when it returns.\<close>

definition snapshot_ok :: "quote_snapshot \<Rightarrow> bool" where
  "snapshot_ok s \<longleftrightarrow> list_all classified (qs_stocks s) \<and> list_all classified (qs_universe s)
     \<and> distinct (map instrumentKey (qs_stocks s)) \<and> distinct (map instrumentKey (qs_universe s))
     \<and> length (qs_universe s) = length (qs_stocks s)
     \<and> (\<forall>u \<in> set (qs_universe s). \<exists>x \<in> set (qs_stocks s). instrumentKey x = instrumentKey u
          \<and> (\<forall>f \<in> set UNIVERSE_FIELDS. strict_eq (fld u f) (fld x f)))
     \<and> (\<forall>x \<in> set (qs_stocks s). \<forall>f \<in> set REQUIRED_STOCK_FIELDS. has_key x f)
     \<and> fld (qs_summary s) ''total'' = Some (JInt (int (length (qs_stocks s))))
     \<and> (\<forall>f \<in> set DERIVED_SUMMARY_FIELDS. has_key (qs_summary s) f \<longrightarrow>
          fld (qs_summary s) f = Some (JInt (int (derived (getSnapshotCounts (qs_stocks s)) f))))"

lemma mapE_all:
  assumes "mapE f xs = Inr ys" "\<And>x i y. f x i = Inr y \<Longrightarrow> P y"
  shows "list_all P ys"
  using assms by (auto simp: mapE_from_Inr list_all_length)

lemma validateSnapshot_ok:
  assumes "validateSnapshot o' v = Inr s"
  shows "snapshot_ok s"
proof -
  obtain ob summary rows items stocks universe m where
    st: "mapE validateStock rows = Inr stocks" and
    un: "mapE validateUniverseItem items = Inr universe" and
    len: "length universe = length stocks" and
    ix: "index_stocks Map.empty stocks = Inr m" and
    cu: "check_universe m [] 0 universe = Inr ()" and
    su: "check_summary summary (getSnapshotCounts stocks) = Inr ()" and
    tot: "fld summary ''total'' = Some (JInt (int (length rows)))" and
    s: "qs_summary s = summary" "qs_stocks s = stocks" "qs_universe s = universe"
    using assms by (auto simp: validateSnapshot_def Let_def bindE_Inr throw_if_ok simp del: throw_if.simps
        split: option.splits)
  have "length stocks = length rows" using st by (simp add: mapE_from_Inr)
  moreover have "\<exists>x \<in> set stocks. instrumentKey x = instrumentKey u
      \<and> (\<forall>f \<in> set UNIVERSE_FIELDS. strict_eq (fld u f) (fld x f))" if "u \<in> set universe" for u
  proof -
    note elem = that
    obtain x where "m (instrumentKey u) = Some x"
      "\<forall>f \<in> set UNIVERSE_FIELDS. strict_eq (fld u f) (fld x f)"
      using check_universe_ok(3) [OF cu elem] by blast
    with index_stocks_ok(3) [OF ix this(1)] show ?thesis by auto
  qed
  moreover have "list_all (\<lambda>x. \<forall>f \<in> set REQUIRED_STOCK_FIELDS. has_key x f) stocks"
    by (rule mapE_all [OF st]) (rule validateStock_ok(3))
  moreover have "list_all classified stocks" "list_all classified universe"
    by (rule mapE_all [OF st], rule validateStock_ok(2), assumption)
      (rule mapE_all [OF un], rule validateUniverseItem_ok(2))
  ultimately show ?thesis
    using len tot su check_universe_ok(1) [OF cu] index_stocks_ok(1) [OF ix]
    by (auto simp: snapshot_ok_def s check_summary_def list_all_iff)
qed


definition snapshot_object :: "quote_snapshot \<Rightarrow> jsobj" where
  "snapshot_object s = qs_fields s @ [(''summary'', JObj (qs_summary s)),
     (''stocks'', JArr (map JObj (qs_stocks s))), (''portfolio_universe'', JArr (map JObj (qs_universe s)))]"

abbreviation no_options :: validation_options where
  "no_options \<equiv> \<lparr>vo_expected_active = None, vo_require_watch = False\<rparr>"

text \<open>The converse: what the checks ask for suffices, so a snapshot that has it validates again.\<close>

definition row_valid :: "quote_stock \<Rightarrow> bool" where
  "row_valid s \<longleftrightarrow> (\<exists>i. validateStock (JObj s) i = Inr s)"

definition item_valid :: "jsobj \<Rightarrow> bool" where
  "item_valid u \<longleftrightarrow> (\<exists>i. validateUniverseItem (JObj u) i = Inr u)"

definition snapshot_valid :: "quote_snapshot \<Rightarrow> bool" where
  "snapshot_valid s \<longleftrightarrow> snapshot_ok s
     \<and> list_all (\<lambda>k. nonempty_text (fld (qs_fields s) k)) [''portfolio_version'', ''snapshot_time'', ''system_quality'']
     \<and> fst ` set (qs_fields s) \<inter> {''summary'', ''stocks'', ''portfolio_universe''} = {}
     \<and> list_all row_valid (qs_stocks s) \<and> list_all item_valid (qs_universe s)"

lemma validateClassification_context:
  "validateClassification s c = Inr u \<Longrightarrow> validateClassification s c' = Inr u'"
  unfolding validateClassification_def Let_def throw_if_ok by (simp only: list.pred_inject fst_conv) simp

lemma validateStock_index: "validateStock v i = Inr s \<Longrightarrow> validateStock v j = Inr s"
  by (auto simp: validateStock_def Let_def bindE_Inr requireString_ok
      dest: validateClassification_context split: option.splits)

lemma validateUniverseItem_index: "validateUniverseItem v i = Inr s \<Longrightarrow> validateUniverseItem v j = Inr s"
  by (auto simp: validateUniverseItem_def Let_def bindE_Inr requireString_ok
      dest: validateClassification_context split: option.splits)

lemma mapE_rows_valid:
  "list_all row_valid ss \<Longrightarrow> mapE validateStock (map JObj ss) = Inr ss"
  "list_all item_valid us \<Longrightarrow> mapE validateUniverseItem (map JObj us) = Inr us"
  by (auto simp: mapE_from_Inr row_valid_def item_valid_def list_all_length
      intro: validateStock_index validateUniverseItem_index)

lemma index_stocks_total:
  "distinct (map instrumentKey ss) \<Longrightarrow> (\<And>s. s \<in> set ss \<Longrightarrow> m (instrumentKey s) = None) \<Longrightarrow>
   \<exists>m'. index_stocks m ss = Inr m' \<and> (\<forall>s \<in> set ss. m' (instrumentKey s) = Some s)
      \<and> (\<forall>k. k \<notin> instrumentKey ` set ss \<longrightarrow> m' k = m k)"
proof (induction ss arbitrary: m)
  case (Cons s ss)
  have "\<exists>m'. index_stocks (m(instrumentKey s \<mapsto> s)) ss = Inr m' \<and> (\<forall>x \<in> set ss. m' (instrumentKey x) = Some x)
      \<and> (\<forall>k. k \<notin> instrumentKey ` set ss \<longrightarrow> m' k = (m(instrumentKey s \<mapsto> s)) k)"
    using Cons.prems by (intro Cons.IH) (auto simp: rev_image_eqI)
  then obtain m' where "index_stocks (m(instrumentKey s \<mapsto> s)) ss = Inr m'"
    "\<forall>x \<in> set ss. m' (instrumentKey x) = Some x"
    "\<forall>k. k \<notin> instrumentKey ` set ss \<longrightarrow> m' k = (m(instrumentKey s \<mapsto> s)) k" by blast
  then show ?case using Cons.prems by (intro exI [of _ m']) auto
qed simp

lemma check_universe_total:
  "distinct (map instrumentKey us) \<Longrightarrow> instrumentKey ` set us \<inter> set seen = {} \<Longrightarrow>
   (\<And>u. u \<in> set us \<Longrightarrow> \<exists>x. m (instrumentKey u) = Some x
      \<and> (\<forall>f \<in> set UNIVERSE_FIELDS. strict_eq (fld u f) (fld x f))) \<Longrightarrow>
   check_universe m seen i us = Inr ()"
proof (induction us arbitrary: seen i)
  case (Cons u us)
  obtain x where x: "m (instrumentKey u) = Some x" "compareUniverseToStock u x i = Inr ()"
    using Cons.prems(3) [of u] by (auto simp: compareUniverseToStock_def)
  have "check_universe m (instrumentKey u # seen) (Suc i) us = Inr ()"
    using Cons.prems by (intro Cons.IH) (auto simp: rev_image_eqI)
  with x Cons.prems(2) show ?case by (simp add: Let_def)
qed simp

lemma snapshot_object_fields:
  assumes "fst ` set (qs_fields s) \<inter> {''summary'', ''stocks'', ''portfolio_universe''} = {}"
  shows "fld (snapshot_object s) ''summary'' = Some (JObj (qs_summary s))"
    "fld (snapshot_object s) ''stocks'' = Some (JArr (map JObj (qs_stocks s)))"
    "fld (snapshot_object s) ''portfolio_universe'' = Some (JArr (map JObj (qs_universe s)))"
    "k \<notin> {''summary'', ''stocks'', ''portfolio_universe''} \<Longrightarrow> fld (snapshot_object s) k = fld (qs_fields s) k"
    "filter (\<lambda>(k, _). k \<notin> set [''summary'', ''stocks'', ''portfolio_universe'']) (snapshot_object s) = qs_fields s"
proof -
  have n: "fld (qs_fields s) k = None" if "k \<in> {''summary'', ''stocks'', ''portfolio_universe''}" for k
    unfolding map_of_eq_None_iff using assms that by blast
  have f: "filter (\<lambda>(k, _). k \<notin> set [''summary'', ''stocks'', ''portfolio_universe'']) (qs_fields s) = qs_fields s"
  proof (rule filter_True, rule ballI)
    fix e assume "e \<in> set (qs_fields s)"
    then have "fst e \<notin> {''summary'', ''stocks'', ''portfolio_universe''}" using assms by blast
    then show "case e of (k, _) \<Rightarrow> k \<notin> set [''summary'', ''stocks'', ''portfolio_universe'']"
      by (cases e) simp
  qed
  show "fld (snapshot_object s) ''summary'' = Some (JObj (qs_summary s))"
    "fld (snapshot_object s) ''stocks'' = Some (JArr (map JObj (qs_stocks s)))"
    "fld (snapshot_object s) ''portfolio_universe'' = Some (JArr (map JObj (qs_universe s)))"
    "k \<notin> {''summary'', ''stocks'', ''portfolio_universe''} \<Longrightarrow> fld (snapshot_object s) k = fld (qs_fields s) k"
    using n by (simp_all add: snapshot_object_def map_add_def split: option.splits)
  show "filter (\<lambda>(k, _). k \<notin> set [''summary'', ''stocks'', ''portfolio_universe'']) (snapshot_object s) = qs_fields s"
    using f by (simp add: snapshot_object_def)
qed

lemma snapshot_valid_validates:
  assumes "snapshot_valid s"
  shows "validateSnapshot no_options (JObj (snapshot_object s)) = Inr s"
proof -
  have ok: "snapshot_ok s" and t: "list_all (\<lambda>k. nonempty_text (fld (qs_fields s) k))
      [''portfolio_version'', ''snapshot_time'', ''system_quality'']"
    and r: "fst ` set (qs_fields s) \<inter> {''summary'', ''stocks'', ''portfolio_universe''} = {}"
    and v: "list_all row_valid (qs_stocks s)" "list_all item_valid (qs_universe s)"
    using assms unfolding snapshot_valid_def by blast+
  note f = snapshot_object_fields [OF r]
  note d = ok [unfolded snapshot_ok_def]
  obtain m where m: "index_stocks Map.empty (qs_stocks s) = Inr m"
    "\<forall>x \<in> set (qs_stocks s). m (instrumentKey x) = Some x"
    using d index_stocks_total [of "qs_stocks s" Map.empty] by auto
  have cu: "check_universe m [] 0 (qs_universe s) = Inr ()"
  proof (rule check_universe_total)
    fix u assume "u \<in> set (qs_universe s)"
    then obtain x where "x \<in> set (qs_stocks s)" "instrumentKey x = instrumentKey u"
      "\<forall>f \<in> set UNIVERSE_FIELDS. strict_eq (fld u f) (fld x f)"
      using d by blast
    then show "\<exists>x. m (instrumentKey u) = Some x \<and> (\<forall>f \<in> set UNIVERSE_FIELDS. strict_eq (fld u f) (fld x f))"
      using m(2) by metis
  qed (use d in simp_all)
  have cs: "check_summary (qs_summary s) (getSnapshotCounts (qs_stocks s)) = Inr ()"
    using d by (simp add: check_summary_def)
  have tot: "fld (qs_summary s) ''total'' = Some (JInt (int (length (qs_stocks s))))"
    and len: "length (qs_universe s) = length (qs_stocks s)" using d by blast+
  have nn: "non_negative_integer (Some (JInt (int n)))" for n
    by (simp add: non_negative_integer_def is_integer_def)
  show ?thesis
    unfolding validateSnapshot_def as_record.simps option.case f(1-3,5) Option.bind.bind_lunit as_array.simps
      mapE_rows_valid(1) [OF v(1)] mapE_rows_valid(2) [OF v(2)] bindE.simps m(1) cu Let_def cs
    using t tot len nn f(4) by simp
qed

lemma validateSnapshot_valid:
  assumes "validateSnapshot o' v = Inr s"
  shows "snapshot_valid s"
proof -
  obtain ob rows items where st: "mapE validateStock rows = Inr (qs_stocks s)"
    and un: "mapE validateUniverseItem items = Inr (qs_universe s)"
    and t: "list_all (\<lambda>k. nonempty_text (fld ob k)) [''portfolio_version'', ''snapshot_time'', ''system_quality'']"
    and f: "qs_fields s = filter (\<lambda>(k, _). k \<notin> set [''summary'', ''stocks'', ''portfolio_universe'']) ob"
    using assms by (auto simp: validateSnapshot_def Let_def bindE_Inr throw_if_ok simp del: throw_if.simps
        split: option.splits)
  have "fld (qs_fields s) k = fld ob k" if "k \<notin> set [''summary'', ''stocks'', ''portfolio_universe'']" for k
    using that unfolding f by (induction ob) auto
  then have "list_all (\<lambda>k. nonempty_text (fld (qs_fields s) k))
      [''portfolio_version'', ''snapshot_time'', ''system_quality'']"
    using t by simp
  moreover have "fst ` set (qs_fields s) \<inter> {''summary'', ''stocks'', ''portfolio_universe''} = {}"
    unfolding f by auto
  moreover have "list_all row_valid (qs_stocks s)"
    by (rule mapE_all [OF st]) (metis row_valid_def validateStock_ok(1))
  moreover have "list_all item_valid (qs_universe s)"
    by (rule mapE_all [OF un]) (metis item_valid_def validateUniverseItem_ok(1))
  ultimately show ?thesis
    using validateSnapshot_ok [OF assms] by (simp add: snapshot_valid_def)
qed

text \<open>A concrete snapshot: a held Core row and a mapping row.\<close>

definition sample_row ::
  "string \<Rightarrow> string \<Rightarrow> string \<Rightarrow> string \<Rightarrow> jsval \<Rightarrow> string \<Rightarrow> jsval \<Rightarrow> jsval \<Rightarrow> bool \<Rightarrow> jsobj" where
  "sample_row code grp pg pstatus mo hs mapped qty pos =
     [(''code'', JStr code), (''market'', JStr ''CN''), (''exchange'', JStr ''SZ''), (''name'', JStr code),
      (''group'', JStr grp), (''portfolio_group'', JStr pg), (''portfolio_status'', JStr pstatus),
      (''holding_status'', JStr hs), (''mapping_only'', mo), (''mapped_to'', mapped),
      (''mapping_to'', mapped), (''position_qty'', qty), (''is_position'', JBool pos),
      (''price'', JInt 1), (''change'', JInt 0), (''change_pct'', JInt 0), (''pre_close'', JInt 1),
      (''prev_close'', JInt 1), (''open'', JInt 1), (''high'', JInt 1), (''low'', JInt 1),
      (''pct_change'', JInt 0), (''volume'', JInt 1), (''amount'', JInt 1),
      (''market_status'', JStr ''CLOSED''), (''market_data_time'', JNull),
      (''source_update_time'', JNull), (''freshness_basis'', JStr ''MARKET_DATA''),
      (''quote_time'', JNull), (''fetch_time'', JStr ''t''), (''age_seconds'', JInt 0),
      (''primary_source'', JStr ''tencent''), (''secondary_source'', JNull),
      (''source_status'', JStr ''OK''), (''quality'', JStr ''OK'')]"

definition sample_held :: jsobj where
  "sample_held = sample_row ''000001'' ''Core'' ''core'' ''CORE'' (JBool False) ''ACTIVE'' JNull JNull True"

definition sample_mapping :: jsobj where
  "sample_mapping = obj_set (sample_row ''000002'' ''Core'' ''mapping'' '''' (JBool True) ''MAPPING_ONLY''
     (JStr ''HK:00001'') (JInt 0) False) ''portfolio_status'' JNull"

definition sample_summary :: jsobj where
  "sample_summary = [(''total'', JInt 2), (''usable'', JInt 2), (''active_quote_total'', JInt 2)]"

definition sample_fields :: jsobj where
  "sample_fields = [(''portfolio_version'', JStr ''v''), (''snapshot_time'', JStr ''t''),
     (''system_quality'', JStr ''OK'')]"

definition sample_snapshot :: quote_snapshot where
  "sample_snapshot = \<lparr>qs_fields = sample_fields, qs_summary = sample_summary,
     qs_stocks = [sample_held, sample_mapping],
     qs_universe = [pick UNIVERSE_FIELDS sample_mapping, pick UNIVERSE_FIELDS sample_held]\<rparr>"

lemma validate_sample_snapshot:
  "validateSnapshot no_options (JObj (snapshot_object sample_snapshot)) = Inr sample_snapshot"
  by code_simp

section \<open>Properties\<close>

text \<open>The counts of a validated snapshot are consistent: the four portfolio groups partition
  its rows, the total is the number of rows and the one the summary states, and the active
  quotes are the positions and the mapping rows, with no row counted twice; every total the
  summary supplies is the derived one.\<close>

theorem snapshot_counts_partition:
  assumes "validateSnapshot o' v = Inr s"
  shows "let c = getSnapshotCounts (qs_stocks s) in
      sc_core c + sc_growth c + sc_watch c + sc_mapping c = sc_total c
    \<and> sc_active_quote c = sc_active_holding c + sc_mapping c
    \<and> fld (qs_summary s) ''total'' = Some (JInt (int (sc_total c)))
    \<and> (has_key (qs_summary s) ''active_quote_total'' \<longrightarrow>
        fld (qs_summary s) ''active_quote_total'' = Some (JInt (int (sc_active_quote c))))"
  using validateSnapshot_ok [OF assms]
  by (simp add: Let_def getSnapshotCounts_eq snapshot_ok_def classified_counts
      DERIVED_SUMMARY_FIELDS_def derived_def)

theorem snapshot_counts_partition_witness:
  "sc_active_quote (getSnapshotCounts (qs_stocks sample_snapshot)) =
   sc_active_holding (getSnapshotCounts (qs_stocks sample_snapshot))
   + sc_mapping (getSnapshotCounts (qs_stocks sample_snapshot))"
  using snapshot_counts_partition [OF validate_sample_snapshot] unfolding Let_def by blast

text \<open>In a validated snapshot the portfolio universe and the rows list the same instruments,
  each exactly once, and a universe item agrees with its row on every one of the thirteen
  classification fields.\<close>

theorem snapshot_universe_matches:
  assumes "validateSnapshot o' v = Inr s"
  shows "distinct (map instrumentKey (qs_stocks s)) \<and> distinct (map instrumentKey (qs_universe s))
    \<and> set (map instrumentKey (qs_universe s)) = set (map instrumentKey (qs_stocks s))
    \<and> (\<forall>u \<in> set (qs_universe s). \<forall>x \<in> set (qs_stocks s). instrumentKey x = instrumentKey u \<longrightarrow>
         (\<forall>f \<in> set UNIVERSE_FIELDS. strict_eq (fld u f) (fld x f)))"
proof -
  note ok = validateSnapshot_ok [OF assms, unfolded snapshot_ok_def]
  let ?u = "map instrumentKey (qs_universe s)" and ?x = "map instrumentKey (qs_stocks s)"
  have d: "distinct ?u" "distinct ?x" and l: "length ?u = length ?x"
    using ok by (simp_all only: length_map)
  have m: "\<exists>x \<in> set (qs_stocks s). instrumentKey x = instrumentKey u
      \<and> (\<forall>f \<in> set UNIVERSE_FIELDS. strict_eq (fld u f) (fld x f))" if "u \<in> set (qs_universe s)" for u
    using ok that by blast
  have sub: "set ?u \<subseteq> set ?x"
  proof
    fix k assume "k \<in> set ?u"
    then obtain u where "u \<in> set (qs_universe s)" "k = instrumentKey u" by auto
    with m [of u] obtain x where "x \<in> set (qs_stocks s)" "k = instrumentKey x" by metis
    then show "k \<in> set ?x" by simp
  qed
  have "set ?u = set ?x"
    using d l sub by (metis List.finite_set card_subset_eq distinct_card)
  moreover have "strict_eq (fld u f) (fld x f)"
    if "u \<in> set (qs_universe s)" "x \<in> set (qs_stocks s)" "instrumentKey x = instrumentKey u"
      "f \<in> set UNIVERSE_FIELDS" for u x f
  proof -
    note h = that
    obtain y where y: "y \<in> set (qs_stocks s)" "instrumentKey y = instrumentKey u"
      "strict_eq (fld u f) (fld y f)"
      using m [OF h(1)] h(4) by blast
    then have "y = x" using d(2) h(2,3) by (auto simp: distinct_map inj_on_def)
    with y(3) show ?thesis by simp
  qed
  ultimately show ?thesis using d by blast
qed

theorem snapshot_universe_matches_witness:
  "set (map instrumentKey (qs_universe sample_snapshot)) = set (map instrumentKey (qs_stocks sample_snapshot))"
  using snapshot_universe_matches [OF validate_sample_snapshot] by blast

text \<open>Validation is idempotent: the snapshot that validation returns, written out as an object
  again, validates to itself, so no later stage that passes it on unchanged can be refused.\<close>

theorem snapshot_revalidates:
  assumes "validateSnapshot o' v = Inr s"
  shows "validateSnapshot no_options (JObj (snapshot_object s)) = Inr s"
  by (rule snapshot_valid_validates [OF validateSnapshot_valid [OF assms]])

theorem snapshot_revalidates_witness:
  "validateSnapshot no_options (JObj (snapshot_object sample_snapshot)) = Inr sample_snapshot"
  by (rule snapshot_revalidates [OF validate_sample_snapshot])

end
