(* ===== verification/Live_Universe.thy ===== *)
theory Live_Universe
  imports Kv_Store Portfolio_Validation
begin

text \<open>
  \<open>src/src/live-universe.ts\<close>: the LIVE universe document (validation, content hash, KV storage),
  its freshness, the coverage of its instruments by a quote snapshot, and the projection of a
  snapshot to the positions the universe states. \<open>localeCompare\<close> is the parameter \<open>lc\<close>, the hex
  SHA-256 of a text the parameter \<open>digest\<close>, the reading of a non-ISO timestamp the parameter \<open>lp\<close>.
\<close>

section \<open>Data\<close>

definition LIVE_UNIVERSE_SCHEMA :: string where
  "LIVE_UNIVERSE_SCHEMA = ''quote-universe/1''"

definition LIVE_UNIVERSE_KV_KEY :: string where
  "LIVE_UNIVERSE_KV_KEY = ''live-portfolio/current''"

definition DEFAULT_LIVE_UNIVERSE_MAX_AGE_SECONDS :: rat where
  "DEFAULT_LIVE_UNIVERSE_MAX_AGE_SECONDS = 10 * 24 * 60 * 60"

definition LIVE_UNIVERSE_FUTURE_TOLERANCE_SECONDS :: rat where
  "LIVE_UNIVERSE_FUTURE_TOLERANCE_SECONDS = 300"

record live_item =
  li_market :: string
  li_exchange :: string
  li_code :: string

record live_universe =
  lu_generated_at :: string
  lu_source_manifest_hash :: string
  lu_active :: "live_item list"
  lu_content_hash :: string

record stored_universe = live_universe +
  lu_received_at :: string

datatype coverage_status = COVERAGE_COMPLETE | COVERAGE_INCOMPLETE

record live_coverage =
  lc_status :: coverage_status
  lc_active_count :: int
  lc_quoted_active_count :: int
  lc_missing_active :: "string list"

definition UNIVERSE_KEYS :: "string list" where
  "UNIVERSE_KEYS = [''schema_version'', ''generated_at'', ''source_manifest_hash'', ''active'', ''content_hash'']"

definition ITEM_KEYS :: "string list" where
  "ITEM_KEYS = [''market'', ''exchange'', ''code'']"

section \<open>Validation\<close>

text \<open>The \<open>assertExactKeys\<close> of this module only rejects keys that are not allowed.\<close>

definition assertAllowedKeys :: "jsobj \<Rightarrow> string list \<Rightarrow> string \<Rightarrow> unit result" where
  "assertAllowedKeys ob allowed context' =
     (case find (\<lambda>k. k \<notin> set allowed) (map fst ob) of
        Some k \<Rightarrow> Inl (context' @ ''.'' @ k @ '' is not allowed'')
      | None \<Rightarrow> Inr ())"

text \<open>\<open>/^\d{5,6}$/\<close>\<close>

definition is_digits_5_6 :: "string \<Rightarrow> bool" where
  "is_digits_5_6 s \<longleftrightarrow> list_all is_digit s \<and> (length s = 5 \<or> length s = 6)"

definition normalizeItem :: "jsval \<Rightarrow> nat \<Rightarrow> live_item result" where
  "normalizeItem v index =
     (let c = row_context ''active'' index in
      case as_record v of None \<Rightarrow> Inl (c @ '' must be an object'')
      | Some ob \<Rightarrow>
      bindE (assertAllowedKeys ob ITEM_KEYS c) (\<lambda>_.
      (let market = fld ob ''market''; exchange = fld ob ''exchange''; code = fld ob ''code'' in
      bindE (throw_if
        [(outside [''CN'', ''HK''] market, c @ ''.market must be CN or HK''),
         (outside [''SH'', ''SZ'', ''BJ'', ''HK''] exchange, c @ ''.exchange is invalid''),
         (is_str market ''HK'' \<and> \<not> is_str exchange ''HK'' \<or> is_str market ''CN'' \<and> is_str exchange ''HK'',
            c @ ''.market and exchange are inconsistent''),
         (case as_string code of None \<Rightarrow> True | Some s \<Rightarrow> \<not> is_digits_5_6 s,
            c @ ''.code must be a 5-6 digit string'')]) (\<lambda>_.
      Inr \<lparr>li_market = the (as_string market), li_exchange = the (as_string exchange),
           li_code = the (as_string code)\<rparr>))))"

definition item_sort_key :: "live_item \<Rightarrow> string" where
  "item_sort_key i = li_market i @ '':'' @ li_exchange i @ '':'' @ li_code i"

definition canonicalActive :: "(string \<Rightarrow> string \<Rightarrow> int) \<Rightarrow> live_item list \<Rightarrow> live_item list" where
  "canonicalActive lc active = sort_by (\<lambda>a b. lc (item_sort_key a) (item_sort_key b)) active"

definition liveInstrumentKey :: "live_item \<Rightarrow> string" where
  "liveInstrumentKey i = li_market i @ '':'' @ li_code i"

text \<open>\<open>JSON.stringify({ active: rows })\<close> with the keys of a row in the order code, exchange,
  market; the validated values contain nothing to escape.\<close>

definition quoted :: "string \<Rightarrow> string" where
  "quoted s = [CHR 0x22] @ s @ [CHR 0x22]"

definition json_row :: "live_item \<Rightarrow> string" where
  "json_row i = ''{'' @ quoted ''code'' @ '':'' @ quoted (li_code i) @ '','' @ quoted ''exchange'' @ '':''
     @ quoted (li_exchange i) @ '','' @ quoted ''market'' @ '':'' @ quoted (li_market i) @ ''}''"

fun join :: "string \<Rightarrow> string list \<Rightarrow> string" where
  "join sep [] = ''''"
| "join sep [x] = x"
| "join sep (x # y # xs) = x @ sep @ join sep (y # xs)"

definition json_active :: "live_item list \<Rightarrow> string" where
  "json_active rows = ''{'' @ quoted ''active'' @ '':['' @ join '','' (map json_row rows) @ '']}''"

definition computeLiveUniverseHash ::
  "(string \<Rightarrow> string) \<Rightarrow> (string \<Rightarrow> string \<Rightarrow> int) \<Rightarrow> live_item list \<Rightarrow> string" where
  "computeLiveUniverseHash digest lc active = ''sha256:'' @ digest (json_active (canonicalActive lc active))"

fun first_duplicate :: "string list \<Rightarrow> string list \<Rightarrow> string option" where
  "first_duplicate seen [] = None"
| "first_duplicate seen (k # ks) = (if k \<in> set seen then Some k else first_duplicate (k # seen) ks)"

definition validateLiveUniverse ::
  "(string \<Rightarrow> string) \<Rightarrow> (string \<Rightarrow> string \<Rightarrow> int) \<Rightarrow> jsval \<Rightarrow> live_universe result" where
  "validateLiveUniverse digest lc v =
     (case as_record v of None \<Rightarrow> Inl ''quote universe must be an object''
      | Some ob \<Rightarrow>
      bindE (assertAllowedKeys ob UNIVERSE_KEYS ''quote_universe'') (\<lambda>_.
      bindE (throw_if [(fld ob ''schema_version'' \<noteq> Some (JStr LIVE_UNIVERSE_SCHEMA),
        ''schema_version must be '' @ LIVE_UNIVERSE_SCHEMA)]) (\<lambda>_.
      (case as_string (fld ob ''generated_at'') of
         None \<Rightarrow> Inl ''generated_at must be a non-empty string''
       | Some generatedAt \<Rightarrow>
      bindE (throw_if [(js_trim generatedAt = '''', ''generated_at must be a non-empty string'')]) (\<lambda>_.
      (case as_string (fld ob ''source_manifest_hash'') of
         None \<Rightarrow> Inl ''source_manifest_hash must be sha256:<64 lowercase hex>''
       | Some manifest \<Rightarrow>
      bindE (throw_if [(\<not> is_sha256 manifest, ''source_manifest_hash must be sha256:<64 lowercase hex>'')]) (\<lambda>_.
      (case as_string (fld ob ''content_hash'') of
         None \<Rightarrow> Inl ''content_hash must be sha256:<64 lowercase hex>''
       | Some contentHash \<Rightarrow>
      bindE (throw_if [(\<not> is_sha256 contentHash, ''content_hash must be sha256:<64 lowercase hex>'')]) (\<lambda>_.
      (case as_array (fld ob ''active'') of
         None \<Rightarrow> Inl ''active must be an array''
       | Some items \<Rightarrow>
      bindE (throw_if [(length items > 200, ''active may contain at most 200 instruments'')]) (\<lambda>_.
      bindE (mapE normalizeItem items) (\<lambda>active.
      (case first_duplicate [] (map liveInstrumentKey active) of
         Some k \<Rightarrow> Inl (''duplicate active instrument: '' @ k)
       | None \<Rightarrow>
      bindE (throw_if [(computeLiveUniverseHash digest lc active \<noteq> contentHash,
        ''content_hash mismatch: expected '' @ computeLiveUniverseHash digest lc active)]) (\<lambda>_.
      Inr \<lparr>lu_generated_at = generatedAt, lu_source_manifest_hash = manifest,
           lu_active = canonicalActive lc active, lu_content_hash = contentHash\<rparr>))))))))))))))"

section \<open>Storage\<close>

definition item_object :: "live_item \<Rightarrow> jsobj" where
  "item_object i = [(''market'', JStr (li_market i)), (''exchange'', JStr (li_exchange i)),
     (''code'', JStr (li_code i))]"

definition universe_object :: "('a live_universe_scheme) \<Rightarrow> jsobj" where
  "universe_object u =
     [(''schema_version'', JStr LIVE_UNIVERSE_SCHEMA), (''generated_at'', JStr (lu_generated_at u)),
      (''source_manifest_hash'', JStr (lu_source_manifest_hash u)),
      (''active'', JArr (map (\<lambda>i. JObj (item_object i)) (lu_active u))),
      (''content_hash'', JStr (lu_content_hash u))]"

definition received :: "live_universe \<Rightarrow> string \<Rightarrow> stored_universe" where
  "received u r = live_universe.extend u \<lparr>lu_received_at = r\<rparr>"

definition writeLiveUniverse ::
  "(string \<Rightarrow> string) \<Rightarrow> (string \<Rightarrow> string \<Rightarrow> int) \<Rightarrow> kv \<Rightarrow> jsval \<Rightarrow> string \<Rightarrow> (kv \<times> stored_universe) result" where
  "writeLiveUniverse digest lc kv v receivedAt =
     bindE (validateLiveUniverse digest lc v) (\<lambda>validated.
     Inr (kv(LIVE_UNIVERSE_KV_KEY \<mapsto> JsonText (JObj (universe_object validated
              @ [(''received_at'', JStr receivedAt)]))), received validated receivedAt))"

definition readLiveUniverse ::
  "(string \<Rightarrow> string) \<Rightarrow> (string \<Rightarrow> string \<Rightarrow> int) \<Rightarrow> kv \<Rightarrow> stored_universe option result" where
  "readLiveUniverse digest lc kv =
     (case kv LIVE_UNIVERSE_KV_KEY of
        None \<Rightarrow> Inr None
      | Some EmptyText \<Rightarrow> Inr None
      | Some BadText \<Rightarrow> Inl ''stored quote universe is invalid JSON''
      | Some (JsonText parsed) \<Rightarrow>
     (case as_record parsed of
        None \<Rightarrow> Inl ''stored quote universe is missing received_at''
      | Some ob \<Rightarrow>
     (case as_string (fld ob ''received_at'') of
        None \<Rightarrow> Inl ''stored quote universe is missing received_at''
      | Some r \<Rightarrow>
          if r = '''' then Inl ''stored quote universe is missing received_at''
          else bindE (validateLiveUniverse digest lc (JObj (filter (\<lambda>(k, _). k \<noteq> ''received_at'') ob)))
                 (\<lambda>validated. Inr (Some (received validated r))))))"

section \<open>Freshness\<close>

definition assertLiveUniverseFresh ::
  "(string \<Rightarrow> int option) \<Rightarrow> stored_universe \<Rightarrow> int \<Rightarrow> rat \<Rightarrow> unit result" where
  "assertLiveUniverseFresh lp universe now maxAgeSeconds =
     (case date_parse lp (lu_generated_at universe) of
        None \<Rightarrow> Inl ''quote universe generated_at is not a valid timestamp''
      | Some generatedAt \<Rightarrow>
          throw_if
            [(age_seconds now generatedAt < - LIVE_UNIVERSE_FUTURE_TOLERANCE_SECONDS,
                ''quote universe generated_at is '' @ show_int (math_round (- age_seconds now generatedAt))
                @ ''s in the future''),
             (age_seconds now generatedAt > maxAgeSeconds,
                ''quote universe is stale: age='' @ show_int (math_round (age_seconds now generatedAt))
                @ ''s max='' @ js_to_string (JNum (Fin maxAgeSeconds)) @ ''s'')])"

datatype universe_anchor = ANCHOR_LRCCA | ANCHOR_GENERATED_AT

record freshness_resolution =
  fr_anchor :: universe_anchor
  fr_anchor_fallback :: bool
  fr_anchor_timestamp :: string
  fr_anchor_age_seconds :: "int option"
  fr_fresh :: bool

definition resolveLiveUniverseFreshness ::
  "(string \<Rightarrow> int option) \<Rightarrow> stored_universe \<Rightarrow> string option \<Rightarrow> int \<Rightarrow> rat \<Rightarrow> freshness_resolution" where
  "resolveLiveUniverseFreshness lp universe lrcca now maxAgeSeconds =
     (let anchor = (case lrcca of None \<Rightarrow> ANCHOR_GENERATED_AT
                    | Some s \<Rightarrow> if s = '''' then ANCHOR_GENERATED_AT else ANCHOR_LRCCA);
          anchorTimestamp = (case lrcca of None \<Rightarrow> lu_generated_at universe | Some s \<Rightarrow> s);
          ageSeconds = map_option (age_seconds now) (date_parse lp anchorTimestamp)
      in \<lparr>fr_anchor = anchor, fr_anchor_fallback = (anchor = ANCHOR_GENERATED_AT),
          fr_anchor_timestamp = anchorTimestamp,
          fr_anchor_age_seconds = map_option math_round ageSeconds,
          fr_fresh = (case ageSeconds of None \<Rightarrow> False
             | Some a \<Rightarrow> a \<ge> - LIVE_UNIVERSE_FUTURE_TOLERANCE_SECONDS \<and> a \<le> maxAgeSeconds)\<rparr>)"

section \<open>Coverage and projection\<close>

definition getLiveUniverseCoverage :: "quote_snapshot \<Rightarrow> stored_universe \<Rightarrow> live_coverage" where
  "getLiveUniverseCoverage snapshot universe =
     (let quoted_keys = map instrumentKey (qs_stocks snapshot);
          missing = filter (\<lambda>k. k \<notin> set quoted_keys) (map liveInstrumentKey (lu_active universe))
      in \<lparr>lc_status = (if missing = [] then COVERAGE_COMPLETE else COVERAGE_INCOMPLETE),
          lc_active_count = int (length (lu_active universe)),
          lc_quoted_active_count = int (length (lu_active universe)) - int (length missing),
          lc_missing_active = missing\<rparr>)"

definition toUniverseItem :: "quote_stock \<Rightarrow> jsobj" where
  "toUniverseItem stock = pick UNIVERSE_FIELDS stock"

text \<open>One pass of the loop over the rows: the row pushed, if any.\<close>

definition project_stock :: "string list \<Rightarrow> quote_stock \<Rightarrow> quote_stock option" where
  "project_stock active original =
     (let held = instrumentKey original \<in> set active in
      if truthy (fld original ''mapping_only'') \<or> in_group ''mapping'' original
      then Some (if held
        then spread original [(''is_position'', JBool True), (''position_qty'', JNull),
               (''holding_status'', JStr ''ACTIVE'')]
        else spread original [(''is_position'', JBool False), (''position_qty'', JInt 0),
               (''holding_status'', JStr ''MAPPING_ONLY'')])
      else if in_group ''watch'' original
      then Some (spread original
        [(''holding_status'', JStr (if held then ''ACTIVE'' else ''WATCH'')),
         (''is_position'', JBool held), (''position_qty'', if held then JNull else JInt 0)])
      else if held
      then Some (spread original [(''holding_status'', JStr ''ACTIVE''), (''is_position'', JBool True),
             (''position_qty'', JNull)])
      else None)"

definition project_stocks :: "string list \<Rightarrow> quote_stock list \<Rightarrow> quote_stock list" where
  "project_stocks active stocks = List.map_filter (project_stock active) stocks"

definition applyLiveUniverse :: "quote_snapshot \<Rightarrow> stored_universe \<Rightarrow> quote_snapshot" where
  "applyLiveUniverse snapshot universe =
     (let stocks = project_stocks (map liveInstrumentKey (lu_active universe)) (qs_stocks snapshot);
          total = (\<lambda>P. JInt (int (length (filter P stocks))));
          activeHoldingTotal = length (filter is_position stocks);
          mappingTotal = length (filter (in_group ''mapping'') stocks)
      in \<lparr>qs_fields = spread (qs_fields snapshot)
            [(''portfolio_version'', JStr (''live:'' @ lu_content_hash universe)),
             (''live_universe'', JObj
               [(''schema_version'', JStr LIVE_UNIVERSE_SCHEMA),
                (''generated_at'', JStr (lu_generated_at universe)),
                (''source_manifest_hash'', JStr (lu_source_manifest_hash universe)),
                (''content_hash'', JStr (lu_content_hash universe)),
                (''received_at'', JStr (lu_received_at universe)),
                (''active_count'', JInt (int (length (lu_active universe))))])],
          qs_summary = spread (qs_summary snapshot)
            [(''total'', JInt (int (length stocks))),
             (''active_quote_total'', JInt (int (activeHoldingTotal + mappingTotal))),
             (''active_holding_total'', JInt (int activeHoldingTotal)),
             (''watch_total'', total (in_group ''watch'')),
             (''exited_watch_total'', JInt 0),
             (''mapping_total'', JInt (int mappingTotal)),
             (''core_total'', total (in_group ''core'')),
             (''growth_total'', total (in_group ''growth''))],
          qs_stocks = stocks,
          qs_universe = map toUniverseItem stocks\<rparr>)"

section \<open>Facts\<close>

text \<open>A validated universe, and the object that represents it.\<close>

definition item_ok :: "live_item \<Rightarrow> bool" where
  "item_ok i \<longleftrightarrow> li_market i \<in> {''CN'', ''HK''} \<and> li_exchange i \<in> {''SH'', ''SZ'', ''BJ'', ''HK''}
     \<and> (li_market i = ''HK'' \<longleftrightarrow> li_exchange i = ''HK'') \<and> is_digits_5_6 (li_code i)"

definition universe_ok ::
  "(string \<Rightarrow> string) \<Rightarrow> (string \<Rightarrow> string \<Rightarrow> int) \<Rightarrow> live_universe \<Rightarrow> bool" where
  "universe_ok digest lc u \<longleftrightarrow> js_trim (lu_generated_at u) \<noteq> '''' \<and> is_sha256 (lu_source_manifest_hash u)
     \<and> is_sha256 (lu_content_hash u) \<and> length (lu_active u) \<le> 200 \<and> list_all item_ok (lu_active u)
     \<and> distinct (map liveInstrumentKey (lu_active u)) \<and> canonicalActive lc (lu_active u) = lu_active u
     \<and> computeLiveUniverseHash digest lc (lu_active u) = lu_content_hash u"

lemma assertAllowedKeys_ok: "assertAllowedKeys ob allowed c = Inr x \<longleftrightarrow> fst ` set ob \<subseteq> set allowed"
proof (cases "find (\<lambda>k. k \<notin> set allowed) (map fst ob)")
  case None
  then have "fst ` set ob \<subseteq> set allowed" by (auto simp: find_None_iff)
  with None show ?thesis by (simp add: assertAllowedKeys_def)
next
  case (Some k)
  then have "k \<in> fst ` set ob" "k \<notin> set allowed"
    by (auto simp: find_Some_iff simp flip: set_map intro!: nth_mem)
  with Some show ?thesis by (auto simp: assertAllowedKeys_def)
qed

lemma first_duplicate_None:
  "first_duplicate seen ks = None \<longleftrightarrow> distinct ks \<and> set ks \<inter> set seen = {}"
  by (induction seen ks rule: first_duplicate.induct) auto

lemma normalizeItem_ok:
  assumes "normalizeItem v i = Inr x"
  shows "item_ok x"
proof -
  obtain ob where ob: "\<not> outside [''CN'', ''HK''] (fld ob ''market'')"
    "\<not> outside [''SH'', ''SZ'', ''BJ'', ''HK''] (fld ob ''exchange'')"
    "\<not> (is_str (fld ob ''market'') ''HK'' \<and> \<not> is_str (fld ob ''exchange'') ''HK''
        \<or> is_str (fld ob ''market'') ''CN'' \<and> is_str (fld ob ''exchange'') ''HK'')"
    "\<not> (case as_string (fld ob ''code'') of None \<Rightarrow> True | Some s \<Rightarrow> \<not> is_digits_5_6 s)"
    and x: "x = \<lparr>li_market = the (as_string (fld ob ''market'')),
      li_exchange = the (as_string (fld ob ''exchange'')), li_code = the (as_string (fld ob ''code''))\<rparr>"
    using assms by (cases v) (simp_all add: normalizeItem_def Let_def bindE_Inr throw_if_ok
        del: throw_if.simps, blast)
  obtain m e c where "fld ob ''market'' = Some (JStr m)" "m \<in> set [''CN'', ''HK'']"
    "fld ob ''exchange'' = Some (JStr e)" "e \<in> set [''SH'', ''SZ'', ''BJ'', ''HK'']"
    "fld ob ''code'' = Some (JStr c)" "is_digits_5_6 c"
    using ob(1,2,4) unfolding outside_iff by (auto split: option.splits)
  with ob(3) show ?thesis by (auto simp: item_ok_def x)
qed

lemma item_object_fields:
  "assertAllowedKeys (item_object i) ITEM_KEYS c = Inr ()"
  "fld (item_object i) ''market'' = Some (JStr (li_market i))"
  "fld (item_object i) ''exchange'' = Some (JStr (li_exchange i))"
  "fld (item_object i) ''code'' = Some (JStr (li_code i))"
  by (simp_all add: item_object_def assertAllowedKeys_ok ITEM_KEYS_def)

lemma normalizeItem_object: "normalizeItem (JObj (item_object i)) n = Inr x \<longleftrightarrow> x = i \<and> item_ok i"
  unfolding normalizeItem_def Let_def as_record.simps option.case item_object_fields
  by (cases i) (auto simp: bindE_Inr throw_if_ok item_ok_def outside_def simp del: throw_if.simps)

lemma normalizeItem_objects:
  "mapE normalizeItem (map (\<lambda>i. JObj (item_object i)) xs) = Inr ys \<longleftrightarrow> ys = xs \<and> list_all item_ok xs"
  by (auto simp: mapE_from_Inr normalizeItem_object list_all_length intro: nth_equalityI)

lemma comparator_on: "comparator lc \<Longrightarrow> comparator (\<lambda>a b. lc (f a) (f b))"
  unfolding comparator_def by blast

lemma canonicalActive_idem: "comparator lc \<Longrightarrow> canonicalActive lc (canonicalActive lc xs) = canonicalActive lc xs"
  unfolding canonicalActive_def by (rule comparator.sort_idem [OF comparator_on])

lemma canonicalActive_mset [simp]: "mset (canonicalActive lc xs) = mset xs"
  by (simp add: canonicalActive_def)

lemma canonicalActive_set [simp]: "set (canonicalActive lc xs) = set xs"
  by (metis canonicalActive_mset set_mset_mset)

lemma canonicalActive_length [simp]: "length (canonicalActive lc xs) = length xs"
  by (simp add: canonicalActive_def)

lemma canonicalActive_distinct [simp]: "distinct (map f (canonicalActive lc xs)) = distinct (map f xs)"
  by (rule mset_eq_imp_distinct_iff) simp

lemma validateLiveUniverse_ok:
  assumes "comparator lc" "validateLiveUniverse digest lc v = Inr u"
  shows "universe_ok digest lc u"
proof -
  obtain items active where
    a: "mapE normalizeItem items = Inr active" "length items \<le> 200"
      "first_duplicate [] (map liveInstrumentKey active) = None"
      "computeLiveUniverseHash digest lc active = lu_content_hash u"
      "lu_active u = canonicalActive lc active"
    and b: "js_trim (lu_generated_at u) \<noteq> ''''" "is_sha256 (lu_source_manifest_hash u)"
      "is_sha256 (lu_content_hash u)"
    using assms(2) by (auto simp: validateLiveUniverse_def bindE_Inr throw_if_ok simp del: throw_if.simps
        split: option.splits)
  have "length active = length items" "list_all item_ok active"
    using a(1) by (auto simp: mapE_from_Inr list_all_length dest: normalizeItem_ok)
  then show ?thesis
    using a(2-5) b canonicalActive_idem [OF assms(1)]
    by (auto simp: universe_ok_def computeLiveUniverseHash_def first_duplicate_None list_all_iff)
qed

lemma universe_object_fields:
  "assertAllowedKeys (universe_object u) UNIVERSE_KEYS c = Inr ()"
  "fld (universe_object u) ''schema_version'' = Some (JStr LIVE_UNIVERSE_SCHEMA)"
  "fld (universe_object u) ''generated_at'' = Some (JStr (lu_generated_at u))"
  "fld (universe_object u) ''source_manifest_hash'' = Some (JStr (lu_source_manifest_hash u))"
  "fld (universe_object u) ''active'' = Some (JArr (map (\<lambda>i. JObj (item_object i)) (lu_active u)))"
  "fld (universe_object u) ''content_hash'' = Some (JStr (lu_content_hash u))"
  by (simp_all add: universe_object_def assertAllowedKeys_ok UNIVERSE_KEYS_def)

lemma validate_universe_object:
  assumes "universe_ok digest lc u"
  shows "validateLiveUniverse digest lc (JObj (universe_object u)) = Inr u"
proof -
  have "mapE normalizeItem (map (\<lambda>i. JObj (item_object i)) (lu_active u)) = Inr (lu_active u)"
    using assms normalizeItem_objects by (simp add: universe_ok_def)
  moreover have "first_duplicate [] (map liveInstrumentKey (lu_active u)) = None"
    using assms by (simp add: universe_ok_def first_duplicate_None)
  ultimately show ?thesis
    unfolding validateLiveUniverse_def as_record.simps option.case universe_object_fields
    using assms by (cases u) (simp add: universe_ok_def)
qed

lemma read_received:
  "fld (universe_object u @ [(''received_at'', JStr r)]) ''received_at'' = Some (JStr r)"
  "filter (\<lambda>(k, _). k \<noteq> ''received_at'') (universe_object u @ [(''received_at'', JStr r)]) = universe_object u"
  by (simp_all add: universe_object_def)

lemma read_after_write_universe:
  assumes "comparator lc" "r \<noteq> ''''" "writeLiveUniverse digest lc kv v r = Inr (kv', u)"
  shows "readLiveUniverse digest lc kv' = Inr (Some u)"
proof -
  obtain w where w: "validateLiveUniverse digest lc v = Inr w" "u = received w r"
    "kv' = kv(LIVE_UNIVERSE_KV_KEY \<mapsto> JsonText (JObj (universe_object w @ [(''received_at'', JStr r)])))"
    using assms(3) by (auto simp: writeLiveUniverse_def bindE_Inr)
  then show ?thesis
    using assms(2) validate_universe_object [OF validateLiveUniverse_ok [OF assms(1) w(1)]]
    unfolding readLiveUniverse_def w(3) fun_upd_same option.case raw_text.case as_record.simps read_received
    by simp
qed

text \<open>The universe document is a KV document for every consistent string order.\<close>

locale string_order = comparator lc for lc :: "string \<Rightarrow> string \<Rightarrow> int"

interpretation cu_order: string_order cu_cmp
  by unfold_locales

sublocale string_order \<subseteq> universe_doc: kv_document
    "\<lambda>kv v t. writeLiveUniverse digest lc kv v (to_iso t)" "readLiveUniverse digest lc" LIVE_UNIVERSE_KV_KEY
  for digest
proof
  show "writeLiveUniverse digest lc kv v (to_iso t) = Inr (kv', a) \<Longrightarrow>
      readLiveUniverse digest lc kv' = Inr (Some a)" for kv v t kv' a
    by (rule read_after_write_universe [OF comparator_axioms to_iso_nonempty])
  show "writeLiveUniverse digest lc kv v (to_iso t) = Inr (kv', a) \<Longrightarrow> k \<noteq> LIVE_UNIVERSE_KV_KEY \<Longrightarrow>
      kv' k = kv k" for kv v t kv' a k
    by (auto simp: writeLiveUniverse_def bindE_Inr)
  show "kv LIVE_UNIVERSE_KV_KEY = kv' LIVE_UNIVERSE_KV_KEY \<Longrightarrow>
      readLiveUniverse digest lc kv = readLiveUniverse digest lc kv'" for kv kv'
    by (simp add: readLiveUniverse_def)
qed

context string_order begin

lemma read_universe_run:
  "readLiveUniverse digest lc kv = Inr acc \<Longrightarrow>
   readLiveUniverse digest lc (kv_document.run (\<lambda>kv v t. writeLiveUniverse digest lc kv v (to_iso t)) kv ws) =
   Inr (kv_document.last_accepted (\<lambda>kv v t. writeLiveUniverse digest lc kv v (to_iso t)) kv acc ws)"
  by (rule universe_doc.read_run)

end

text \<open>The projection of one row.\<close>

lemma key_cong: "fld a ''market'' = fld b ''market'' \<Longrightarrow> fld a ''code'' = fld b ''code'' \<Longrightarrow>
  instrumentKey a = instrumentKey b"
  by (simp add: instrumentKey_def)

lemma project_stock_Some:
  assumes "project_stock active s = Some s'"
  shows "k \<notin> {''is_position'', ''position_qty'', ''holding_status''} \<Longrightarrow> fld s' k = fld s k"
    and "fld s' ''is_position'' = Some (JBool (instrumentKey s \<in> set active))"
    and "fld s' ''position_qty'' = Some (if instrumentKey s \<in> set active then JNull else JInt 0)"
    and "fld s' ''holding_status'' = Some (JStr (if instrumentKey s \<in> set active then ''ACTIVE''
      else if truthy (fld s ''mapping_only'') \<or> in_group ''mapping'' s then ''MAPPING_ONLY'' else ''WATCH''))"
  using assms by (auto simp: project_stock_def Let_def js_simps split: if_splits)

lemma project_stock_key: "project_stock active s = Some s' \<Longrightarrow> instrumentKey s' = instrumentKey s"
  by (rule key_cong) (simp_all add: project_stock_Some)

lemma project_stock_group: "project_stock active s = Some s' \<Longrightarrow> in_group g s' = in_group g s"
  by (simp add: in_group_def project_stock_Some)

lemma project_stock_position:
  "project_stock active s = Some s' \<Longrightarrow> is_position s' \<longleftrightarrow> instrumentKey s \<in> set active"
  by (simp add: is_position_def project_stock_Some)

lemma project_stock_None: "project_stock active s = None \<Longrightarrow> instrumentKey s \<notin> set active"
  by (auto simp: project_stock_def Let_def split: if_splits)

lemma project_stocks_simps [simp]:
  "project_stocks active [] = []"
  "project_stocks active (s # ss) =
     (case project_stock active s of None \<Rightarrow> project_stocks active ss
      | Some s' \<Rightarrow> s' # project_stocks active ss)"
  by (simp_all add: project_stocks_def List.map_filter_def split: option.splits)

lemma project_stocks_in:
  "s' \<in> set (project_stocks active ss) \<longleftrightarrow> (\<exists>s \<in> set ss. project_stock active s = Some s')"
  by (induction ss) (auto split: option.splits)

lemma project_stocks_positions:
  "map instrumentKey (filter is_position (project_stocks active ss)) =
   filter (\<lambda>k. k \<in> set active) (map instrumentKey ss)"
  by (induction ss)
    (auto simp: project_stock_key project_stock_position dest: project_stock_None split: option.splits)

lemma project_stocks_mapping:
  "length (filter (\<lambda>s. is_position s \<and> in_group ''mapping'' s) (project_stocks active ss)) =
   length (filter (\<lambda>s. instrumentKey s \<in> set active \<and> in_group ''mapping'' s) ss)"
  by (induction ss)
    (auto simp: project_stock_group project_stock_position dest: project_stock_None split: option.splits)

lemma length_filter_or:
  "length (filter (\<lambda>x. P x \<or> Q x) xs) + length (filter (\<lambda>x. P x \<and> Q x) xs)
     = length (filter P xs) + length (filter Q xs)"
  by (induction xs) auto

lemma coverage_complete:
  "lc_status (getLiveUniverseCoverage s u) = COVERAGE_COMPLETE \<longleftrightarrow>
   set (map liveInstrumentKey (lu_active u)) \<subseteq> set (map instrumentKey (qs_stocks s))"
  by (auto simp: getLiveUniverseCoverage_def Let_def filter_empty_conv split: if_splits)

text \<open>A concrete universe, with a constant digest.\<close>

definition sample_digest :: "string \<Rightarrow> string" where
  "sample_digest _ = replicate 64 CHR ''0''"

definition sample_universe :: live_universe where
  "sample_universe = \<lparr>lu_generated_at = ''1970-01-01T00:00:00.000Z'',
     lu_source_manifest_hash = ''sha256:'' @ replicate 64 CHR ''1'',
     lu_active = [\<lparr>li_market = ''CN'', li_exchange = ''SZ'', li_code = ''000001''\<rparr>,
                  \<lparr>li_market = ''CN'', li_exchange = ''SZ'', li_code = ''000002''\<rparr>],
     lu_content_hash = ''sha256:'' @ replicate 64 CHR ''0''\<rparr>"

lemma validate_sample_universe:
  "validateLiveUniverse sample_digest cu_cmp (JObj (universe_object sample_universe)) = Inr sample_universe"
  by code_simp

section \<open>Properties\<close>

text \<open>The LIVE universe store is last-known-good: after any sequence of write attempts, of
  which the invalid ones (a key that is not allowed, a duplicate instrument, a content hash that
  is not the digest of the canonical instruments) are rejected, a read returns the last accepted
  universe with its time of receipt.\<close>

theorem universe_last_known_good:
  assumes "comparator lc" "readLiveUniverse digest lc kv = Inr acc"
  shows "readLiveUniverse digest lc
      (kv_document.run (\<lambda>kv v t. writeLiveUniverse digest lc kv v (to_iso t)) kv ws) =
    Inr (kv_document.last_accepted (\<lambda>kv v t. writeLiveUniverse digest lc kv v (to_iso t)) kv acc ws)"
  by (rule string_order.read_universe_run [OF string_order.intro [OF assms(1)] assms(2)])

theorem universe_last_known_good_witness:
  "readLiveUniverse sample_digest cu_cmp
      (kv_document.run (\<lambda>kv v t. writeLiveUniverse sample_digest cu_cmp kv v (to_iso t)) Map.empty
        [(JObj (universe_object sample_universe), 5), (JNull, 7)])
   = Inr (Some (received sample_universe (to_iso 5)))"
proof -
  let ?put = "\<lambda>kv v t. writeLiveUniverse sample_digest cu_cmp kv v (to_iso t)"
  have "readLiveUniverse sample_digest cu_cmp Map.empty = Inr None" by (simp add: readLiveUniverse_def)
  note lkg = universe_last_known_good [OF cu.comparator_axioms this]
  obtain kv1 where w1: "?put Map.empty (JObj (universe_object sample_universe)) 5
      = Inr (kv1, received sample_universe (to_iso 5))"
    by (simp add: writeLiveUniverse_def validate_sample_universe)
  have w2: "?put kv1 JNull 7 = Inl ''quote universe must be an object''"
    by (simp add: writeLiveUniverse_def validateLiveUniverse_def)
  have "kv_document.last_accepted ?put Map.empty None [(JObj (universe_object sample_universe), 5), (JNull, 7)]
      = Some (received sample_universe (to_iso 5))"
    by (simp add: cu_order.universe_doc.last_accepted.simps w1 w2)
  then show ?thesis using lkg [of "[(JObj (universe_object sample_universe), 5), (JNull, 7)]"] by simp
qed

text \<open>Coverage counts add up and are exact: the missing keys are exactly the universe's
  instruments without a quote row, the counts of quoted and missing instruments add up to the
  active count, and the status is COMPLETE exactly when every active instrument has a row.\<close>

theorem coverage_exact:
  "let c = getLiveUniverseCoverage s u; active = map liveInstrumentKey (lu_active u);
       rows = set (map instrumentKey (qs_stocks s)) in
     set (lc_missing_active c) = set active - rows
   \<and> lc_quoted_active_count c = int (length (filter (\<lambda>k. k \<in> rows) active))
   \<and> lc_quoted_active_count c + int (length (lc_missing_active c)) = lc_active_count c
   \<and> (lc_status c = COVERAGE_COMPLETE) = (set active \<subseteq> rows)"
proof -
  let ?a = "map liveInstrumentKey (lu_active u)" and ?r = "set (map instrumentKey (qs_stocks s))"
  have "length (filter (\<lambda>k. k \<in> ?r) ?a) + length (filter (\<lambda>k. k \<notin> ?r) ?a) = length (lu_active u)"
    using sum_length_filter_compl [of "\<lambda>k. k \<in> ?r" ?a] by simp
  then show ?thesis
    using coverage_complete [of s u] by (auto simp: getLiveUniverseCoverage_def Let_def)
qed

text \<open>C35: when a validated universe is covered by a validated snapshot, the projection's
  positions are exactly the universe's instruments, each once: the rows marked as positions are
  as many as the active instruments and the summary says so, their quantities are stripped, and
  every other row has quantity 0.\<close>

theorem projection_positions_exact:
  assumes "comparator lc" "validateSnapshot o' v = Inr s" "validateLiveUniverse digest lc w = Inr u"
    and "lc_status (getLiveUniverseCoverage s (received u r)) = COVERAGE_COMPLETE"
  shows "let p = applyLiveUniverse s (received u r); held = filter is_position (qs_stocks p) in
      set (map instrumentKey held) = set (map liveInstrumentKey (lu_active u))
    \<and> distinct (map instrumentKey held)
    \<and> fld (qs_summary p) ''active_holding_total'' = Some (JInt (int (length (lu_active u))))
    \<and> list_all (\<lambda>x. fld x ''position_qty'' = Some (if is_position x then JNull else JInt 0)) (qs_stocks p)"
proof -
  let ?a = "map liveInstrumentKey (lu_active u)" and ?ss = "qs_stocks s"
  let ?p = "project_stocks ?a ?ss"
  have act: "lu_active (received u r) = lu_active u" by (simp add: received_def live_universe.defs)
  have d: "distinct (map instrumentKey ?ss)" using validateSnapshot_ok [OF assms(2)] by (simp add: snapshot_ok_def)
  have da: "distinct ?a" using validateLiveUniverse_ok [OF assms(1,3)] by (simp add: universe_ok_def)
  have sub: "set ?a \<subseteq> set (map instrumentKey ?ss)"
    using assms(4) unfolding coverage_complete act .
  have keys: "set (map instrumentKey (filter is_position ?p)) = set ?a"
    using sub unfolding project_stocks_positions by auto
  have dk: "distinct (map instrumentKey (filter is_position ?p))"
    unfolding project_stocks_positions using d by (rule distinct_filter)
  have "length (filter is_position ?p) = length (lu_active u)"
    using keys dk da by (metis distinct_card length_map)
  moreover have "fld x ''position_qty'' = Some (if is_position x then JNull else JInt 0)" if "x \<in> set ?p" for x
    using that by (auto simp: project_stocks_in project_stock_Some project_stock_position)
  ultimately show ?thesis
    using keys dk by (simp add: applyLiveUniverse_def Let_def act js_simps list_all_iff)
qed

theorem projection_positions_exact_witness:
  "fld (qs_summary (applyLiveUniverse sample_snapshot (received sample_universe ''t''))) ''active_holding_total''
   = Some (JInt 2)"
proof -
  have "lc_status (getLiveUniverseCoverage sample_snapshot (received sample_universe ''t'')) = COVERAGE_COMPLETE"
    by code_simp
  from projection_positions_exact [OF cu.comparator_axioms validate_sample_snapshot validate_sample_universe this]
  show ?thesis unfolding Let_def by (simp add: sample_universe_def)
qed

text \<open>The totals the projection writes are those of its rows, with one exception: the active
  quote total counts a mapping row that is held twice, once as a position and once as a mapping
  row, so it exceeds the snapshot contract's count by the number of held mapping rows.\<close>

theorem projection_totals:
  assumes "validateSnapshot o' v = Inr s"
  shows "let p = applyLiveUniverse s u; c = getSnapshotCounts (qs_stocks p);
           double = length (filter (\<lambda>x. instrumentKey x \<in> set (map liveInstrumentKey (lu_active u))
                                       \<and> in_group ''mapping'' x) (qs_stocks s)) in
      fld (qs_summary p) ''active_quote_total'' = Some (JInt (int (sc_active_quote c + double)))
    \<and> fld (qs_summary p) ''active_holding_total'' = Some (JInt (int (sc_active_holding c)))
    \<and> fld (qs_summary p) ''total'' = Some (JInt (int (sc_total c)))
    \<and> fld (qs_summary p) ''watch_total'' = Some (JInt (int (sc_watch c)))
    \<and> fld (qs_summary p) ''mapping_total'' = Some (JInt (int (sc_mapping c)))
    \<and> fld (qs_summary p) ''core_total'' = Some (JInt (int (sc_core c)))
    \<and> fld (qs_summary p) ''growth_total'' = Some (JInt (int (sc_growth c)))"
proof -
  let ?a = "map liveInstrumentKey (lu_active u)"
  let ?p = "project_stocks ?a (qs_stocks s)"
  have "is_active_quote x \<longleftrightarrow> is_position x \<or> in_group ''mapping'' x" if "x \<in> set ?p" for x
  proof -
    note elem = that
    obtain y where y: "y \<in> set (qs_stocks s)" "project_stock ?a y = Some x"
      using elem unfolding project_stocks_in by blast
    then have "classified y" using validateSnapshot_ok [OF assms] by (simp add: snapshot_ok_def list_all_iff)
    then show ?thesis
      using project_stock_Some(1) [OF y(2)] project_stock_group [OF y(2)]
      by (auto simp: is_active_quote_def classified_def in_group_def)
  qed
  then have "filter is_active_quote ?p = filter (\<lambda>x. is_position x \<or> in_group ''mapping'' x) ?p"
    by (rule filter_cong [OF refl])
  then have "length (filter is_active_quote ?p)
      + length (filter (\<lambda>x. instrumentKey x \<in> set ?a \<and> in_group ''mapping'' x) (qs_stocks s))
    = length (filter is_position ?p) + length (filter (in_group ''mapping'') ?p)"
    using length_filter_or [of is_position "in_group ''mapping''" ?p] project_stocks_mapping [of ?a "qs_stocks s"]
    by simp
  then show ?thesis
    by (simp add: applyLiveUniverse_def Let_def js_simps getSnapshotCounts_eq)
qed

theorem projection_totals_witness:
  "fld (qs_summary (applyLiveUniverse sample_snapshot (received sample_universe ''t''))) ''active_quote_total''
   = Some (JInt 3)
   \<and> sc_active_quote (getSnapshotCounts (qs_stocks
       (applyLiveUniverse sample_snapshot (received sample_universe ''t'')))) = 2"
proof -
  have c: "sc_active_quote (getSnapshotCounts (qs_stocks
       (applyLiveUniverse sample_snapshot (received sample_universe ''t'')))) = 2"
    "length (filter (\<lambda>x. instrumentKey x \<in> set (map liveInstrumentKey (lu_active (received sample_universe ''t'')))
       \<and> in_group ''mapping'' x) (qs_stocks sample_snapshot)) = 1"
    by code_simp+
  have "JInt (int (2 + 1)) = JInt 3" by simp
  then show ?thesis
    using projection_totals [OF validate_sample_snapshot, of "received sample_universe ''t''"]
    unfolding Let_def c by metis
qed

text \<open>The projection keeps the row contract of the snapshot except for one class: a row that
  passes the classification check passes it after the projection too, unless it is a mapping
  row that the universe holds; that one is marked ACTIVE, which the check rejects for mapping
  rows, so a projected snapshot with a held mapping row no longer satisfies the snapshot contract.\<close>

theorem projected_row_contract:
  assumes "validateClassification s c = Inr ()" "project_stock active s = Some s'"
  shows "validateClassification s' c = Inr () \<longleftrightarrow>
    \<not> (in_group ''mapping'' s \<and> instrumentKey s \<in> set active)"
proof -
  have cl: "classified s" by (rule validateClassification_ok [OF assms(1)])
  have f: "fld s' k = fld s k"
    if "k \<in> {''market'', ''exchange'', ''group'', ''portfolio_group'', ''portfolio_status'',
      ''mapping_only'', ''mapping_to'', ''mapped_to''}" for k
    using project_stock_Some(1) [OF assms(2), of k] that by auto
  have v: "\<not> outside HOLDING_STATUSES (Some (JStr ''ACTIVE''))" "\<not> outside HOLDING_STATUSES (Some (JStr ''WATCH''))"
    "\<not> outside HOLDING_STATUSES (Some (JStr ''MAPPING_ONLY''))" "\<not> bad_quantity (Some JNull)"
    "\<not> bad_quantity (Some (JNum (Fin 0)))" "\<not> not_string_or_null (Some JNull)"
    by (simp_all add: outside_def HOLDING_STATUSES_def bad_quantity_def not_string_or_null_def)
  have m: "truthy (fld s ''mapping_only'') \<or> in_group ''mapping'' s \<longleftrightarrow> in_group ''mapping'' s"
    using cl by (auto simp: classified_def in_group_def)
  show ?thesis
    using assms(1) f project_stock_Some(2-4) [OF assms(2), unfolded m]
    unfolding validateClassification_def Let_def throw_if_ok
    by (cases "instrumentKey s \<in> set active"; cases "in_group ''mapping'' s")
      (simp_all add: v in_group_def)
qed

theorem projected_row_contract_witness:
  "validateClassification (the (project_stock [''CN:000002''] sample_mapping)) ''row'' \<noteq> Inr ()"
proof -
  have 1: "validateClassification sample_mapping ''row'' = Inr ()" by code_simp
  have 2: "project_stock [''CN:000002''] sample_mapping = Some (the (project_stock [''CN:000002''] sample_mapping))"
    by code_simp
  have 3: "in_group ''mapping'' sample_mapping \<and> instrumentKey sample_mapping \<in> set [''CN:000002'']"
    by code_simp
  show ?thesis using projected_row_contract [OF 1 2] 3 by blast
qed

text \<open>A universe is fresh exactly when the anchoring timestamp is readable, at most five
  minutes in the future and at most the maximal age old; without a confirmation time the anchor
  is the generation time and the answer is the one of the strict check, while an empty
  confirmation time counts as a fallback but still anchors on the empty text.\<close>

theorem freshness_window:
  "let f = resolveLiveUniverseFreshness lp u lrcca now (of_int max_age) in
     fr_fresh f = (case date_parse lp (fr_anchor_timestamp f) of None \<Rightarrow> False
        | Some t \<Rightarrow> - 300000 \<le> now - t \<and> now - t \<le> 1000 * max_age)
   \<and> (lrcca = None \<longrightarrow> fr_anchor f = ANCHOR_GENERATED_AT
        \<and> fr_fresh f = (assertLiveUniverseFresh lp u now (of_int max_age) = Inr ()))
   \<and> (lrcca = Some '''' \<longrightarrow> fr_anchor_fallback f \<and> fr_anchor_timestamp f = '''')"
proof -
  have t: "age_seconds now x < - LIVE_UNIVERSE_FUTURE_TOLERANCE_SECONDS \<longleftrightarrow> now - x < - 300000" for x
    using age_seconds_less [of now x "- 300"] by (simp add: LIVE_UNIVERSE_FUTURE_TOLERANCE_SECONDS_def)
  then have t': "- LIVE_UNIVERSE_FUTURE_TOLERANCE_SECONDS \<le> age_seconds now x \<longleftrightarrow> - 300000 \<le> now - x" for x
    by (metis not_less)
  have m: "age_seconds now x \<le> of_int max_age \<longleftrightarrow> now - x \<le> 1000 * max_age" for x
    by (rule age_seconds_le)
  then have m': "of_int max_age < age_seconds now x \<longleftrightarrow> 1000 * max_age < now - x" for x
    by (metis not_le)
  show ?thesis
    by (auto simp: resolveLiveUniverseFreshness_def assertLiveUniverseFresh_def Let_def throw_if_ok t t' m m'
        simp del: throw_if.simps split: option.splits)
qed


theorem freshness_window_witness:
  "fr_anchor (resolveLiveUniverseFreshness (\<lambda>_. None) (received sample_universe ''t'') None 0 (of_int 5))
     = ANCHOR_GENERATED_AT
   \<and> fr_anchor_timestamp (resolveLiveUniverseFreshness (\<lambda>_. None) (received sample_universe ''t'') (Some '''') 0
       (of_int 5)) = ''''"
  using freshness_window [of "\<lambda>_. None" "received sample_universe ''t''" None 0 5, unfolded Let_def]
    freshness_window [of "\<lambda>_. None" "received sample_universe ''t''" "Some ''''" 0 5, unfolded Let_def]
  by blast

end
