(* ===== verification/Live_Overlay.thy ===== *)
theory Live_Overlay
  imports Live_Universe
begin

text \<open>
  \<open>src/src/live-overlay.ts\<close>: the bearer gate of the LIVE overlay, the redaction of instrument
  codes in texts for callers, and the only place where the overlay is applied to a caller's
  snapshot.
\<close>

section \<open>The gate\<close>

datatype live_overlay_status = ENABLED | SKIPPED_UNAUTHORIZED | SKIPPED_TOKEN_NOT_CONFIGURED
  | SKIPPED_INSUFFICIENT_SCOPE

definition MARKET_READ_SCOPE :: string where
  "MARKET_READ_SCOPE = ''market:read''"

definition resolveLiveOverlayStatus :: "string option \<Rightarrow> string option \<Rightarrow> live_overlay_status" where
  "resolveLiveOverlayStatus authorizationHeader configuredToken =
     (case configuredToken of None \<Rightarrow> SKIPPED_TOKEN_NOT_CONFIGURED
      | Some token \<Rightarrow>
          if token = '''' then SKIPPED_TOKEN_NOT_CONFIGURED
          else if authorizationHeader = Some (''Bearer '' @ token) then ENABLED
          else SKIPPED_UNAUTHORIZED)"

text \<open>\<open>text.split(/[sep]+/)\<close>: the pieces between maximal runs of separators.\<close>

fun split_runs :: "(char \<Rightarrow> bool) \<Rightarrow> bool \<Rightarrow> string \<Rightarrow> string \<Rightarrow> string list" where
  "split_runs sep in_run piece [] = [rev piece]"
| "split_runs sep in_run piece (c # cs) =
     (if sep c then (if in_run then split_runs sep True piece cs
                     else rev piece # split_runs sep True [] cs)
      else split_runs sep False (c # piece) cs)"

definition scope_separator :: "char \<Rightarrow> bool" where
  "scope_separator c \<longleftrightarrow> is_space c \<or> c = CHR '',''"

definition configured_scopes :: "string option \<Rightarrow> string list" where
  "configured_scopes configuredScopes =
     filter (\<lambda>s. s \<noteq> '''') (map js_trim
       (split_runs scope_separator False [] (case configuredScopes of None \<Rightarrow> '''' | Some s \<Rightarrow> s)))"

definition resolveMarketReadLiveOverlayStatus ::
  "string option \<Rightarrow> string option \<Rightarrow> string option \<Rightarrow> live_overlay_status" where
  "resolveMarketReadLiveOverlayStatus authorizationHeader configuredClientToken configuredScopes =
     (let credentialStatus = resolveLiveOverlayStatus authorizationHeader configuredClientToken in
      if credentialStatus \<noteq> ENABLED then credentialStatus
      else if MARKET_READ_SCOPE \<in> set (configured_scopes configuredScopes) then ENABLED
      else SKIPPED_INSUFFICIENT_SCOPE)"

definition isLiveOverlayEnabled :: "live_overlay_status \<Rightarrow> bool" where
  "isLiveOverlayEnabled status \<longleftrightarrow> status = ENABLED"

section \<open>Texts for callers\<close>

definition formatLiveCoverageFailureMessage :: "nat \<Rightarrow> string" where
  "formatLiveCoverageFailureMessage missingCount =
     ''upstream quote catalog is missing '' @ show_nat missingCount @ '' LIVE positions''"

definition INSTRUMENT_CODE_PLACEHOLDER :: string where
  "INSTRUMENT_CODE_PLACEHOLDER = ''[REDACTED_CODE]''"

definition is_letter :: "char \<Rightarrow> bool" where
  "is_letter c \<longleftrightarrow> CHR ''A'' \<le> c \<and> c \<le> CHR ''Z'' \<or> CHR ''a'' \<le> c \<and> c \<le> CHR ''z''"

definition is_alnum :: "char \<Rightarrow> bool" where
  "is_alnum c \<longleftrightarrow> is_digit c \<or> is_letter c"

text \<open>The length of \<open>[0-9]{5,6}(?![0-9A-Za-z])\<close> at the start of a text.\<close>

definition code_digits :: "string \<Rightarrow> nat option" where
  "code_digits s =
     (let n = length (takeWhile is_digit s) in
      if (n = 5 \<or> n = 6) \<and> (case drop n s of [] \<Rightarrow> True | c # _ \<Rightarrow> \<not> is_alnum c) then Some n else None)"

text \<open>\<open>[A-Za-z]{2}:\<close> at the start of a text.\<close>

fun market_prefix :: "string \<Rightarrow> bool" where
  "market_prefix (a # b # c # r) = (is_letter a \<and> is_letter b \<and> c = CHR '':'')"
| "market_prefix _ = False"

text \<open>The length of a match of \<open>INSTRUMENT_CODE_PATTERN\<close> at a position, given the character
  before it (the negative lookbehind \<open>(?<![0-9A-Za-z_:])\<close>).\<close>

definition code_match :: "char option \<Rightarrow> string \<Rightarrow> nat option" where
  "code_match before s =
     (if (case before of None \<Rightarrow> False | Some c \<Rightarrow> is_alnum c \<or> c = CHR ''_'' \<or> c = CHR '':'') then None
      else if market_prefix s \<and> code_digits (drop 3 s) \<noteq> None
      then map_option (\<lambda>n. n + 3) (code_digits (drop 3 s))
      else code_digits s)"

text \<open>\<open>text.replace(INSTRUMENT_CODE_PATTERN, INSTRUMENT_CODE_PLACEHOLDER)\<close>, left to right.\<close>

function redact :: "char option \<Rightarrow> string \<Rightarrow> string" where
  "redact before [] = []"
| "redact before (c # cs) =
     (case code_match before (c # cs) of
        None \<Rightarrow> c # redact (Some c) cs
      | Some n \<Rightarrow> INSTRUMENT_CODE_PLACEHOLDER
                   @ redact (Some ((c # cs) ! (n - 1))) (drop (n - 1) cs))"
  by pat_completeness auto
termination by (relation "measure (\<lambda>(_, s). length s)") auto

definition redactInstrumentCodes :: "string \<Rightarrow> string" where
  "redactInstrumentCodes text' = redact None text'"

section \<open>The projection for a caller\<close>

record live_coverage_error =
  lce_message :: string
  lce_missing_active :: "string list"
  lce_missing_count :: nat
  lce_active_count :: int
  lce_quoted_active_count :: int

definition LiveCoverageError :: "live_coverage \<Rightarrow> live_coverage_error" where
  "LiveCoverageError coverage =
     \<lparr>lce_message = formatLiveCoverageFailureMessage (length (lc_missing_active coverage)),
      lce_missing_active = lc_missing_active coverage,
      lce_missing_count = length (lc_missing_active coverage),
      lce_active_count = lc_active_count coverage,
      lce_quoted_active_count = lc_quoted_active_count coverage\<rparr>"

datatype overlay_coverage = NOT_CONFIGURED | OVERLAY_COVERAGE coverage_status
  | SKIPPED_PORTFOLIO_NOT_CONFIRMED | GATE live_overlay_status

record overlay_outcome =
  ov_snapshot :: quote_snapshot
  ov_applied :: bool
  ov_coverage :: overlay_coverage

record projection_input =
  pr_snapshot :: quote_snapshot
  pr_live_overlay_status :: live_overlay_status
  pr_universe_bound :: bool
  pr_universe :: "stored_universe option"
  pr_apply_overlay :: bool

definition projectCallerSnapshot :: "projection_input \<Rightarrow> live_coverage_error + overlay_outcome" where
  "projectCallerSnapshot inp =
     (let unchanged = (\<lambda>c. Inr \<lparr>ov_snapshot = pr_snapshot inp, ov_applied = False, ov_coverage = c\<rparr>) in
      if \<not> pr_universe_bound inp then unchanged NOT_CONFIGURED
      else if \<not> isLiveOverlayEnabled (pr_live_overlay_status inp)
      then unchanged (GATE (pr_live_overlay_status inp))
      else case pr_universe inp of
          None \<Rightarrow> unchanged NOT_CONFIGURED
        | Some universe \<Rightarrow>
            if \<not> pr_apply_overlay inp then unchanged SKIPPED_PORTFOLIO_NOT_CONFIRMED
            else (let coverage = getLiveUniverseCoverage (pr_snapshot inp) universe in
              if lc_status coverage \<noteq> COVERAGE_COMPLETE then Inl (LiveCoverageError coverage)
              else Inr \<lparr>ov_snapshot = applyLiveUniverse (pr_snapshot inp) universe, ov_applied = True,
                        ov_coverage = OVERLAY_COVERAGE (lc_status coverage)\<rparr>))"

section \<open>Facts\<close>

text \<open>The characters a match is made of; a match is decided by the run of them at its start.\<close>

definition word_char :: "char \<Rightarrow> bool" where
  "word_char c \<longleftrightarrow> is_alnum c \<or> c = CHR '':''"

text \<open>No position of the text starts a match.\<close>

fun free_of_codes :: "char option \<Rightarrow> string \<Rightarrow> bool" where
  "free_of_codes before [] = True"
| "free_of_codes before (c # cs) = (code_match before (c # cs) = None \<and> free_of_codes (Some c) cs)"

lemma code_digits_run: "code_digits (takeWhile word_char s) = code_digits s"
proof -
  have d: "takeWhile is_digit (takeWhile word_char s) = takeWhile is_digit s"
    by (induction s) (auto simp: word_char_def is_alnum_def)
  have e: "(case drop (length (takeWhile is_digit s)) (takeWhile word_char s) of [] \<Rightarrow> True | c # _ \<Rightarrow> \<not> is_alnum c)
      = (case drop (length (takeWhile is_digit s)) s of [] \<Rightarrow> True | c # _ \<Rightarrow> \<not> is_alnum c)"
    by (induction s) (auto simp: word_char_def is_alnum_def)
  show ?thesis unfolding code_digits_def Let_def d e ..
qed

lemma market_prefix_run:
  "market_prefix (takeWhile word_char s) = market_prefix s"
  "market_prefix s \<Longrightarrow> drop 3 (takeWhile word_char s) = takeWhile word_char (drop 3 s)"
  by (cases s rule: market_prefix.cases; auto simp: word_char_def is_alnum_def eval_nat_numeral)+

lemma code_match_run: "code_match before (takeWhile word_char s) = code_match before s"
  by (cases "market_prefix s") (simp_all add: code_match_def market_prefix_run code_digits_run)

lemma code_match_after_word: "word_char c \<Longrightarrow> code_match (Some c) s = None"
  by (auto simp: code_match_def word_char_def)

lemma code_digits_first: "code_digits (c # cs) \<noteq> None \<Longrightarrow> is_digit c"
  by (auto simp: code_digits_def Let_def split: if_splits)

lemma code_match_first: "code_match before (c # cs) \<noteq> None \<Longrightarrow> is_alnum c"
  using code_digits_first [of c cs]
  by (cases "c # cs" rule: market_prefix.cases) (auto simp: code_match_def is_alnum_def split: if_splits)

lemma code_match_before: "\<not> is_alnum c \<Longrightarrow> code_match before (c # cs) = None"
  using code_match_first by blast

text \<open>What follows a match does not begin with a letter or a digit.\<close>

lemma code_digits_after:
  assumes "code_digits s = Some n" "drop n s = x # r"
  shows "\<not> is_alnum x"
  using assms by (auto simp: code_digits_def Let_def split: if_splits)

lemma code_match_after:
  assumes "code_match before s = Some n" "drop n s = x # r"
  shows "\<not> is_alnum x" "0 < n"
proof -
  have "\<not> is_alnum x \<and> 0 < n"
    using assms code_digits_after [of s n x r] code_digits_after [of "drop 3 s" "n - 3" x r]
    by (auto simp: code_match_def code_digits_def Let_def add.commute split: if_splits)
  then show "\<not> is_alnum x" "0 < n" by auto
qed

text \<open>After a word character the text is kept up to and including the next character that is
  none.\<close>

lemma redact_in_word:
  "word_char c \<Longrightarrow> redact (Some c) s = takeWhile word_char s @
     (case dropWhile word_char s of [] \<Rightarrow> [] | x # r \<Rightarrow> x # redact (Some x) r)"
proof (induction s arbitrary: c)
  case (Cons x s)
  have "redact (Some c) (x # s) = x # redact (Some x) s"
    by (simp add: code_match_after_word [OF Cons.prems])
  then show ?case using Cons.IH [of x] by auto
qed simp

lemma redact_keeps_run:
  "code_match before (c # redact (Some c) s) = code_match before (c # s)"
proof (cases "word_char c")
  case True
  have "takeWhile word_char (redact (Some c) s) = takeWhile word_char s"
    unfolding redact_in_word [OF True] by (auto simp: takeWhile_append split: list.splits dest!: dropWhile_eq_Cons_conv [THEN iffD1])
  then have "takeWhile word_char (c # redact (Some c) s) = takeWhile word_char (c # s)" by simp
  then show ?thesis by (metis code_match_run)
next
  case False
  then show ?thesis by (simp add: code_match_before word_char_def)
qed

lemma free_after_placeholder:
  assumes "free_of_codes (Some CHR '']'') s"
  shows "free_of_codes before (INSTRUMENT_CODE_PLACEHOLDER @ s)"
proof -
  have "code_match before (CHR ''['' # r) = None" for r
    by (rule code_match_before) (simp add: is_alnum_def is_digit_def is_letter_def)
  moreover have "code_match (Some CHR ''['') (CHR ''R'' # CHR ''E'' # CHR ''D'' # r) = None" for r
    by (simp add: code_match_def code_digits_def is_digit_def)
  moreover have "code_match (Some CHR ''_'') r = None" for r
    by (simp add: code_match_def)
  ultimately show ?thesis
    using assms by (simp add: INSTRUMENT_CODE_PLACEHOLDER_def code_match_after_word word_char_def
        is_alnum_def is_letter_def)
qed

lemma redact_free:
  "before' = before \<or> (\<forall>x r. s = x # r \<longrightarrow> \<not> is_alnum x) \<Longrightarrow> free_of_codes before' (redact before s)"
proof (induction before s arbitrary: before' rule: redact.induct)
  case (2 before c cs)
  show ?case
  proof (cases "code_match before (c # cs)")
    case None
    have "code_match before' (c # cs) = None"
      using 2(3) None code_match_before by auto
    then show ?thesis using None 2(1) [OF None] by (simp add: redact_keeps_run)
  next
    case (Some n)
    have "0 < n" if "drop n (c # cs) = x # r" for x r
      using code_match_after(2) [OF Some that] .
    then have "\<forall>x r. drop (n - 1) cs = x # r \<longrightarrow> \<not> is_alnum x"
      using code_match_after(1) [OF Some] by (cases n) auto
    then show ?thesis using Some 2(2) [OF Some] by (simp add: free_after_placeholder)
  qed
qed simp

lemma redact_free_id: "free_of_codes before s \<Longrightarrow> redact before s = s"
  by (induction before s rule: redact.induct) auto

section \<open>Properties\<close>

text \<open>C37: a caller sees the LIVE overlay exactly when the store is bound, the bearer gate is
  ENABLED, a universe is present and the portfolio state is confirmed, and every active
  instrument has a quote row. When only the coverage fails the call fails; in every other case
  the caller gets the snapshot unchanged.\<close>

theorem caller_projection_gate:
  "let gate = pr_universe_bound inp \<and> pr_live_overlay_status inp = ENABLED \<and> pr_apply_overlay inp in
   case projectCallerSnapshot inp of
     Inl e \<Rightarrow> gate \<and> (\<exists>u. pr_universe inp = Some u
        \<and> lc_status (getLiveUniverseCoverage (pr_snapshot inp) u) = COVERAGE_INCOMPLETE)
   | Inr out \<Rightarrow> if ov_applied out
       then gate \<and> (\<exists>u. pr_universe inp = Some u \<and> ov_snapshot out = applyLiveUniverse (pr_snapshot inp) u
          \<and> set (map liveInstrumentKey (lu_active u)) \<subseteq> set (map instrumentKey (qs_stocks (pr_snapshot inp))))
       else ov_snapshot out = pr_snapshot inp \<and> \<not> (gate \<and> pr_universe inp \<noteq> None)"
  using coverage_complete [of "pr_snapshot inp" "the (pr_universe inp)"]
  by (auto simp: projectCallerSnapshot_def Let_def isLiveOverlayEnabled_def split: option.splits
      intro: coverage_status.exhaust)

text \<open>The message of a coverage failure depends only on how many positions are missing: two
  failing calls that miss equally many instruments get the same text, whatever the codes are.\<close>

theorem coverage_failure_text:
  assumes "projectCallerSnapshot inp = Inl e" "projectCallerSnapshot inp' = Inl e'"
    and "length (lce_missing_active e) = length (lce_missing_active e')"
  shows "lce_message e = lce_message e'"
  using assms by (auto simp: projectCallerSnapshot_def Let_def LiveCoverageError_def
      split: option.splits if_splits)

theorem coverage_failure_text_witness:
  "lce_message (LiveCoverageError (getLiveUniverseCoverage (sample_snapshot\<lparr>qs_stocks := [sample_held]\<rparr>)
      (received sample_universe ''t'')))
   = lce_message (LiveCoverageError (getLiveUniverseCoverage (sample_snapshot\<lparr>qs_stocks := [sample_mapping]\<rparr>)
      (received sample_universe ''t'')))"
proof -
  let ?call = "\<lambda>rows. projectCallerSnapshot \<lparr>pr_snapshot = sample_snapshot\<lparr>qs_stocks := rows\<rparr>,
    pr_live_overlay_status = ENABLED, pr_universe_bound = True,
    pr_universe = Some (received sample_universe ''t''), pr_apply_overlay = True\<rparr>"
  let ?error = "\<lambda>rows. LiveCoverageError (getLiveUniverseCoverage (sample_snapshot\<lparr>qs_stocks := rows\<rparr>)
    (received sample_universe ''t''))"
  have c: "lc_status (getLiveUniverseCoverage (sample_snapshot\<lparr>qs_stocks := [sample_held]\<rparr>)
      (received sample_universe ''t'')) = COVERAGE_INCOMPLETE"
    "lc_status (getLiveUniverseCoverage (sample_snapshot\<lparr>qs_stocks := [sample_mapping]\<rparr>)
      (received sample_universe ''t'')) = COVERAGE_INCOMPLETE"
    by code_simp+
  have 1: "?call [sample_held] = Inl (?error [sample_held])" "?call [sample_mapping] = Inl (?error [sample_mapping])"
    by (simp_all add: projectCallerSnapshot_def Let_def isLiveOverlayEnabled_def c)
  have 2: "length (lce_missing_active (?error [sample_held])) = length (lce_missing_active (?error [sample_mapping]))"
    by code_simp
  show ?thesis by (rule coverage_failure_text [OF 1 2])
qed

text \<open>The market-read gate opens exactly for a configured, non-empty token presented verbatim
  as a bearer credential by a client whose configured scopes contain \<open>market:read\<close>; a missing
  token is reported as such whatever the request carries.\<close>

theorem market_read_gate:
  "(resolveMarketReadLiveOverlayStatus header token scopes = ENABLED) =
     (\<exists>t. token = Some t \<and> t \<noteq> '''' \<and> header = Some (''Bearer '' @ t)
          \<and> MARKET_READ_SCOPE \<in> set (configured_scopes scopes))
   \<and> (resolveMarketReadLiveOverlayStatus header token scopes = SKIPPED_TOKEN_NOT_CONFIGURED) =
     (token = None \<or> token = Some '''')"
  by (auto simp: resolveMarketReadLiveOverlayStatus_def resolveLiveOverlayStatus_def Let_def
      split: option.splits)

text \<open>Redaction leaves no instrument code: no position of the redacted text starts a match of
  the code pattern, so redacting again changes nothing.\<close>

theorem redaction_complete:
  "free_of_codes None (redactInstrumentCodes text')
   \<and> redactInstrumentCodes (redactInstrumentCodes text') = redactInstrumentCodes text'"
  using redact_free [of None None text'] by (simp add: redactInstrumentCodes_def redact_free_id)

end
