(* ===== verification/Quote_Projections.thy ===== *)
theory Quote_Projections
  imports Portfolio_Validation
begin

text \<open>
  \<open>src/src/quote-projections.ts\<close>: the public quote snapshot, an allow-listed projection of the
  private catalog snapshot that is checked once more before it leaves.
\<close>

section \<open>Allowed and forbidden keys\<close>

definition PUBLIC_QUOTE_SNAPSHOT_SCHEMA :: string where
  "PUBLIC_QUOTE_SNAPSHOT_SCHEMA = ''public_quote_snapshot/1''"

definition PUBLIC_TOP_LEVEL_KEYS :: "string list" where
  "PUBLIC_TOP_LEVEL_KEYS = [''schema_version'', ''snapshot_time'', ''market_status'', ''source_mode'',
     ''system_quality'', ''summary'', ''stocks'']"

definition PUBLIC_SUMMARY_KEYS :: "string list" where
  "PUBLIC_SUMMARY_KEYS = [''total'', ''usable'']"

definition PUBLIC_STOCK_FIELDS :: "string list" where
  "PUBLIC_STOCK_FIELDS =
     [''market'', ''exchange'', ''code'', ''name'', ''price'', ''change'', ''change_pct'', ''pre_close'',
      ''prev_close'', ''open'', ''high'', ''low'', ''pct_change'', ''volume'', ''amount'',
      ''market_status'', ''market_data_time'', ''source_update_time'', ''freshness_basis'',
      ''quote_time'', ''fetch_time'', ''age_seconds'', ''primary_source'', ''secondary_source'',
      ''source_status'', ''quality'']"

definition FORBIDDEN_KEYS :: "string list" where
  "FORBIDDEN_KEYS =
     [''portfolio_universe'', ''portfolio_version'', ''portfolio_group'', ''portfolio_status'',
      ''holding_status'', ''mapping_only'', ''mapped_to'', ''mapping_to'', ''position_qty'',
      ''is_position'', ''active_holding_total'', ''active_quote_total'', ''watch_total'',
      ''exited_watch_total'', ''mapping_total'', ''core_total'', ''growth_total'', ''live_universe'',
      ''live_universe_hash'', ''live_universe_count'', ''live_universe_status'', ''active_count'',
      ''holding_count'', ''position_count'', ''account'', ''cost'', ''order'', ''orders'',
      ''credential'', ''credentials'', ''token'', ''secret'']"

section \<open>The checks\<close>

definition assertExactKeys_public :: "jsobj \<Rightarrow> string list \<Rightarrow> string \<Rightarrow> unit result" where
  "assertExactKeys_public ob allowed context' =
     (case find (\<lambda>k. k \<notin> set allowed) (map fst ob) of
        Some k \<Rightarrow> Inl (context' @ ''.'' @ k @ '' is not allowed in public quote snapshot'')
      | None \<Rightarrow> Inr ())"

text \<open>The recursive walk, with the walks over the elements of an array and the entries of an
  object.\<close>

fun assertNoForbiddenKeys :: "jsval \<Rightarrow> string \<Rightarrow> unit result"
  and forbidden_items :: "jsval list \<Rightarrow> string \<Rightarrow> nat \<Rightarrow> unit result"
  and forbidden_entries :: "(string \<times> jsval) list \<Rightarrow> string \<Rightarrow> unit result" where
  "assertNoForbiddenKeys (JArr xs) c = forbidden_items xs c 0"
| "assertNoForbiddenKeys (JObj ob) c = forbidden_entries ob c"
| "assertNoForbiddenKeys _ c = Inr ()"
| "forbidden_items [] c i = Inr ()"
| "forbidden_items (x # xs) c i =
     bindE (assertNoForbiddenKeys x (row_context c i)) (\<lambda>_. forbidden_items xs c (Suc i))"
| "forbidden_entries [] c = Inr ()"
| "forbidden_entries ((k, v) # es) c =
     (if k \<in> set FORBIDDEN_KEYS then Inl (c @ ''.'' @ k @ '' is forbidden in public quote snapshot'')
      else bindE (assertNoForbiddenKeys v (c @ ''.'' @ k)) (\<lambda>_. forbidden_entries es c))"

definition optionalString :: "jsval option \<Rightarrow> string \<Rightarrow> string option result" where
  "optionalString v field =
     (if v = None \<or> v = Some JNull then Inr None
      else case as_string v of
          Some s \<Rightarrow> if s = '''' then Inl (''snapshot.'' @ field @ '' must be a non-empty string when supplied'')
                    else Inr (Some s)
        | None \<Rightarrow> Inl (''snapshot.'' @ field @ '' must be a non-empty string when supplied''))"

definition optionalUsable :: "jsval option \<Rightarrow> rat option result" where
  "optionalUsable v =
     (if v = None \<or> v = Some JNull then Inr None
      else case as_finite v of
          Some q \<Rightarrow> if q < 0 \<or> \<not> is_integer q
                    then Inl ''summary.usable must be a non-negative integer when supplied'' else Inr (Some q)
        | None \<Rightarrow> Inl ''summary.usable must be a non-negative integer when supplied'')"

definition pickPublicStock :: "quote_stock \<Rightarrow> jsobj" where
  "pickPublicStock stock = pick PUBLIC_STOCK_FIELDS stock"

text \<open>\<open>v !== undefined && (typeof v !== "string" || v.length === 0)\<close>\<close>

definition bad_optional_text :: "jsval option \<Rightarrow> bool" where
  "bad_optional_text v \<longleftrightarrow> v \<noteq> None \<and> \<not> nonempty_text v"

definition check_public_stock :: "jsval \<Rightarrow> nat \<Rightarrow> unit result" where
  "check_public_stock stock index =
     (let c = row_context ''public_quote_snapshot.stocks'' index in
      case as_record stock of None \<Rightarrow> Inl (c @ '' must be an object'')
      | Some ob \<Rightarrow> assertExactKeys_public ob PUBLIC_STOCK_FIELDS c)"

definition assertPublicQuotePrivacy :: "jsval \<Rightarrow> unit result" where
  "assertPublicQuotePrivacy v =
     (case as_record v of None \<Rightarrow> Inl ''public quote snapshot must be an object''
      | Some ob \<Rightarrow>
      bindE (assertNoForbiddenKeys (JObj ob) ''public_quote_snapshot'') (\<lambda>_.
      bindE (assertExactKeys_public ob PUBLIC_TOP_LEVEL_KEYS ''public_quote_snapshot'') (\<lambda>_.
      bindE (throw_if
        [(fld ob ''schema_version'' \<noteq> Some (JStr PUBLIC_QUOTE_SNAPSHOT_SCHEMA),
            ''schema_version must be '' @ PUBLIC_QUOTE_SNAPSHOT_SCHEMA),
         (\<not> nonempty_text (fld ob ''snapshot_time''),
            ''public_quote_snapshot.snapshot_time must be a non-empty string''),
         (bad_optional_text (fld ob ''market_status''),
            ''public_quote_snapshot.market_status must be a non-empty string when supplied''),
         (bad_optional_text (fld ob ''source_mode''),
            ''public_quote_snapshot.source_mode must be a non-empty string when supplied''),
         (\<not> nonempty_text (fld ob ''system_quality''),
            ''public_quote_snapshot.system_quality must be a non-empty string'')]) (\<lambda>_.
      (case Option.bind (fld ob ''summary'') as_record of
         None \<Rightarrow> Inl ''public_quote_snapshot.summary must be an object''
       | Some summary \<Rightarrow>
      bindE (assertExactKeys_public summary PUBLIC_SUMMARY_KEYS ''public_quote_snapshot.summary'') (\<lambda>_.
      bindE (throw_if
        [(\<not> non_negative_integer (fld summary ''total''),
            ''public_quote_snapshot.summary.total must be a non-negative integer''),
         (fld summary ''usable'' \<noteq> None \<and> \<not> non_negative_integer (fld summary ''usable''),
            ''public_quote_snapshot.summary.usable must be a non-negative integer when supplied'')]) (\<lambda>_.
      (case as_array (fld ob ''stocks'') of
         None \<Rightarrow> Inl ''public_quote_snapshot.stocks must be an array''
       | Some stocks \<Rightarrow>
      bindE (throw_if [(fld summary ''total'' \<noteq> Some (JInt (int (length stocks))),
        ''public_quote_snapshot.summary.total must match stocks.length'')]) (\<lambda>_.
      bindE (mapE check_public_stock stocks) (\<lambda>_. Inr ()))))))))))"

section \<open>The projection\<close>

definition optional_entry :: "string \<Rightarrow> jsval option \<Rightarrow> jsobj" where
  "optional_entry k v = (case v of None \<Rightarrow> [] | Some x \<Rightarrow> [(k, x)])"

definition public_object ::
  "quote_snapshot \<Rightarrow> string option \<Rightarrow> string option \<Rightarrow> rat option \<Rightarrow> jsobj" where
  "public_object catalog marketStatus sourceMode usable =
     [(''schema_version'', JStr PUBLIC_QUOTE_SNAPSHOT_SCHEMA)]
     @ optional_entry ''snapshot_time'' (fld (qs_fields catalog) ''snapshot_time'')
     @ optional_entry ''system_quality'' (fld (qs_fields catalog) ''system_quality'')
     @ [(''summary'', JObj (optional_entry ''total'' (fld (qs_summary catalog) ''total'')
          @ optional_entry ''usable'' (map_option (\<lambda>q. JNum (Fin q)) usable))),
        (''stocks'', JArr (map (\<lambda>s. JObj (pickPublicStock s)) (qs_stocks catalog)))]
     @ optional_entry ''market_status'' (map_option JStr marketStatus)
     @ optional_entry ''source_mode'' (map_option JStr sourceMode)"

definition toPublicQuoteSnapshot :: "jsval \<Rightarrow> jsobj result" where
  "toPublicQuoteSnapshot v =
     bindE (validateSnapshot \<lparr>vo_expected_active = None, vo_require_watch = False\<rparr> v) (\<lambda>catalog.
     bindE (optionalString (fld (qs_fields catalog) ''market_status'') ''market_status'') (\<lambda>marketStatus.
     bindE (optionalString (fld (qs_fields catalog) ''source_mode'') ''source_mode'') (\<lambda>sourceMode.
     bindE (optionalUsable (fld (qs_summary catalog) ''usable'')) (\<lambda>usable.
     (let projected = public_object catalog marketStatus sourceMode usable in
      bindE (assertPublicQuotePrivacy (JObj projected)) (\<lambda>_. Inr projected))))))"

section \<open>Facts\<close>

text \<open>All keys at any depth.\<close>

fun keys_in :: "jsval \<Rightarrow> string list"
  and item_keys :: "jsval list \<Rightarrow> string list"
  and entry_keys :: "(string \<times> jsval) list \<Rightarrow> string list" where
  "keys_in (JArr xs) = item_keys xs"
| "keys_in (JObj ob) = entry_keys ob"
| "keys_in _ = []"
| "item_keys [] = []"
| "item_keys (x # xs) = keys_in x @ item_keys xs"
| "entry_keys [] = []"
| "entry_keys ((k, v) # es) = k # keys_in v @ entry_keys es"

lemma assertNoForbiddenKeys_ok:
  "assertNoForbiddenKeys v c = Inr () \<longleftrightarrow> set (keys_in v) \<inter> set FORBIDDEN_KEYS = {}"
  "forbidden_items xs c i = Inr () \<longleftrightarrow> set (item_keys xs) \<inter> set FORBIDDEN_KEYS = {}"
  "forbidden_entries es c = Inr () \<longleftrightarrow> set (entry_keys es) \<inter> set FORBIDDEN_KEYS = {}"
  by (induction v c and xs c i and es c rule: assertNoForbiddenKeys_forbidden_items_forbidden_entries.induct)
    (auto simp: bindE_Inr)

lemma assertExactKeys_public_ok:
  "assertExactKeys_public ob allowed c = Inr () \<longleftrightarrow> fst ` set ob \<subseteq> set allowed"
proof (cases "find (\<lambda>k. k \<notin> set allowed) (map fst ob)")
  case None
  then have "fst ` set ob \<subseteq> set allowed" by (auto simp: find_None_iff)
  with None show ?thesis by (simp add: assertExactKeys_public_def)
next
  case (Some k)
  then have "k \<in> fst ` set ob" "k \<notin> set allowed"
    by (auto simp: find_Some_iff simp flip: set_map intro!: nth_mem)
  with Some show ?thesis by (auto simp: assertExactKeys_public_def)
qed

lemma item_keys_set: "set (item_keys xs) = (\<Union>x \<in> set xs. set (keys_in x))"
  by (induction xs) auto

lemma entry_keys_set: "set (entry_keys es) = fst ` set es \<union> (\<Union>e \<in> set es. set (keys_in (snd e)))"
  by (induction es) (auto, force)

text \<open>A validated row holds scalars in every public field.\<close>

definition scalar :: "jsval \<Rightarrow> bool" where
  "scalar v \<longleftrightarrow> keys_in v = [] \<and> (case v of JArr _ \<Rightarrow> False | JObj _ \<Rightarrow> False | _ \<Rightarrow> True)"

lemma scalar_simps [simp]: "scalar JNull" "scalar (JBool b)" "scalar (JNum n)" "scalar (JStr s)"
  by (simp_all add: scalar_def)

lemma scalar_cases:
  "as_finite v \<noteq> None \<or> v = Some JNull \<Longrightarrow> \<exists>x. v = Some x \<and> scalar x"
  "\<not> not_string_or_null v \<Longrightarrow> \<exists>x. v = Some x \<and> scalar x"
  "\<not> outside allowed v \<Longrightarrow> \<exists>x. v = Some x \<and> scalar x"
  by (auto simp: not_string_or_null_def outside_iff)

definition public_scalars :: "quote_stock \<Rightarrow> bool" where
  "public_scalars s \<longleftrightarrow> (\<forall>f \<in> set PUBLIC_STOCK_FIELDS. \<exists>x. fld s f = Some x \<and> scalar x)"

lemma validateStock_scalars:
  assumes "validateStock v i = Inr s"
  shows "public_scalars s"
proof -
  let ?ok = "\<lambda>f. \<exists>x. fld s f = Some x \<and> scalar x"
  let ?texts = "[''code'', ''name'', ''market_status'', ''freshness_basis'', ''source_status'', ''quality'', ''fetch_time'']"
  let ?nullable = "[''market_data_time'', ''quote_time'', ''source_update_time'', ''primary_source'', ''secondary_source'']"
  have all: "validateClassification s (row_context ''stocks'' i) = Inr ()
    \<and> (\<forall>f \<in> set ?texts. \<exists>x. fld s f = Some (JStr x))
    \<and> (\<forall>f \<in> set numericFields. as_finite (fld s f) \<noteq> None \<or> fld s f = Some JNull)
    \<and> (\<forall>f \<in> set ?nullable. \<not> not_string_or_null (fld s f))"
    using assms by (auto simp: validateStock_def Let_def bindE_Inr requireString_ok split: option.splits)
  note g = conjunct1 [OF all] and t = bspec [OF conjunct1 [OF conjunct2 [OF all]]]
    and n = bspec [OF conjunct1 [OF conjunct2 [OF conjunct2 [OF all]]]]
    and d = bspec [OF conjunct2 [OF conjunct2 [OF conjunct2 [OF all]]]]
  have "\<not> outside MARKETS (fld s ''market'')" "\<not> outside EXCHANGES (fld s ''exchange'')"
    using g unfolding validateClassification_def Let_def throw_if_ok by simp_all
  then have "?ok ''market''" "?ok ''exchange''" by (auto dest: scalar_cases(3))
  moreover have "\<forall>f \<in> set ?texts. ?ok f" by (rule ballI) (drule t, auto)
  moreover have "\<forall>f \<in> set numericFields. ?ok f" by (rule ballI) (rule scalar_cases(1) [OF n])
  moreover have "\<forall>f \<in> set ?nullable. ?ok f" by (rule ballI) (rule scalar_cases(2) [OF d])
  ultimately show ?thesis
    unfolding public_scalars_def PUBLIC_STOCK_FIELDS_def numericFields_def by simp
qed

lemma fld_filter_keys: "fld (filter (\<lambda>(k, _). k \<notin> S) ob) k = (if k \<in> S then None else fld ob k)"
  by (induction ob) auto

text \<open>What else a validated snapshot provides: scalar public fields, and the top-level texts.\<close>

lemma validateSnapshot_public:
  assumes "validateSnapshot o' v = Inr s"
  shows "list_all public_scalars (qs_stocks s)"
    "nonempty_text (fld (qs_fields s) ''snapshot_time'')" "nonempty_text (fld (qs_fields s) ''system_quality'')"
proof -
  obtain ob rows where st: "mapE validateStock rows = Inr (qs_stocks s)"
    and t: "nonempty_text (fld ob ''snapshot_time'')" "nonempty_text (fld ob ''system_quality'')"
    and f: "qs_fields s = filter (\<lambda>(k, _). k \<notin> set [''summary'', ''stocks'', ''portfolio_universe'']) ob"
    using assms by (auto simp: validateSnapshot_def Let_def bindE_Inr throw_if_ok simp del: throw_if.simps
        split: option.splits)
  show "list_all public_scalars (qs_stocks s)" by (rule mapE_all [OF st]) (rule validateStock_scalars)
  show "nonempty_text (fld (qs_fields s) ''snapshot_time'')" "nonempty_text (fld (qs_fields s) ''system_quality'')"
    unfolding f fld_filter_keys using t by simp_all
qed

lemma optionalString_Some: "optionalString v f = Inr (Some s) \<Longrightarrow> s \<noteq> ''''"
  by (auto simp: optionalString_def split: option.splits if_splits)

lemma optionalUsable_Some: "optionalUsable v = Inr (Some q) \<Longrightarrow> 0 \<le> q \<and> is_integer q"
  by (auto simp: optionalUsable_def split: option.splits if_splits)

lemma pick_entry: "(k, v) \<in> set (pick names ob) \<longleftrightarrow> k \<in> set names \<and> fld ob k = Some v"
  by (auto simp: pick_def split: option.splits)

lemma pick_keys_in:
  assumes "public_scalars s"
  shows "set (keys_in (JObj (pickPublicStock s))) \<subseteq> set PUBLIC_STOCK_FIELDS"
proof -
  have "k \<in> set PUBLIC_STOCK_FIELDS \<and> keys_in v = []" if "(k, v) \<in> set (pickPublicStock s)" for k v
    using that assms unfolding pickPublicStock_def pick_entry public_scalars_def scalar_def by auto
  then show ?thesis by (force simp: entry_keys_set)
qed

lemma public_keys_allowed:
  "set PUBLIC_STOCK_FIELDS \<inter> set FORBIDDEN_KEYS = {}"
  "set PUBLIC_TOP_LEVEL_KEYS \<inter> set FORBIDDEN_KEYS = {}" "set PUBLIC_SUMMARY_KEYS \<inter> set FORBIDDEN_KEYS = {}"
proof -
  have "list_all (\<lambda>k. k \<notin> set FORBIDDEN_KEYS) (PUBLIC_STOCK_FIELDS @ PUBLIC_TOP_LEVEL_KEYS @ PUBLIC_SUMMARY_KEYS)"
    by code_simp
  then show "set PUBLIC_STOCK_FIELDS \<inter> set FORBIDDEN_KEYS = {}"
    "set PUBLIC_TOP_LEVEL_KEYS \<inter> set FORBIDDEN_KEYS = {}" "set PUBLIC_SUMMARY_KEYS \<inter> set FORBIDDEN_KEYS = {}"
    by (auto simp: list_all_iff)
qed

lemma nonempty_text_Some: "nonempty_text v \<longleftrightarrow> (\<exists>s. v = Some (JStr s) \<and> s \<noteq> '''')"
  by (cases v rule: truthy.cases) (simp_all add: nonempty_text_def)

lemma public_object_fields:
  assumes "nonempty_text (fld (qs_fields s) ''snapshot_time'')" "nonempty_text (fld (qs_fields s) ''system_quality'')"
    "fld (qs_summary s) ''total'' = Some t"
  shows "fld (public_object s m sm us) ''schema_version'' = Some (JStr PUBLIC_QUOTE_SNAPSHOT_SCHEMA)"
    "fld (public_object s m sm us) ''snapshot_time'' = fld (qs_fields s) ''snapshot_time''"
    "fld (public_object s m sm us) ''system_quality'' = fld (qs_fields s) ''system_quality''"
    "fld (public_object s m sm us) ''summary'' =
       Some (JObj ((''total'', t) # optional_entry ''usable'' (map_option (\<lambda>q. JNum (Fin q)) us)))"
    "fld (public_object s m sm us) ''stocks'' = Some (JArr (map (\<lambda>x. JObj (pickPublicStock x)) (qs_stocks s)))"
    "fld (public_object s m sm us) ''market_status'' = map_option JStr m"
    "fld (public_object s m sm us) ''source_mode'' = map_option JStr sm"
    "fst ` set (public_object s m sm us) \<subseteq> set PUBLIC_TOP_LEVEL_KEYS"
  using assms unfolding nonempty_text_Some
  by (auto simp: public_object_def optional_entry_def PUBLIC_TOP_LEVEL_KEYS_def split: option.splits)

lemma public_object_keys:
  assumes "validateSnapshot o' v = Inr s"
  shows "set (keys_in (JObj (public_object s m sm us))) \<inter> set FORBIDDEN_KEYS = {}"
proof -
  note p = validateSnapshot_public [OF assms]
  obtain a b where t: "fld (qs_fields s) ''snapshot_time'' = Some (JStr a)"
    "fld (qs_fields s) ''system_quality'' = Some (JStr b)"
    using p(2,3) by (auto simp: nonempty_text_Some)
  have tot: "fld (qs_summary s) ''total'' = Some (JInt (int (length (qs_stocks s))))"
    using validateSnapshot_ok [OF assms] by (simp add: snapshot_ok_def)
  have "set (keys_in (JArr (map (\<lambda>x. JObj (pickPublicStock x)) (qs_stocks s)))) \<subseteq> set PUBLIC_STOCK_FIELDS"
    using p(1) pick_keys_in by (force simp: item_keys_set list_all_iff)
  then have "set (keys_in (JObj (public_object s m sm us)))
      \<subseteq> set PUBLIC_TOP_LEVEL_KEYS \<union> set PUBLIC_SUMMARY_KEYS \<union> set PUBLIC_STOCK_FIELDS"
    by (auto simp: public_object_def optional_entry_def t tot PUBLIC_TOP_LEVEL_KEYS_def PUBLIC_SUMMARY_KEYS_def
        split: option.splits)
  with public_keys_allowed show ?thesis by blast
qed

lemma check_public_stocks:
  "\<exists>us. mapE check_public_stock (map (\<lambda>x. JObj (pickPublicStock x)) ss) = Inr us"
proof -
  have "check_public_stock (JObj (pickPublicStock x)) i = Inr ()" for x i
    using keys_pick by (simp add: check_public_stock_def Let_def assertExactKeys_public_ok pickPublicStock_def)
  then have "mapE check_public_stock (map (\<lambda>x. JObj (pickPublicStock x)) ss) = Inr (replicate (length ss) ())"
    by (simp add: mapE_from_Inr)
  then show ?thesis ..
qed

lemma public_object_accepted:
  assumes "validateSnapshot o' v = Inr s" "\<And>x. m = Some x \<Longrightarrow> x \<noteq> ''''" "\<And>x. sm = Some x \<Longrightarrow> x \<noteq> ''''"
    and "\<And>q. us = Some q \<Longrightarrow> 0 \<le> q \<and> is_integer q"
  shows "assertPublicQuotePrivacy (JObj (public_object s m sm us)) = Inr ()"
proof -
  note p = validateSnapshot_public [OF assms(1)]
  have tot: "fld (qs_summary s) ''total'' = Some (JInt (int (length (qs_stocks s))))"
    using validateSnapshot_ok [OF assms(1)] by (simp add: snapshot_ok_def)
  note f = public_object_fields [OF p(2,3) tot, of m sm us]
  have n: "assertNoForbiddenKeys (JObj (public_object s m sm us)) c = Inr ()" for c
    using public_object_keys [OF assms(1)] by (simp only: assertNoForbiddenKeys_ok(1))
  have e: "assertExactKeys_public (public_object s m sm us) PUBLIC_TOP_LEVEL_KEYS c = Inr ()" for c
    using f(8) by (simp only: assertExactKeys_public_ok)
  let ?sum = "(''total'', JInt (int (length (qs_stocks s)))) # optional_entry ''usable'' (map_option (\<lambda>q. JNum (Fin q)) us)"
  have se: "assertExactKeys_public ?sum PUBLIC_SUMMARY_KEYS c = Inr ()" for c
    by (auto simp: assertExactKeys_public_ok PUBLIC_SUMMARY_KEYS_def optional_entry_def split: option.splits)
  have st: "fld ?sum ''total'' = Some (JInt (int (length (qs_stocks s))))"
    "fld ?sum ''usable'' = map_option (\<lambda>q. JNum (Fin q)) us"
    by (simp_all add: optional_entry_def split: option.splits)
  have g: "\<not> bad_optional_text (map_option JStr m)" "\<not> bad_optional_text (map_option JStr sm)"
    using assms(2,3) by (auto simp: bad_optional_text_def nonempty_text_Some)
  have i: "non_negative_integer (Some (JInt (int n)))" for n
    by (simp add: non_negative_integer_def is_integer_def)
  have u: "map_option (\<lambda>q. JNum (Fin q)) us = None \<or> non_negative_integer (map_option (\<lambda>q. JNum (Fin q)) us)"
    using assms(4) by (cases us) (auto simp: non_negative_integer_def)
  obtain rs where rs: "mapE check_public_stock (map (\<lambda>x. JObj (pickPublicStock x)) (qs_stocks s)) = Inr rs"
    using check_public_stocks by blast
  show ?thesis
    unfolding assertPublicQuotePrivacy_def as_record.simps option.case n e bindE.simps f bind.simps
      Option.bind.bind_lunit se st as_array.simps rs
    using p(2,3) g i u by (auto simp: throw_if_ok)
qed

text \<open>A second snapshot that differs from the first one in private fields only.\<close>

definition sample_held_growth :: jsobj where
  "sample_held_growth = sample_row ''000001'' ''Growth'' ''growth'' ''GROWTH'' (JBool False) ''ACTIVE'' JNull JNull True"

definition sample_snapshot_growth :: quote_snapshot where
  "sample_snapshot_growth = \<lparr>qs_fields = sample_fields, qs_summary = sample_summary,
     qs_stocks = [sample_held_growth, sample_mapping],
     qs_universe = [pick UNIVERSE_FIELDS sample_mapping, pick UNIVERSE_FIELDS sample_held_growth]\<rparr>"

lemma validate_sample_snapshot_growth:
  "validateSnapshot no_options (JObj (snapshot_object sample_snapshot_growth)) = Inr sample_snapshot_growth"
  by code_simp

section \<open>Properties\<close>

text \<open>C34: what leaves the public projection is private at every depth: no key of the result, of
  its summary or of any row, however deep, is forbidden, the top level and the rows hold
  allow-listed keys only, and there is one row per validated row.\<close>

theorem public_projection_private:
  assumes "toPublicQuoteSnapshot v = Inr p"
  shows "set (keys_in (JObj p)) \<inter> set FORBIDDEN_KEYS = {} \<and> fst ` set p \<subseteq> set PUBLIC_TOP_LEVEL_KEYS
    \<and> (\<exists>s. validateSnapshot no_options v = Inr s
         \<and> fld p ''stocks'' = Some (JArr (map (\<lambda>x. JObj (pickPublicStock x)) (qs_stocks s)))
         \<and> (\<forall>x \<in> set (qs_stocks s). set (keys_in (JObj (pickPublicStock x))) \<subseteq> set PUBLIC_STOCK_FIELDS))"
proof -
  obtain s m sm us where s: "validateSnapshot no_options v = Inr s" and p: "p = public_object s m sm us"
    using assms by (auto simp: toPublicQuoteSnapshot_def bindE_Inr Let_def)
  note q = validateSnapshot_public [OF s]
  have tot: "fld (qs_summary s) ''total'' = Some (JInt (int (length (qs_stocks s))))"
    using validateSnapshot_ok [OF s] by (simp add: snapshot_ok_def)
  note f = public_object_fields [OF q(2,3) tot, of m sm us]
  show ?thesis
    unfolding p using f(5,8) public_object_keys [OF s] s q(1) pick_keys_in
    by (auto simp: list_all_iff)
qed

theorem public_projection_private_witness:
  "set (keys_in (JObj (public_object sample_snapshot None None (Some 2)))) \<inter> set FORBIDDEN_KEYS = {}"
proof -
  have "optionalString (fld (qs_fields sample_snapshot) ''market_status'') ''market_status'' = Inr None"
    "optionalString (fld (qs_fields sample_snapshot) ''source_mode'') ''source_mode'' = Inr None"
    "optionalUsable (fld (qs_summary sample_snapshot) ''usable'') = Inr (Some 2)"
    by code_simp+
  moreover have "assertPublicQuotePrivacy (JObj (public_object sample_snapshot None None (Some 2))) = Inr ()"
    by (rule public_object_accepted [OF validate_sample_snapshot]) (simp_all add: is_integer_def)
  ultimately have "toPublicQuoteSnapshot (JObj (snapshot_object sample_snapshot)) =
      Inr (public_object sample_snapshot None None (Some 2))"
    by (simp add: toPublicQuoteSnapshot_def validate_sample_snapshot Let_def)
  from public_projection_private [OF this] show ?thesis by blast
qed

text \<open>The last privacy check never rejects a projection: on a snapshot that passes
  validation, the only texts that can be refused are a market status, a source mode or a usable
  count of the wrong type; with these in order the projection succeeds.\<close>

theorem public_projection_total:
  assumes "validateSnapshot no_options v = Inr s"
    and "optionalString (fld (qs_fields s) ''market_status'') ''market_status'' = Inr m"
    and "optionalString (fld (qs_fields s) ''source_mode'') ''source_mode'' = Inr sm"
    and "optionalUsable (fld (qs_summary s) ''usable'') = Inr us"
  shows "toPublicQuoteSnapshot v = Inr (public_object s m sm us)"
proof -
  have "assertPublicQuotePrivacy (JObj (public_object s m sm us)) = Inr ()"
    using assms(2-4) by (intro public_object_accepted [OF assms(1)])
      (auto dest: optionalString_Some optionalUsable_Some)
  then show ?thesis by (simp add: toPublicQuoteSnapshot_def assms Let_def)
qed

theorem public_projection_total_witness:
  "toPublicQuoteSnapshot (JObj (snapshot_object sample_snapshot)) =
   Inr (public_object sample_snapshot None None (Some 2))"
  by (rule public_projection_total [OF validate_sample_snapshot]) code_simp+

text \<open>The private part does not influence the public projection: two valid snapshots whose
  rows agree on the public fields and whose public top-level fields and totals agree have the
  same projection, whatever their groups, holdings, quantities or universes are.\<close>

theorem public_projection_noninterference:
  assumes "validateSnapshot no_options v = Inr s" "validateSnapshot no_options v' = Inr s'"
    and "\<And>k. k \<in> {''snapshot_time'', ''system_quality'', ''market_status'', ''source_mode''} \<Longrightarrow>
           fld (qs_fields s) k = fld (qs_fields s') k"
    and "fld (qs_summary s) ''usable'' = fld (qs_summary s') ''usable''"
    and "list_all2 (\<lambda>x y. \<forall>f \<in> set PUBLIC_STOCK_FIELDS. fld x f = fld y f) (qs_stocks s) (qs_stocks s')"
  shows "toPublicQuoteSnapshot v = toPublicQuoteSnapshot v'"
proof -
  have "map (\<lambda>x. JObj (pickPublicStock x)) (qs_stocks s) = map (\<lambda>x. JObj (pickPublicStock x)) (qs_stocks s')"
    using assms(5) by (induction rule: list_all2_induct) (auto simp: pickPublicStock_def intro: pick_cong)
  moreover have "fld (qs_summary s) ''total'' = fld (qs_summary s') ''total''"
    using validateSnapshot_ok [OF assms(1)] validateSnapshot_ok [OF assms(2)] list_all2_lengthD [OF assms(5)]
    by (simp add: snapshot_ok_def)
  ultimately have "public_object s = public_object s'"
    using assms(3) by (intro ext) (simp add: public_object_def)
  then show ?thesis using assms(1-4) by (simp add: toPublicQuoteSnapshot_def)
qed

theorem public_projection_noninterference_witness:
  "toPublicQuoteSnapshot (JObj (snapshot_object sample_snapshot)) =
   toPublicQuoteSnapshot (JObj (snapshot_object sample_snapshot_growth))"
proof (rule public_projection_noninterference [OF validate_sample_snapshot validate_sample_snapshot_growth])
  show "list_all2 (\<lambda>x y. \<forall>f \<in> set PUBLIC_STOCK_FIELDS. fld x f = fld y f) (qs_stocks sample_snapshot)
      (qs_stocks sample_snapshot_growth)"
    by code_simp
qed (simp_all add: sample_snapshot_def sample_snapshot_growth_def)

end
