(* ===== verification/Dynamic_Quotes.thy ===== *)
theory Dynamic_Quotes
  imports Js_Date Portfolio_Validation
begin

text \<open>
  \<open>src/src/dynamic-quotes.ts\<close>: canonical identities and Tencent symbols, the parser of a Tencent
  quote record, the normalization of a provider quote into a row, the all-or-nothing batch fetch
  and the merge of its rows into a snapshot. A thrown value is a structured
  \<open>DynamicQuoteError\<close> or any other exception; the provider, the HTTP endpoint and the fallback
  \<open>lp\<close> of \<open>Date.parse\<close> are parameters.
\<close>

section \<open>Identities and errors\<close>

datatype dynamic_code = INVALID_IDENTITY | UNSUPPORTED_EXCHANGE | PROVIDER_UNAVAILABLE
  | PARTIAL_PROVIDER_FAILURE | INVALID_PROVIDER_QUOTE

record identity =
  id_market :: string
  id_exchange :: string
  id_code :: string

record dynamic_failure =
  df_identity :: "identity option"
  df_symbol :: "string option"
  df_code :: dynamic_code
  df_message :: string

text \<open>\<open>rows\<close> of a \<open>DynamicQuoteError\<close> is always empty, so it is no field.\<close>

record dynamic_error =
  de_code :: dynamic_code
  de_message :: string
  de_failures :: "dynamic_failure list"

datatype thrown = Dynamic_Error dynamic_error | Other_Error string

type_synonym 'a dynamic = "thrown + 'a"

record dynamic_batch =
  db_identities :: "identity list"
  db_symbols :: "string list"
  db_rows :: "quote_stock list"

definition identityFailure ::
  "dynamic_code \<Rightarrow> string \<Rightarrow> identity option \<Rightarrow> string option \<Rightarrow> thrown" where
  "identityFailure code message identity symbol =
     Dynamic_Error \<lparr>de_code = code, de_message = message,
       de_failures = [\<lparr>df_identity = identity, df_symbol = symbol, df_code = code, df_message = message\<rparr>]\<rparr>"

definition invalidIdentity :: "string \<Rightarrow> thrown" where
  "invalidIdentity message = identityFailure INVALID_IDENTITY message None None"

text \<open>Case conversion of the ASCII letters; no other character below code unit 256 converts to one
  of the texts it is compared with.\<close>

definition upper_char :: "char \<Rightarrow> char" where
  "upper_char c = (if CHR ''a'' \<le> c \<and> c \<le> CHR ''z'' then char_of (of_char c - 32 :: nat) else c)"

definition lower_char :: "char \<Rightarrow> char" where
  "lower_char c = (if CHR ''A'' \<le> c \<and> c \<le> CHR ''Z'' then char_of (of_char c + 32 :: nat) else c)"

definition is_digits :: "nat \<Rightarrow> string \<Rightarrow> bool" where
  "is_digits n s \<longleftrightarrow> length s = n \<and> list_all is_digit s"

definition canonicalizeIdentity :: "jsval \<Rightarrow> identity dynamic" where
  "canonicalizeIdentity v =
     (case as_record v of None \<Rightarrow> Inl (invalidIdentity ''identity must be an object'')
      | Some ob \<Rightarrow>
     (case (as_string (fld ob ''market''), as_string (fld ob ''exchange''), as_string (fld ob ''code'')) of
        (Some rawMarket, Some rawExchange, Some rawCode) \<Rightarrow>
          (let market = map upper_char (js_trim rawMarket); exchange = map upper_char (js_trim rawExchange);
               code = js_trim rawCode
           in bindE (throw_if
            [(exchange = ''BJ'', identityFailure UNSUPPORTED_EXCHANGE
                ''BJ is not supported by the current QuoteStock contract'' None None),
             (market \<notin> {''CN'', ''HK''}, invalidIdentity ''market must be CN or HK''),
             (exchange \<notin> {''SH'', ''SZ'', ''HK''}, invalidIdentity ''exchange must be SH, SZ, or HK''),
             (market = ''HK'' \<and> exchange \<noteq> ''HK'' \<or> market = ''CN'' \<and> exchange = ''HK'',
                invalidIdentity ''market and exchange are inconsistent''),
             (market = ''CN'' \<and> \<not> is_digits 6 code, invalidIdentity ''CN code must be a six-digit string''),
             (market = ''HK'' \<and> \<not> is_digits 5 code, invalidIdentity ''HK code must be a five-digit string'')]) (\<lambda>_.
           Inr \<lparr>id_market = market, id_exchange = exchange, id_code = code\<rparr>))
      | _ \<Rightarrow> Inl (invalidIdentity ''identity requires market, exchange, and code strings'')))"

definition identity_object :: "identity \<Rightarrow> jsobj" where
  "identity_object i = [(''market'', JStr (id_market i)), (''exchange'', JStr (id_exchange i)),
     (''code'', JStr (id_code i))]"

definition identity_key :: "identity \<Rightarrow> string" where
  "identity_key i = id_market i @ '':'' @ id_code i"

definition resolveTencentSymbol :: "jsval \<Rightarrow> string dynamic" where
  "resolveTencentSymbol v =
     bindE (canonicalizeIdentity v) (\<lambda>i. Inr (map lower_char (id_exchange i) @ id_code i))"

definition identityFromTencentSymbol :: "string \<Rightarrow> identity dynamic" where
  "identityFromTencentSymbol symbol =
     (let normalized = map lower_char (js_trim symbol); ex = take 2 normalized; code = drop 2 normalized
      in if ex \<in> {''sh'', ''sz'', ''hk''} \<and> (is_digits 5 code \<or> is_digits 6 code)
         then canonicalizeIdentity (JObj (identity_object
           \<lparr>id_market = (if map upper_char ex = ''HK'' then ''HK'' else ''CN''),
            id_exchange = map upper_char ex, id_code = code\<rparr>))
         else Inl (identityFailure INVALID_IDENTITY
           ''Tencent symbol is not a supported SH/SZ/HK symbol'' None None))"

section \<open>Numbers, times and the trading clock\<close>

text \<open>\<open>Number(text)\<close> (ECMA-262 7.1.4.1), up to the rounding of the exact value; a value that
  rounds beyond the largest double is infinite.\<close>

definition to_double_range :: "rat \<Rightarrow> jsnum" where
  "to_double_range q = (if q \<ge> 2 ^ 1024 - 2 ^ 970 then PosInf
     else if q \<le> - (2 ^ 1024 - 2 ^ 970) then NegInf else Fin q)"

text \<open>The bound written out, for evaluation.\<close>

lemma to_double_range_code [code]:
  "to_double_range q =
     (let m = 179769313486231580793728971405303415079934132710037826936173778980444968292764750946649017977587207096330286416692887910946555547851940402630657488671505820681908902000708383676273854845817711531764475730270069855571366959622842914819860834936475292719074168444365510704342711559699508093042880177904174497792
      in if q \<ge> m then PosInf else if q \<le> - m then NegInf else Fin q)"
  by (simp add: to_double_range_def)

definition ten_power :: "int \<Rightarrow> rat" where
  "ten_power e = (if e \<ge> 0 then 10 ^ nat e else 1 / 10 ^ nat (- e))"

definition strip_sign :: "string \<Rightarrow> int \<times> string" where
  "strip_sign s = (case s of CHR ''-'' # r \<Rightarrow> (- 1, r) | CHR ''+'' # r \<Rightarrow> (1, r) | _ \<Rightarrow> (1, s))"

definition exponent_part :: "string \<Rightarrow> int option" where
  "exponent_part s =
     (case s of [] \<Rightarrow> Some 0
      | c # r \<Rightarrow> if c = CHR ''e'' \<or> c = CHR ''E''
          then (case strip_sign r of (sg, d) \<Rightarrow>
                 if d \<noteq> [] \<and> list_all is_digit d then Some (sg * digits_val d) else None)
          else None)"

definition unsigned_decimal :: "string \<Rightarrow> rat option" where
  "unsigned_decimal s =
     (let whole = takeWhile is_digit s; r = dropWhile is_digit s;
          dotted = (case r of CHR ''.'' # _ \<Rightarrow> True | _ \<Rightarrow> False);
          frac = (if dotted then takeWhile is_digit (tl r) else []);
          rest = (if dotted then dropWhile is_digit (tl r) else r)
      in if whole = [] \<and> frac = [] then None
         else map_option (\<lambda>e. of_int (digits_val (whole @ frac)) * ten_power (e - int (length frac)))
                (exponent_part rest))"

definition radix_digit :: "char \<Rightarrow> nat option" where
  "radix_digit c = (let l = lower_char c in
     if is_digit c then Some (of_char c - 48)
     else if CHR ''a'' \<le> l \<and> l \<le> CHR ''f'' then Some (of_char l - 87) else None)"

definition radix_number :: "nat \<Rightarrow> string \<Rightarrow> rat option" where
  "radix_number b s =
     (if s = [] \<or> list_ex (\<lambda>c. case radix_digit c of None \<Rightarrow> True | Some d \<Rightarrow> b \<le> d) s then None
      else Some (of_nat (foldl (\<lambda>a c. b * a + the (radix_digit c)) 0 s)))"

definition string_to_number :: "string \<Rightarrow> jsnum" where
  "string_to_number text' =
     (let s = js_trim text' in
      if s = '''' then Fin 0
      else let p = map lower_char (take 2 s);
             parsed = (if p = ''0x'' then radix_number 16 (drop 2 s)
               else if p = ''0o'' then radix_number 8 (drop 2 s)
               else if p = ''0b'' then radix_number 2 (drop 2 s)
               else map_option (\<lambda>q. of_int (fst (strip_sign s)) * q) (unsigned_decimal (snd (strip_sign s))))
           in if snd (strip_sign s) = ''Infinity'' then (if fst (strip_sign s) = 1 then PosInf else NegInf)
              else (case parsed of None \<Rightarrow> NaN | Some q \<Rightarrow> to_double_range q))"

text \<open>A missing field is \<open>undefined\<close>: \<open>Number(undefined)\<close> is NaN, then \<open>undefined.trim()\<close> throws.\<close>

definition providerNumber :: "string option \<Rightarrow> string \<Rightarrow> identity \<Rightarrow> string \<Rightarrow> rat dynamic" where
  "providerNumber v field i symbol =
     (case v of None \<Rightarrow> Inl (Other_Error ''TypeError'')
      | Some s \<Rightarrow> (case string_to_number s of
          Fin q \<Rightarrow> if js_trim s = '''' then Inl (identityFailure INVALID_PROVIDER_QUOTE
              (''Tencent quote has an invalid '' @ field) (Some i) (Some symbol)) else Inr q
        | _ \<Rightarrow> Inl (identityFailure INVALID_PROVIDER_QUOTE
              (''Tencent quote has an invalid '' @ field) (Some i) (Some symbol))))"

text \<open>\<open>/^(\d{4})\/(\d{2})\/(\d{2}) (\d{2}:\d{2}:\d{2})$/\<close>: a pattern with \<open>d\<close> for a digit.\<close>

definition matches_shape :: "string \<Rightarrow> string \<Rightarrow> bool" where
  "matches_shape shape s \<longleftrightarrow>
     list_all2 (\<lambda>p c. if p = CHR ''d'' then is_digit c else p = c) shape s"

definition tencentTimeToIso :: "string \<Rightarrow> identity \<Rightarrow> string \<Rightarrow> string dynamic" where
  "tencentTimeToIso v i symbol =
     (let c = js_trim v; part = (\<lambda>a b. take (b - a) (drop a c)) in
      if is_digits 14 c
      then Inr (part 0 4 @ ''-'' @ part 4 6 @ ''-'' @ part 6 8 @ ''T'' @ part 8 10 @ '':'' @ part 10 12
             @ '':'' @ part 12 14 @ ''+08:00'')
      else if matches_shape ''dddd/dd/dd dd:dd:dd'' c
      then Inr (part 0 4 @ ''-'' @ part 5 7 @ ''-'' @ part 8 10 @ ''T'' @ part 11 19 @ ''+08:00'')
      else Inl (identityFailure INVALID_PROVIDER_QUOTE ''Tencent quote has an invalid quote time''
             (Some i) (Some symbol)))"

text \<open>The wall clock of Asia/Shanghai, UTC+8 since 1991-09-15: day, weekday (Monday is 1) and
  minutes of the day.\<close>

definition shanghaiClock :: "int \<Rightarrow> string \<times> int \<times> int" where
  "shanghaiClock now =
     (let t = now + 28800000
      in (day_string t, (t div ms_per_day + 3) mod 7 + 1, (t mod ms_per_day) div 60000))"

datatype market_status = OPEN | CLOSED

definition trading_sessions :: "string \<Rightarrow> (int \<times> int) list" where
  "trading_sessions market =
     (if market = ''HK'' then [(9 * 60 + 30, 12 * 60), (13 * 60, 16 * 60)]
      else [(9 * 60 + 30, 11 * 60 + 30), (13 * 60, 15 * 60)])"

definition inferMarketStatus :: "identity \<Rightarrow> string \<Rightarrow> int \<Rightarrow> market_status" where
  "inferMarketStatus i quoteTime now =
     (case shanghaiClock now of (day, weekday, minutes) \<Rightarrow>
      if weekday < 1 \<or> weekday > 5 \<or> take 10 quoteTime \<noteq> day then CLOSED
      else if list_ex (\<lambda>(start, stop). minutes \<ge> start \<and> minutes \<le> stop) (trading_sessions (id_market i))
      then OPEN else CLOSED)"

definition status_text :: "market_status \<Rightarrow> string" where
  "status_text m = (case m of OPEN \<Rightarrow> ''OPEN'' | CLOSED \<Rightarrow> ''CLOSED'')"

section \<open>The Tencent record\<close>

text \<open>The match of \<open>(?:^|\r?\n)\s*v_SYMBOL\s*=\s*"([^"]*)"\s*;?\<close> (flag \<open>i\<close>): the captured text of
  the first line start at which it succeeds.\<close>

definition same_letters :: "string \<Rightarrow> string \<Rightarrow> bool" where
  "same_letters a b \<longleftrightarrow> map upper_char a = map upper_char b"

definition assignment_at :: "string \<Rightarrow> string \<Rightarrow> string option" where
  "assignment_at symbol text' =
     (let name = ''v_'' @ symbol; s = dropWhile is_space text'; r = dropWhile is_space (drop (length name) s)
      in if \<not> same_letters (take (length name) s) name then None
         else case r of
             CHR ''='' # q \<Rightarrow>
               (case dropWhile is_space q of
                  CHR 0x22 # body \<Rightarrow>
                    if dropWhile (\<lambda>c. c \<noteq> CHR 0x22) body = [] then None
                    else Some (takeWhile (\<lambda>c. c \<noteq> CHR 0x22) body)
                | _ \<Rightarrow> None)
           | _ \<Rightarrow> None)"

fun line_starts :: "string \<Rightarrow> string list" where
  "line_starts [] = []"
| "line_starts (c # cs) = (if c = CHR 0x0A then cs # line_starts cs else line_starts cs)"

definition assignment_body :: "string \<Rightarrow> string \<Rightarrow> string option" where
  "assignment_body symbol body =
     Option.bind (find (\<lambda>s. assignment_at symbol s \<noteq> None) (body # line_starts body)) (assignment_at symbol)"

text \<open>\<open>text.split(c)\<close>\<close>

fun split_char :: "char \<Rightarrow> string \<Rightarrow> string list" where
  "split_char d [] = [[]]"
| "split_char d (c # cs) =
     (if c = d then [] # split_char d cs
      else (case split_char d cs of [] \<Rightarrow> [[c]] | p # ps \<Rightarrow> (c # p) # ps))"

definition element_at :: "'a list \<Rightarrow> nat \<Rightarrow> 'a option" where
  "element_at xs i = (if i < length xs then Some (xs ! i) else None)"

text \<open>A response whose body is text.\<close>

definition parseTencentQuoteResponse :: "string \<Rightarrow> string \<Rightarrow> int \<Rightarrow> jsobj dynamic" where
  "parseTencentQuoteResponse symbol body now =
     bindE (identityFromTencentSymbol symbol) (\<lambda>i.
     bindE (resolveTencentSymbol (JObj (identity_object i))) (\<lambda>canonicalSymbol.
     (case assignment_body canonicalSymbol body of
        None \<Rightarrow> Inl (identityFailure PROVIDER_UNAVAILABLE
          ''Tencent quote response did not contain the requested symbol'' (Some i) (Some canonicalSymbol))
      | Some record' \<Rightarrow>
      if record' = '''' then Inl (identityFailure PROVIDER_UNAVAILABLE
          ''Tencent quote response did not contain the requested symbol'' (Some i) (Some canonicalSymbol))
      else let fields = split_char CHR ''~'' record';
               num = (\<lambda>v name. providerNumber v name i canonicalSymbol) in
      if length fields < 35 \<or> fields ! 2 \<noteq> id_code i
      then Inl (identityFailure INVALID_PROVIDER_QUOTE ''Tencent quote response has an invalid record''
             (Some i) (Some canonicalSymbol))
      else
      bindE (num (element_at fields 3) ''price'') (\<lambda>price.
      bindE (num (element_at fields 4) ''pre_close'') (\<lambda>preClose.
      bindE (num (element_at fields 5) ''open'') (\<lambda>open'.
      bindE (num (element_at fields 6) ''volume'') (\<lambda>volume.
      bindE (tencentTimeToIso (fields ! 30) i canonicalSymbol) (\<lambda>quoteTime.
      (let cnTurnover = Option.bind (element_at fields 35) (\<lambda>f. element_at (split_char CHR ''/'' f) 2);
           amountField = (if id_market i = ''HK'' then element_at fields 37 else cnTurnover) in
      bindE (num amountField ''amount'') (\<lambda>amount.
      bindE (num (element_at fields 31) ''change'') (\<lambda>change.
      bindE (num (element_at fields 32) ''change_pct'') (\<lambda>changePct.
      bindE (num (element_at fields 33) ''high'') (\<lambda>high.
      bindE (num (element_at fields 34) ''low'') (\<lambda>low.
      (let n = (\<lambda>q. JNum (Fin q)) in
      Inr [(''name'', JStr (fields ! 1)), (''price'', n price), (''change'', n change),
           (''change_pct'', n changePct), (''pre_close'', n preClose), (''prev_close'', n preClose),
           (''open'', n open'), (''high'', n high), (''low'', n low), (''pct_change'', n changePct),
           (''volume'', n volume), (''amount'', n amount),
           (''market_status'', JStr (status_text (inferMarketStatus i quoteTime now))),
           (''market_data_time'', JStr quoteTime), (''source_update_time'', JStr quoteTime),
           (''quote_time'', JStr quoteTime), (''fetch_time'', JStr (to_iso now))])))))))))))))))"

text \<open>The HTTP request: a rejected promise, or a response with its \<open>ok\<close> flag and decoded body.\<close>

datatype http_outcome = Rejected | Response bool string

definition fetchTencentQuote :: "(string \<Rightarrow> http_outcome) option \<Rightarrow> int \<Rightarrow> string \<Rightarrow> jsobj dynamic" where
  "fetchTencentQuote requestFetch now symbol =
     bindE (identityFromTencentSymbol symbol) (\<lambda>i.
     bindE (resolveTencentSymbol (JObj (identity_object i))) (\<lambda>canonicalSymbol.
     (case requestFetch of
        None \<Rightarrow> Inl (identityFailure PROVIDER_UNAVAILABLE ''Tencent quote provider is unavailable''
                  (Some i) (Some canonicalSymbol))
      | Some request \<Rightarrow>
        (case (case request canonicalSymbol of
                 Rejected \<Rightarrow> Inl (Other_Error ''request failed'')
               | Response ok body \<Rightarrow>
                   if \<not> ok then Inl (identityFailure PROVIDER_UNAVAILABLE
                     ''Tencent quote provider returned an unavailable response'' (Some i) (Some canonicalSymbol))
                   else parseTencentQuoteResponse canonicalSymbol body now) of
           Inl (Dynamic_Error e) \<Rightarrow> Inl (Dynamic_Error e)
         | Inl (Other_Error _) \<Rightarrow> Inl (identityFailure PROVIDER_UNAVAILABLE
             ''Tencent quote provider request failed'' (Some i) (Some canonicalSymbol))
         | Inr q \<Rightarrow> Inr q))))"

section \<open>Normalization\<close>

definition symbol_of :: "identity \<Rightarrow> string" where
  "symbol_of i = (case resolveTencentSymbol (JObj (identity_object i)) of Inr s \<Rightarrow> s | Inl _ \<Rightarrow> '''')"

definition provider_failure :: "dynamic_code \<Rightarrow> string \<Rightarrow> identity \<Rightarrow> thrown" where
  "provider_failure code message i = identityFailure code message (Some i) (Some (symbol_of i))"

definition finiteField :: "jsobj \<Rightarrow> string \<Rightarrow> identity \<Rightarrow> rat dynamic" where
  "finiteField quote field i =
     (case as_finite (fld quote field) of Some q \<Rightarrow> Inr q
      | None \<Rightarrow> Inl (provider_failure INVALID_PROVIDER_QUOTE
          (''provider quote is missing numeric field '' @ field) i))"

definition optionalFiniteField :: "jsobj \<Rightarrow> string \<Rightarrow> rat option" where
  "optionalFiniteField quote field = as_finite (fld quote field)"

definition or_else :: "'a option \<Rightarrow> 'a \<Rightarrow> 'a" where
  "or_else v d = (case v of Some x \<Rightarrow> x | None \<Rightarrow> d)"

definition nonEmptyString :: "jsval option \<Rightarrow> string \<Rightarrow> string" where
  "nonEmptyString v fallback =
     (case as_string v of Some s \<Rightarrow> if js_trim s \<noteq> '''' then s else fallback | None \<Rightarrow> fallback)"

definition deriveAgeSeconds :: "(string \<Rightarrow> int option) \<Rightarrow> string \<Rightarrow> string \<Rightarrow> int" where
  "deriveAgeSeconds lp marketDataTime fetchTime =
     (case (date_parse lp marketDataTime, date_parse lp fetchTime) of
        (Some m, Some f) \<Rightarrow> max 0 ((f - m) div 1000)
      | _ \<Rightarrow> 0)"

definition normalizeProviderQuote ::
  "(string \<Rightarrow> int option) \<Rightarrow> identity \<Rightarrow> jsval option \<Rightarrow> int \<Rightarrow> quote_stock dynamic" where
  "normalizeProviderQuote lp i v now =
     (if v = None \<or> v = Some JNull
      then Inl (provider_failure PROVIDER_UNAVAILABLE ''Tencent quote provider returned no quote'' i)
      else case Option.bind v as_record of
        None \<Rightarrow> Inl (provider_failure INVALID_PROVIDER_QUOTE
          ''Tencent quote provider returned a non-object quote'' i)
      | Some quote \<Rightarrow>
      bindE (finiteField quote ''price'' i) (\<lambda>price.
      bindE (finiteField quote ''pre_close'' i) (\<lambda>preClose.
      (let previousClose = or_else (optionalFiniteField quote ''prev_close'') preClose;
           change = or_else (optionalFiniteField quote ''change'') (price - preClose);
           changePct = or_else (optionalFiniteField quote ''change_pct'')
             (if preClose = 0 then 0 else (change / preClose) * 100) in
      bindE (finiteField quote ''open'' i) (\<lambda>open'.
      bindE (finiteField quote ''high'' i) (\<lambda>high.
      bindE (finiteField quote ''low'' i) (\<lambda>low.
      (let pctChange = or_else (optionalFiniteField quote ''pct_change'') changePct in
      bindE (finiteField quote ''volume'' i) (\<lambda>volume.
      bindE (finiteField quote ''amount'' i) (\<lambda>amount.
      (case as_string (fld quote ''market_data_time'') of
        None \<Rightarrow> Inl (provider_failure INVALID_PROVIDER_QUOTE
          ''provider quote is missing market_data_time'' i)
      | Some marketDataTime \<Rightarrow>
      if js_trim marketDataTime = '''' then Inl (provider_failure INVALID_PROVIDER_QUOTE
          ''provider quote is missing market_data_time'' i)
      else let fetchTime = nonEmptyString (fld quote ''fetch_time'') (to_iso now);
               ageSeconds = or_else (optionalFiniteField quote ''age_seconds'')
                 (of_int (deriveAgeSeconds lp marketDataTime fetchTime));
               marketStatus = (case fld quote ''market_status'' of None \<Rightarrow> JStr ''CLOSED'' | Some m \<Rightarrow> m)
           in
      if marketStatus \<noteq> JStr ''OPEN'' \<and> marketStatus \<noteq> JStr ''CLOSED''
      then Inl (provider_failure INVALID_PROVIDER_QUOTE ''provider quote has an invalid market_status'' i)
      else let n = (\<lambda>q. JNum (Fin q)) in
      Inr [(''code'', JStr (id_code i)), (''market'', JStr (id_market i)), (''exchange'', JStr (id_exchange i)),
           (''name'', JStr (nonEmptyString (fld quote ''name'') (id_exchange i @ id_code i))),
           (''group'', JStr ''Watch''), (''portfolio_group'', JStr ''watch''),
           (''portfolio_status'', JStr ''WATCH''), (''holding_status'', JStr ''ACTIVE''),
           (''mapping_only'', JBool False), (''mapped_to'', JNull), (''mapping_to'', JNull),
           (''position_qty'', JNull), (''is_position'', JBool True),
           (''price'', n price), (''change'', n change), (''change_pct'', n changePct),
           (''pre_close'', n preClose), (''prev_close'', n previousClose), (''open'', n open'),
           (''high'', n high), (''low'', n low), (''pct_change'', n pctChange), (''volume'', n volume),
           (''amount'', n amount), (''market_status'', marketStatus),
           (''market_data_time'', JStr marketDataTime),
           (''source_update_time'', JStr (nonEmptyString (fld quote ''source_update_time'') marketDataTime)),
           (''freshness_basis'', JStr ''MARKET_DATA''),
           (''quote_time'', JStr (nonEmptyString (fld quote ''quote_time'') marketDataTime)),
           (''fetch_time'', JStr fetchTime), (''age_seconds'', n ageSeconds),
           (''primary_source'', JStr ''tencent''), (''secondary_source'', JNull),
           (''source_status'', JStr ''OK''), (''quality'', JStr ''LIVE_QUOTE'')])))))))))))"

section \<open>The batch\<close>

definition asFailure :: "thrown \<Rightarrow> identity \<Rightarrow> string \<Rightarrow> dynamic_failure" where
  "asFailure error i symbol =
     (case (case error of Dynamic_Error d \<Rightarrow> de_failures d | Other_Error _ \<Rightarrow> []) of
        f # _ \<Rightarrow> f
      | [] \<Rightarrow> \<lparr>df_identity = Some i, df_symbol = Some symbol, df_code = PROVIDER_UNAVAILABLE,
               df_message = ''Tencent quote provider request failed''\<rparr>)"

definition batchErrorCode :: "dynamic_failure list \<Rightarrow> nat \<Rightarrow> dynamic_code" where
  "batchErrorCode failures n =
     (if length failures < n then PARTIAL_PROVIDER_FAILURE
      else if list_all (\<lambda>f. df_code f = PROVIDER_UNAVAILABLE) failures then PROVIDER_UNAVAILABLE
      else (case failures of f # _ \<Rightarrow> df_code f | [] \<Rightarrow> PROVIDER_UNAVAILABLE))"

text \<open>The first loop: the identities accepted and the failures, in input order.\<close>

fun collect_identities ::
  "string list \<Rightarrow> jsval list \<Rightarrow> identity list \<times> dynamic_failure list" where
  "collect_identities seen [] = ([], [])"
| "collect_identities seen (v # vs) =
     (case canonicalizeIdentity v of
        Inr i \<Rightarrow>
          if identity_key i \<in> set seen
          then map_prod id (Cons \<lparr>df_identity = Some i, df_symbol = Some (symbol_of i),
                 df_code = INVALID_IDENTITY, df_message = ''duplicate active identity''\<rparr>)
                 (collect_identities seen vs)
          else map_prod (Cons i) id (collect_identities (identity_key i # seen) vs)
      | Inl e \<Rightarrow>
          map_prod id ((@) (case e of
              Dynamic_Error d \<Rightarrow> if de_failures d \<noteq> [] then de_failures d
                else [\<lparr>df_identity = None, df_symbol = None, df_code = INVALID_IDENTITY,
                       df_message = ''invalid active identity''\<rparr>]
            | Other_Error _ \<Rightarrow> [\<lparr>df_identity = None, df_symbol = None, df_code = INVALID_IDENTITY,
                       df_message = ''invalid active identity''\<rparr>]))
            (collect_identities seen vs))"

text \<open>The outcome of one settled request, normalized.\<close>

type_synonym provider = "string \<Rightarrow> identity \<Rightarrow> jsval option dynamic"

definition settled_row ::
  "(string \<Rightarrow> int option) \<Rightarrow> provider \<Rightarrow> int \<Rightarrow> identity \<Rightarrow> dynamic_failure + quote_stock" where
  "settled_row lp fetchQuote now i =
     (case bindE (fetchQuote (symbol_of i) i) (\<lambda>v. normalizeProviderQuote lp i v now) of
        Inl e \<Rightarrow> Inl (asFailure e i (symbol_of i))
      | Inr row \<Rightarrow> Inr row)"

definition failures_of :: "('e + 'a) list \<Rightarrow> 'e list" where
  "failures_of outcomes = concat (map (\<lambda>r. case r of Inl e \<Rightarrow> [e] | Inr _ \<Rightarrow> []) outcomes)"

definition successes_of :: "('e + 'a) list \<Rightarrow> 'a list" where
  "successes_of outcomes = concat (map (\<lambda>r. case r of Inl _ \<Rightarrow> [] | Inr x \<Rightarrow> [x]) outcomes)"

definition fetchDynamicQuoteRows ::
  "(string \<Rightarrow> int option) \<Rightarrow> jsval list \<Rightarrow> provider option \<Rightarrow> int \<Rightarrow> dynamic_batch dynamic" where
  "fetchDynamicQuoteRows lp inputs provider now =
     (case collect_identities [] inputs of (identities, identityFailures) \<Rightarrow>
      if identityFailures \<noteq> []
      then Inl (Dynamic_Error \<lparr>de_code = INVALID_IDENTITY,
             de_message = ''active universe contains invalid identities'', de_failures = identityFailures\<rparr>)
      else let symbols = map symbol_of identities in
      if identities = [] then Inr \<lparr>db_identities = identities, db_symbols = symbols, db_rows = []\<rparr>
      else (case provider of
        None \<Rightarrow> Inl (Dynamic_Error \<lparr>de_code = PROVIDER_UNAVAILABLE,
          de_message = ''Tencent quote provider is unavailable'',
          de_failures = map (\<lambda>i. \<lparr>df_identity = Some i, df_symbol = Some (symbol_of i),
            df_code = PROVIDER_UNAVAILABLE, df_message = ''Tencent quote provider is unavailable''\<rparr>) identities\<rparr>)
      | Some fetchQuote \<Rightarrow>
          (let outcomes = map (settled_row lp fetchQuote now) identities; failures = failures_of outcomes in
           if failures \<noteq> []
           then Inl (Dynamic_Error \<lparr>de_code = batchErrorCode failures (length identities),
             de_message = (if length failures = length identities
                  \<and> list_all (\<lambda>f. df_code f = PROVIDER_UNAVAILABLE) failures
                then ''Tencent quote provider is unavailable''
                else ''Tencent quote provider failed for one or more active identities''),
             de_failures = failures\<rparr>)
           else Inr \<lparr>db_identities = identities, db_symbols = symbols, db_rows = successes_of outcomes\<rparr>)))"

section \<open>The merge\<close>

definition toPortfolioUniverseItem :: "quote_stock \<Rightarrow> jsobj" where
  "toPortfolioUniverseItem stock = pick UNIVERSE_FIELDS stock"

definition merge_error :: "dynamic_code \<Rightarrow> string \<Rightarrow> dynamic_failure list \<Rightarrow> thrown" where
  "merge_error code message failures =
     Dynamic_Error \<lparr>de_code = code, de_message = message, de_failures = failures\<rparr>"

definition row_error :: "string \<Rightarrow> thrown" where
  "row_error message = merge_error INVALID_PROVIDER_QUOTE message
     [\<lparr>df_identity = None, df_symbol = None, df_code = INVALID_PROVIDER_QUOTE, df_message = message\<rparr>]"

text \<open>The loop over the rows of the batch: the additions and the keys seen.\<close>

fun merge_rows ::
  "string set \<Rightarrow> (string \<rightharpoonup> identity) \<Rightarrow> string list \<Rightarrow> quote_stock list
     \<Rightarrow> (quote_stock list \<times> string list) dynamic" where
  "merge_rows existing active seen [] = Inr ([], seen)"
| "merge_rows existing active seen (row # rows) =
     (let key = instrumentKey row in
      if (case active key of None \<Rightarrow> True | Some i \<Rightarrow> fld row ''exchange'' \<noteq> Some (JStr (id_exchange i)))
      then Inl (row_error ''provider returned a row outside the active universe'')
      else if key \<in> set seen then Inl (row_error ''provider returned duplicate active rows'')
      else bindE (merge_rows existing active (key # seen) rows) (\<lambda>(additions, seen').
             Inr (if key \<notin> existing then row # additions else additions, seen')))"

definition mergeDynamicQuoteRows :: "quote_snapshot \<Rightarrow> dynamic_batch \<Rightarrow> quote_snapshot dynamic" where
  "mergeDynamicQuoteRows snapshot batch =
     (let existing = set (map instrumentKey (qs_stocks snapshot));
          active = map_of (rev (map (\<lambda>i. (identity_key i, i)) (db_identities batch))) in
      if length (js_set (map identity_key (db_identities batch))) \<noteq> length (db_identities batch)
      then Inl (merge_error PARTIAL_PROVIDER_FAILURE
             ''dynamic quote batch contains duplicate active identities'' [])
      else bindE (merge_rows existing active [] (db_rows batch)) (\<lambda>(additions, seenBatch).
      (let missing = filter (\<lambda>i. identity_key i \<notin> set seenBatch) (db_identities batch) in
       if missing \<noteq> []
       then Inl (merge_error PARTIAL_PROVIDER_FAILURE ''dynamic quote batch is incomplete''
              (map (\<lambda>i. \<lparr>df_identity = Some i, df_symbol = Some (symbol_of i),
                 df_code = PARTIAL_PROVIDER_FAILURE,
                 df_message = ''missing quote row for active identity''\<rparr>) missing))
       else let stocks = qs_stocks snapshot @ additions; counts = getSnapshotCounts stocks;
                n = (\<lambda>k. JInt (int k));
                summary = spread (qs_summary snapshot)
                  [(''total'', n (sc_total counts)), (''active_quote_total'', n (sc_active_quote counts)),
                   (''active_holding_total'', n (sc_active_holding counts)),
                   (''watch_total'', n (sc_watch counts)), (''exited_watch_total'', n (sc_exited_watch counts)),
                   (''mapping_total'', n (sc_mapping counts)), (''core_total'', n (sc_core counts)),
                   (''growth_total'', n (sc_growth counts))]
            in Inr (snapshot\<lparr>qs_stocks := stocks,
                 qs_universe := qs_universe snapshot @ map toPortfolioUniverseItem additions,
                 qs_summary := (if has_key (qs_summary snapshot) ''usable''
                   then spread summary [(''usable'', n (sc_total counts))] else summary)\<rparr>))))"

section \<open>Facts\<close>

text \<open>Canonical identities.\<close>

definition identity_ok :: "identity \<Rightarrow> bool" where
  "identity_ok i \<longleftrightarrow>
     id_market i = ''CN'' \<and> id_exchange i \<in> {''SH'', ''SZ''} \<and> is_digits 6 (id_code i)
   \<or> id_market i = ''HK'' \<and> id_exchange i = ''HK'' \<and> is_digits 5 (id_code i)"

lemma canonical_checks:
  "\<lparr>id_market = market, id_exchange = exchange, id_code = code\<rparr> = i \<Longrightarrow>
     market \<in> {''CN'', ''HK''} \<Longrightarrow> exchange \<in> {''SH'', ''SZ'', ''HK''} \<Longrightarrow>
     \<not> (market = ''HK'' \<and> exchange \<noteq> ''HK'' \<or> market = ''CN'' \<and> exchange = ''HK'') \<Longrightarrow>
     \<not> (market = ''CN'' \<and> \<not> is_digits 6 code) \<Longrightarrow> \<not> (market = ''HK'' \<and> \<not> is_digits 5 code) \<Longrightarrow>
     identity_ok i"
  unfolding identity_ok_def by (elim insertE emptyE; hypsubst; simp)

lemma canonicalizeIdentity_ok: "canonicalizeIdentity v = Inr i \<Longrightarrow> identity_ok i"
  unfolding canonicalizeIdentity_def Let_def
  by (simp only: bindE_throw_if_Inr list.pred_inject fst_conv not_not simp_thms sum.inject sum.distinct
      split: option.splits prod.splits) (elim conjE, erule canonical_checks; assumption)

lemma digit_not_space: "is_digit c \<Longrightarrow> \<not> is_space c"
  by (auto simp: is_digit_def is_space_def)

lemma dropWhile_none: "list_all (\<lambda>c. \<not> P c) t \<Longrightarrow> dropWhile P t = t"
  by (cases t) auto

lemma trim_digits:
  assumes "list_all is_digit s"
  shows "js_trim s = s"
proof -
  have "list_all (\<lambda>c. \<not> is_space c) s" "list_all (\<lambda>c. \<not> is_space c) (rev s)"
    using assms by (auto simp: list_all_iff digit_not_space)
  then show ?thesis by (simp add: js_trim_def dropWhile_none)
qed

lemma canonicalize_object:
  assumes "identity_ok i"
  shows "canonicalizeIdentity (JObj (identity_object i)) = Inr i"
proof -
  have t: "js_trim ''CN'' = ''CN''" "js_trim ''HK'' = ''HK''" "js_trim ''SH'' = ''SH''" "js_trim ''SZ'' = ''SZ''"
    "upper_char CHR ''C'' = CHR ''C''" "upper_char CHR ''N'' = CHR ''N''" "upper_char CHR ''H'' = CHR ''H''"
    "upper_char CHR ''K'' = CHR ''K''" "upper_char CHR ''S'' = CHR ''S''" "upper_char CHR ''Z'' = CHR ''Z''"
    by code_simp+
  have f: "fld (identity_object i) ''market'' = Some (JStr (id_market i))"
    "fld (identity_object i) ''exchange'' = Some (JStr (id_exchange i))"
    "fld (identity_object i) ''code'' = Some (JStr (id_code i))"
    by (simp_all add: identity_object_def)
  have d: "as_string (Some (JStr s)) = Some s" for s by simp
  note unf = canonicalizeIdentity_def as_record.simps option.case f d Let_def
  consider e where "id_market i = ''CN''" "id_exchange i = e" "e \<in> {''SH'', ''SZ''}" "is_digits 6 (id_code i)"
    | "id_market i = ''HK''" "id_exchange i = ''HK''" "is_digits 5 (id_code i)"
    using assms by (auto simp: identity_ok_def)
  then show ?thesis
  proof cases
    case 1
    then have "js_trim (id_code i) = id_code i" by (simp add: is_digits_def trim_digits)
    with 1 show ?thesis unfolding unf by (cases i) (auto simp: t)
  next
    case 2
    then have "js_trim (id_code i) = id_code i" by (simp add: is_digits_def trim_digits)
    with 2 show ?thesis unfolding unf by (cases i) (auto simp: t)
  qed
qed

lemma symbol_of_eq: "identity_ok i \<Longrightarrow> symbol_of i = map lower_char (id_exchange i) @ id_code i"
  by (simp add: symbol_of_def resolveTencentSymbol_def canonicalize_object)

lemma lower_digits: "list_all is_digit s \<Longrightarrow> map lower_char s = s"
  by (induction s) (auto simp: is_digit_def lower_char_def)

lemma symbol_cases:
  assumes "identity_ok i"
  obtains p where "symbol_of i = p @ id_code i" "(p, id_market i, id_exchange i) \<in>
      {(''sh'', ''CN'', ''SH''), (''sz'', ''CN'', ''SZ''), (''hk'', ''HK'', ''HK'')}"
proof -
  have l: "map lower_char ''SH'' = ''sh''" "map lower_char ''SZ'' = ''sz''" "map lower_char ''HK'' = ''hk''"
    by code_simp+
  show ?thesis
    using assms that symbol_of_eq [OF assms] l by (auto simp: identity_ok_def)
qed

lemma symbol_identity:
  assumes "identity_ok i"
  shows "identityFromTencentSymbol (symbol_of i) = Inr i"
proof -
  obtain p where p: "symbol_of i = p @ id_code i" "(p, id_market i, id_exchange i) \<in>
      {(''sh'', ''CN'', ''SH''), (''sz'', ''CN'', ''SZ''), (''hk'', ''HK'', ''HK'')}"
    using assms by (rule symbol_cases)
  have d: "list_all is_digit (id_code i)" "is_digits 5 (id_code i) \<or> is_digits 6 (id_code i)"
    using assms by (auto simp: identity_ok_def is_digits_def)
  have u: "map upper_char ''sh'' = ''SH''" "map upper_char ''sz'' = ''SZ''" "map upper_char ''hk'' = ''HK''"
    by code_simp+
  have l: "length p = 2" "map lower_char p = p" "map upper_char p = id_exchange i"
    "list_all (\<lambda>c. \<not> is_space c) p" "p \<in> {''sh'', ''sz'', ''hk''}"
    "(if id_exchange i = ''HK'' then ''HK'' else ''CN'') = id_market i"
    using p(2) u by (auto simp: lower_char_def is_space_def)
  have n: "map lower_char (js_trim (symbol_of i)) = p @ id_code i"
  proof -
    have "list_all (\<lambda>c. \<not> is_space c) (symbol_of i)"
      using l(4) d(1) by (auto simp: p(1) list_all_iff digit_not_space)
    then have "js_trim (symbol_of i) = symbol_of i"
      by (simp add: js_trim_def dropWhile_none list_all_iff)
    then show ?thesis using l(2) lower_digits [OF d(1)] by (simp add: p(1))
  qed
  have "take 2 (p @ id_code i) = p" "drop 2 (p @ id_code i) = id_code i" using l(1) by simp_all
  then show ?thesis
    unfolding identityFromTencentSymbol_def n Let_def
    using l d(2) canonicalize_object [OF assms] by (cases i) simp
qed

text \<open>The loop over the inputs accepts exactly canonical inputs with distinct keys.\<close>

lemma collect_identities_ok:
  "collect_identities seen vs = (ids, []) \<longleftrightarrow>
     map canonicalizeIdentity vs = map Inr ids \<and> distinct (map identity_key ids)
     \<and> set (map identity_key ids) \<inter> set seen = {}"
proof (induction vs arbitrary: seen ids)
  case Nil
  then show ?case by auto
next
  case (Cons v vs)
  show ?case
  proof (cases "canonicalizeIdentity v")
    case (Inl e)
    obtain is' fs where c: "collect_identities seen vs = (is', fs)" by fastforce
    have "snd (collect_identities seen (v # vs)) \<noteq> []"
      by (simp add: Inl c split: thrown.splits)
    then have "collect_identities seen (v # vs) \<noteq> (ids, [])" by (metis snd_conv)
    then show ?thesis using Inl by (cases ids) simp_all
  next
    case (Inr i)
    show ?thesis
    proof (cases "identity_key i \<in> set seen")
      case True
      then show ?thesis using Inr by (cases "collect_identities seen vs"; cases ids) auto
    next
      case False
      obtain ids' fs where c: "collect_identities (identity_key i # seen) vs = (ids', fs)" by fastforce
      show ?thesis
        using Cons.IH [of "identity_key i # seen" "tl ids"] Inr False c by (cases ids) auto
    qed
  qed
qed

lemma failures_of_empty: "failures_of (map f xs) = [] \<longleftrightarrow> (\<forall>x \<in> set xs. \<exists>y. f x = Inr y)"
  by (induction xs) (auto simp: failures_of_def split: sum.splits)

lemma successes_of_all:
  "failures_of (map f xs) = [] \<Longrightarrow> list_all2 (\<lambda>x y. f x = Inr y) xs (successes_of (map f xs))"
  by (induction xs) (auto simp: failures_of_def successes_of_def split: sum.splits)

lemma list_all2_functional:
  "list_all2 (\<lambda>x y. f x = Inr y) xs ys \<Longrightarrow>
     failures_of (map f xs) = [] \<and> successes_of (map f xs) = ys"
  by (induction rule: list_all2_induct) (auto simp: failures_of_def successes_of_def)

lemma settled_row_Inr:
  "settled_row lp p now i = Inr row \<longleftrightarrow>
     (\<exists>v. p (symbol_of i) i = Inr v \<and> normalizeProviderQuote lp i v now = Inr row)"
  by (cases "p (symbol_of i) i") (auto simp: settled_row_def split: sum.splits)

lemma fetch_Inr:
  "fetchDynamicQuoteRows lp inputs (Some p) now = Inr b \<longleftrightarrow>
     map canonicalizeIdentity inputs = map Inr (db_identities b)
   \<and> distinct (map identity_key (db_identities b)) \<and> db_symbols b = map symbol_of (db_identities b)
   \<and> list_all2 (\<lambda>i row. settled_row lp p now i = Inr row) (db_identities b) (db_rows b)"
proof -
  obtain ids fs where c: "collect_identities [] inputs = (ids, fs)" by fastforce
  note ok = collect_identities_ok [of "[]" inputs]
  show ?thesis
  proof (cases "fs = []")
    case False
    then have "fetchDynamicQuoteRows lp inputs (Some p) now \<noteq> Inr b"
      using c by (auto simp: fetchDynamicQuoteRows_def)
    moreover have "\<not> (map canonicalizeIdentity inputs = map Inr (db_identities b)
        \<and> distinct (map identity_key (db_identities b)))"
      using ok [of "db_identities b"] c False by auto
    ultimately show ?thesis by blast
  next
    case True
    then have ids: "map canonicalizeIdentity inputs = map Inr ids" "distinct (map identity_key ids)"
      using ok [of ids] c by auto
    have u: "map canonicalizeIdentity inputs = map Inr (db_identities b) \<longleftrightarrow> db_identities b = ids"
      using ids(1) inj_map_eq_map [of Inr "db_identities b" ids] by (auto simp: inj_def)
    show ?thesis
      unfolding u using c True ids(2) successes_of_all [of "settled_row lp p now" ids]
        list_all2_functional [of "settled_row lp p now" ids "db_rows b"]
      by (cases b) (auto simp: fetchDynamicQuoteRows_def Let_def failures_of_def successes_of_def)
  qed
qed

text \<open>The shape of a normalized row, over its numbers and its texts.\<close>

definition dynamic_row :: "identity \<Rightarrow> (string \<Rightarrow> rat) \<Rightarrow> (string \<Rightarrow> string) \<Rightarrow> jsval \<Rightarrow> quote_stock" where
  "dynamic_row i q t status =
     (let n = (\<lambda>k. (k, JNum (Fin (q k)))); s = (\<lambda>k. (k, JStr (t k))) in
      [(''code'', JStr (id_code i)), (''market'', JStr (id_market i)), (''exchange'', JStr (id_exchange i)),
       s ''name'', (''group'', JStr ''Watch''), (''portfolio_group'', JStr ''watch''),
       (''portfolio_status'', JStr ''WATCH''), (''holding_status'', JStr ''ACTIVE''),
       (''mapping_only'', JBool False), (''mapped_to'', JNull), (''mapping_to'', JNull),
       (''position_qty'', JNull), (''is_position'', JBool True),
       n ''price'', n ''change'', n ''change_pct'', n ''pre_close'', n ''prev_close'', n ''open'',
       n ''high'', n ''low'', n ''pct_change'', n ''volume'', n ''amount'', (''market_status'', status),
       s ''market_data_time'', s ''source_update_time'', (''freshness_basis'', JStr ''MARKET_DATA''),
       s ''quote_time'', s ''fetch_time'', n ''age_seconds'', (''primary_source'', JStr ''tencent''),
       (''secondary_source'', JNull), (''source_status'', JStr ''OK''), (''quality'', JStr ''LIVE_QUOTE'')])"

lemma nonEmptyString_nonempty: "d \<noteq> '''' \<Longrightarrow> nonEmptyString v d \<noteq> ''''"
  by (auto simp: nonEmptyString_def js_trim_def split: option.splits)

definition shaped :: "identity \<Rightarrow> quote_stock \<Rightarrow> bool" where
  "shaped i row \<longleftrightarrow> (\<exists>q t status. row = dynamic_row i q t status \<and> t ''name'' \<noteq> '''' \<and> t ''fetch_time'' \<noteq> ''''
     \<and> status \<in> {JStr ''OPEN'', JStr ''CLOSED''})"

lemma shapedI:
  assumes "name \<noteq> ''''" "fetch \<noteq> ''''" "status = JStr ''OPEN'' \<or> status = JStr ''CLOSED''"
  shows "shaped i
      [(''code'', JStr (id_code i)), (''market'', JStr (id_market i)), (''exchange'', JStr (id_exchange i)),
       (''name'', JStr name), (''group'', JStr ''Watch''), (''portfolio_group'', JStr ''watch''),
       (''portfolio_status'', JStr ''WATCH''), (''holding_status'', JStr ''ACTIVE''),
       (''mapping_only'', JBool False), (''mapped_to'', JNull), (''mapping_to'', JNull),
       (''position_qty'', JNull), (''is_position'', JBool True),
       (''price'', JNum (Fin a1)), (''change'', JNum (Fin a2)), (''change_pct'', JNum (Fin a3)),
       (''pre_close'', JNum (Fin a4)), (''prev_close'', JNum (Fin a5)), (''open'', JNum (Fin a6)),
       (''high'', JNum (Fin a7)), (''low'', JNum (Fin a8)), (''pct_change'', JNum (Fin a9)),
       (''volume'', JNum (Fin b1)), (''amount'', JNum (Fin b2)), (''market_status'', status),
       (''market_data_time'', JStr t1), (''source_update_time'', JStr t2),
       (''freshness_basis'', JStr ''MARKET_DATA''), (''quote_time'', JStr t3), (''fetch_time'', JStr fetch),
       (''age_seconds'', JNum (Fin b3)), (''primary_source'', JStr ''tencent''), (''secondary_source'', JNull),
       (''source_status'', JStr ''OK''), (''quality'', JStr ''LIVE_QUOTE'')]"
proof -
  let ?q = "\<lambda>k. the (map_of [(''price'', a1), (''change'', a2), (''change_pct'', a3), (''pre_close'', a4),
     (''prev_close'', a5), (''open'', a6), (''high'', a7), (''low'', a8), (''pct_change'', a9),
     (''volume'', b1), (''amount'', b2), (''age_seconds'', b3)] k)"
  let ?t = "\<lambda>k. the (map_of [(''name'', name), (''market_data_time'', t1), (''source_update_time'', t2),
     (''quote_time'', t3), (''fetch_time'', fetch)] k)"
  show ?thesis
    unfolding shaped_def
    by (rule exI [of _ ?q], rule exI [of _ ?t], rule exI [of _ status])
      (use assms in \<open>simp add: dynamic_row_def Let_def\<close>)
qed

lemma normalize_shape:
  assumes "normalizeProviderQuote lp i v now = Inr row" "identity_ok i"
  shows "shaped i row"
proof -
  have n: "id_exchange i @ c \<noteq> ''''" for c using assms(2) by (auto simp: identity_ok_def)
  have "yields (shaped i) (normalizeProviderQuote lp i v now)"
    unfolding normalizeProviderQuote_def Let_def
    by (intro yields_intros shapedI nonEmptyString_nonempty to_iso_nonempty n) blast
  then show ?thesis using assms(1) by (simp add: yields_def)
qed

text \<open>An object with distinct keys has the fields it is written with.\<close>

lemma fld_entries: "ob = es \<Longrightarrow> distinct (map fst ob) \<Longrightarrow> list_all (\<lambda>e. fld ob (fst e) = Some (snd e)) es"
  by (simp add: list_all_iff)

definition ROW_KEYS :: "string list" where
  "ROW_KEYS = [''code'', ''market'', ''exchange'', ''name'', ''group'', ''portfolio_group'', ''portfolio_status'',
     ''holding_status'', ''mapping_only'', ''mapped_to'', ''mapping_to'', ''position_qty'', ''is_position'',
     ''price'', ''change'', ''change_pct'', ''pre_close'', ''prev_close'', ''open'', ''high'', ''low'', ''pct_change'',
     ''volume'', ''amount'', ''market_status'', ''market_data_time'', ''source_update_time'', ''freshness_basis'',
     ''quote_time'', ''fetch_time'', ''age_seconds'', ''primary_source'', ''secondary_source'', ''source_status'',
     ''quality'']"

lemma dynamic_row_distinct: "distinct (map fst (dynamic_row i q t status))"
proof -
  have "map fst (dynamic_row i q t status) = ROW_KEYS" by (simp add: dynamic_row_def ROW_KEYS_def)
  moreover have "distinct ROW_KEYS" by code_simp
  ultimately show ?thesis by simp
qed

lemma dynamic_row_fields:
  "fld (dynamic_row i q t status) ''code'' = Some (JStr (id_code i))"
  "fld (dynamic_row i q t status) ''market'' = Some (JStr (id_market i))"
  "fld (dynamic_row i q t status) ''exchange'' = Some (JStr (id_exchange i))"
  "fld (dynamic_row i q t status) ''group'' = Some (JStr ''Watch'')"
  "fld (dynamic_row i q t status) ''portfolio_group'' = Some (JStr ''watch'')"
  "fld (dynamic_row i q t status) ''portfolio_status'' = Some (JStr ''WATCH'')"
  "fld (dynamic_row i q t status) ''holding_status'' = Some (JStr ''ACTIVE'')"
  "fld (dynamic_row i q t status) ''mapping_only'' = Some (JBool False)"
  "fld (dynamic_row i q t status) ''mapped_to'' = Some JNull"
  "fld (dynamic_row i q t status) ''mapping_to'' = Some JNull"
  "fld (dynamic_row i q t status) ''position_qty'' = Some JNull"
  "fld (dynamic_row i q t status) ''is_position'' = Some (JBool True)"
  "fld (dynamic_row i q t status) ''price'' = Some (JNum (Fin (q ''price'')))"
  "fld (dynamic_row i q t status) ''change'' = Some (JNum (Fin (q ''change'')))"
  "fld (dynamic_row i q t status) ''change_pct'' = Some (JNum (Fin (q ''change_pct'')))"
  "fld (dynamic_row i q t status) ''pre_close'' = Some (JNum (Fin (q ''pre_close'')))"
  "fld (dynamic_row i q t status) ''prev_close'' = Some (JNum (Fin (q ''prev_close'')))"
  "fld (dynamic_row i q t status) ''open'' = Some (JNum (Fin (q ''open'')))"
  "fld (dynamic_row i q t status) ''high'' = Some (JNum (Fin (q ''high'')))"
  "fld (dynamic_row i q t status) ''low'' = Some (JNum (Fin (q ''low'')))"
  "fld (dynamic_row i q t status) ''pct_change'' = Some (JNum (Fin (q ''pct_change'')))"
  "fld (dynamic_row i q t status) ''volume'' = Some (JNum (Fin (q ''volume'')))"
  "fld (dynamic_row i q t status) ''amount'' = Some (JNum (Fin (q ''amount'')))"
  "fld (dynamic_row i q t status) ''age_seconds'' = Some (JNum (Fin (q ''age_seconds'')))"
  "fld (dynamic_row i q t status) ''name'' = Some (JStr (t ''name''))"
  "fld (dynamic_row i q t status) ''market_data_time'' = Some (JStr (t ''market_data_time''))"
  "fld (dynamic_row i q t status) ''source_update_time'' = Some (JStr (t ''source_update_time''))"
  "fld (dynamic_row i q t status) ''quote_time'' = Some (JStr (t ''quote_time''))"
  "fld (dynamic_row i q t status) ''fetch_time'' = Some (JStr (t ''fetch_time''))"
  "fld (dynamic_row i q t status) ''market_status'' = Some status"
  "fld (dynamic_row i q t status) ''freshness_basis'' = Some (JStr ''MARKET_DATA'')"
  "fld (dynamic_row i q t status) ''primary_source'' = Some (JStr ''tencent'')"
  "fld (dynamic_row i q t status) ''secondary_source'' = Some JNull"
  "fld (dynamic_row i q t status) ''source_status'' = Some (JStr ''OK'')"
  "fld (dynamic_row i q t status) ''quality'' = Some (JStr ''LIVE_QUOTE'')"
  using fld_entries [OF dynamic_row_def [unfolded Let_def] dynamic_row_distinct, of i q t status]
  by (simp_all only: list.pred_inject fst_conv snd_conv simp_thms)

lemma dynamic_row_classified:
  assumes "identity_ok i"
  shows "validateClassification (dynamic_row i q t status) c = Inr ()"
    "validateClassification (pick UNIVERSE_FIELDS (dynamic_row i q t status)) c = Inr ()"
proof -
  let ?r = "dynamic_row i q t status"
  have u: "fld (pick UNIVERSE_FIELDS ?r) k = fld ?r k" if "k \<in> set UNIVERSE_FIELDS" for k
    using that by (simp add: fld_pick)
  note p = u [of "''market''"] u [of "''exchange''"] u [of "''group''"] u [of "''portfolio_group''"]
    u [of "''portfolio_status''"] u [of "''holding_status''"] u [of "''mapping_only''"]
    u [of "''mapped_to''"] u [of "''mapping_to''"] u [of "''position_qty''"] u [of "''is_position''"]
  note pf = p [unfolded UNIVERSE_FIELDS_def, simplified, folded UNIVERSE_FIELDS_def]
  have m: "id_market i = ''CN'' \<and> id_exchange i \<in> {''SH'', ''SZ''} \<or> id_market i = ''HK'' \<and> id_exchange i = ''HK''"
    using assms by (auto simp: identity_ok_def)
  note defs = validateClassification_def Let_def throw_if_ok outside_def MARKETS_def EXCHANGES_def GROUPS_def
    PORTFOLIO_GROUPS_def PORTFOLIO_STATUSES_def HOLDING_STATUSES_def expected_broad_group_def
    expected_portfolio_status_def not_string_or_null_def bad_quantity_def
  show "validateClassification ?r c = Inr ()"
    using m unfolding defs dynamic_row_fields by auto
  show "validateClassification (pick UNIVERSE_FIELDS ?r) c = Inr ()"
    using m unfolding defs pf dynamic_row_fields by auto
qed

lemma dynamic_row_valid:
  assumes "identity_ok i" "t ''name'' \<noteq> ''''" "t ''fetch_time'' \<noteq> ''''" "status \<in> {JStr ''OPEN'', JStr ''CLOSED''}"
  shows "validateStock (JObj (dynamic_row i q t status)) n = Inr (dynamic_row i q t status)"
    "validateUniverseItem (JObj (pick UNIVERSE_FIELDS (dynamic_row i q t status))) n
       = Inr (pick UNIVERSE_FIELDS (dynamic_row i q t status))"
proof -
  let ?r = "dynamic_row i q t status"
  have c: "id_code i \<noteq> ''''" using assms(1) by (auto simp: identity_ok_def is_digits_def)
  have r: "each_field REQUIRED_STOCK_FIELDS (\<lambda>f. \<not> has_key ?r f) m = Inr ()" for m
    by (simp add: REQUIRED_STOCK_FIELDS_def has_key_def dynamic_row_fields)
  have nf: "each_field numericFields (\<lambda>f. as_finite (fld ?r f) = None
      \<and> \<not> (\<not> truthy (fld ?r ''is_position'') \<and> fld ?r f = Some JNull)) m = Inr ()" for m
    by (simp add: numericFields_def dynamic_row_fields)
  show "validateStock (JObj ?r) n = Inr ?r"
    unfolding validateStock_def as_record.simps option.case Let_def r nf bindE.simps
      dynamic_row_classified(1) [OF assms(1)]
    using c assms(2-4)
    by (auto simp: requireString_def dynamic_row_fields not_string_or_null_def each_field_def)
  have ef: "each_field UNIVERSE_FIELDS (\<lambda>f. \<not> has_key (pick UNIVERSE_FIELDS ?r) f) m = Inr ()" for m
    by (simp add: has_key_def fld_pick UNIVERSE_FIELDS_def) (simp add: dynamic_row_fields)
  have rs: "requireString (pick UNIVERSE_FIELDS ?r) ''code'' m = Inr (id_code i)"
    "requireString (pick UNIVERSE_FIELDS ?r) ''name'' m = Inr (t ''name'')" for m
    using c assms(2) by (auto simp: requireString_ok fld_pick UNIVERSE_FIELDS_def) (simp_all add: dynamic_row_fields)
  show "validateUniverseItem (JObj (pick UNIVERSE_FIELDS ?r)) n = Inr (pick UNIVERSE_FIELDS ?r)"
    unfolding validateUniverseItem_def as_record.simps option.case Let_def ef rs bindE.simps
      dynamic_row_classified(2) [OF assms(1)] ..
qed

text \<open>A row that normalization made for an identity, and what the snapshot contract asks of it.\<close>

definition row_for :: "identity \<Rightarrow> quote_stock \<Rightarrow> bool" where
  "row_for i row \<longleftrightarrow> row_valid row \<and> item_valid (toPortfolioUniverseItem row)
     \<and> instrumentKey row = identity_key i \<and> fld row ''exchange'' = Some (JStr (id_exchange i))
     \<and> instrumentKey (toPortfolioUniverseItem row) = identity_key i
     \<and> (\<forall>f \<in> set UNIVERSE_FIELDS. strict_eq (fld (toPortfolioUniverseItem row) f) (fld row f))"

lemma normalize_row_for:
  assumes "normalizeProviderQuote lp i v now = Inr row" "identity_ok i"
  shows "row_for i row"
proof -
  obtain q t status where r: "row = dynamic_row i q t status" "t ''name'' \<noteq> ''''"
    "t ''fetch_time'' \<noteq> ''''" "status \<in> {JStr ''OPEN'', JStr ''CLOSED''}"
    using normalize_shape [OF assms] unfolding shaped_def by blast
  have u: "fld (toPortfolioUniverseItem row) f = fld row f" if "f \<in> set UNIVERSE_FIELDS" for f
    using that by (simp add: toPortfolioUniverseItem_def fld_pick)
  have "instrumentKey row = identity_key i"
    by (simp add: instrumentKey_def template_def identity_key_def r dynamic_row_fields)
  moreover have "instrumentKey (toPortfolioUniverseItem row) = instrumentKey row"
    by (simp add: instrumentKey_def u UNIVERSE_FIELDS_def)
  moreover have "\<forall>f \<in> set UNIVERSE_FIELDS. strict_eq (fld row f) (fld row f)"
    by (simp add: UNIVERSE_FIELDS_def r dynamic_row_fields)
  then have "\<forall>f \<in> set UNIVERSE_FIELDS. strict_eq (fld (toPortfolioUniverseItem row) f) (fld row f)"
    using u by (metis (no_types, lifting))
  ultimately show ?thesis
    using dynamic_row_valid [of i t status q 0] assms(2) r
    unfolding row_for_def row_valid_def item_valid_def
    by (simp only: r dynamic_row_fields toPortfolioUniverseItem_def) blast
qed

lemma merge_rows_all:
  "distinct (map instrumentKey rows) \<Longrightarrow> instrumentKey ` set rows \<inter> set seen = {} \<Longrightarrow>
   (\<And>row. row \<in> set rows \<Longrightarrow> \<exists>i. active (instrumentKey row) = Some i
      \<and> fld row ''exchange'' = Some (JStr (id_exchange i))) \<Longrightarrow>
   merge_rows existing active seen rows =
     Inr (filter (\<lambda>row. instrumentKey row \<notin> existing) rows, rev (map instrumentKey rows) @ seen)"
proof (induction rows arbitrary: seen)
  case (Cons row rows)
  have "merge_rows existing active (instrumentKey row # seen) rows =
     Inr (filter (\<lambda>row. instrumentKey row \<notin> existing) rows, rev (map instrumentKey rows) @ instrumentKey row # seen)"
    using Cons.prems by (intro Cons.IH) (auto simp: rev_image_eqI)
  moreover obtain i where "active (instrumentKey row) = Some i" "fld row ''exchange'' = Some (JStr (id_exchange i))"
    using Cons.prems(3) by auto
  ultimately show ?case using Cons.prems(2) by (simp add: Let_def)
qed simp

text \<open>The snapshot the merge builds from the rows it adds.\<close>

definition merged_summary :: "jsobj \<Rightarrow> quote_stock list \<Rightarrow> jsobj" where
  "merged_summary summary stocks =
     (let counts = getSnapshotCounts stocks; n = (\<lambda>k. JInt (int k));
          s = spread summary
            [(''total'', n (sc_total counts)), (''active_quote_total'', n (sc_active_quote counts)),
             (''active_holding_total'', n (sc_active_holding counts)),
             (''watch_total'', n (sc_watch counts)), (''exited_watch_total'', n (sc_exited_watch counts)),
             (''mapping_total'', n (sc_mapping counts)), (''core_total'', n (sc_core counts)),
             (''growth_total'', n (sc_growth counts))]
      in if has_key summary ''usable'' then spread s [(''usable'', n (sc_total counts))] else s)"

definition merged :: "quote_snapshot \<Rightarrow> quote_stock list \<Rightarrow> quote_snapshot" where
  "merged s additions =
     s\<lparr>qs_stocks := qs_stocks s @ additions,
       qs_universe := qs_universe s @ map toPortfolioUniverseItem additions,
       qs_summary := merged_summary (qs_summary s) (qs_stocks s @ additions)\<rparr>"

lemma merged_simps [simp]:
  "qs_stocks (merged s a) = qs_stocks s @ a"
  "qs_universe (merged s a) = qs_universe s @ map toPortfolioUniverseItem a"
  "qs_summary (merged s a) = merged_summary (qs_summary s) (qs_stocks s @ a)"
  "qs_fields (merged s a) = qs_fields s"
  by (simp_all add: merged_def)

lemma merge_complete:
  assumes "distinct (map identity_key (db_identities b))" "list_all2 row_for (db_identities b) (db_rows b)"
  shows "mergeDynamicQuoteRows s b = Inr (merged s
     (filter (\<lambda>row. instrumentKey row \<notin> set (map instrumentKey (qs_stocks s))) (db_rows b)))"
proof -
  let ?active = "map_of (rev (map (\<lambda>i. (identity_key i, i)) (db_identities b)))"
  have k: "map instrumentKey (db_rows b) = map identity_key (db_identities b)"
    using assms(2) by (auto simp: list_all2_conv_all_nth row_for_def intro: nth_equalityI)
  have act: "?active (identity_key i) = Some i" if "i \<in> set (db_identities b)" for i
    using that assms(1) by (intro map_of_is_SomeI) (auto simp: rev_map [symmetric] comp_def)
  have "\<exists>i. ?active (instrumentKey row) = Some i \<and> fld row ''exchange'' = Some (JStr (id_exchange i))"
    if "row \<in> set (db_rows b)" for row
  proof -
    obtain i where "i \<in> set (db_identities b)" "row_for i row"
      using \<open>row \<in> set (db_rows b)\<close> assms(2) by (metis in_set_conv_nth list_all2_conv_all_nth)
    with act show ?thesis by (auto simp: row_for_def)
  qed
  then have m: "merge_rows (set (map instrumentKey (qs_stocks s))) ?active [] (db_rows b) =
      Inr (filter (\<lambda>row. instrumentKey row \<notin> set (map instrumentKey (qs_stocks s))) (db_rows b),
           rev (map identity_key (db_identities b)) @ [])"
    using assms(1) k merge_rows_all [of "db_rows b" "[]"] by simp
  have "filter (\<lambda>i. identity_key i \<notin> set (rev (map identity_key (db_identities b)))) (db_identities b) = []"
    by (auto simp: filter_empty_conv)
  then show ?thesis
    unfolding mergeDynamicQuoteRows_def Let_def m bindE.simps prod.case append_Nil2
    using assms(1) by (simp add: js_set_distinct merged_def merged_summary_def Let_def)
qed
lemma merged_summary_fields:
  "fld (merged_summary summary ss) ''total'' = Some (JInt (int (length ss)))"
  "f \<in> set DERIVED_SUMMARY_FIELDS \<Longrightarrow>
     fld (merged_summary summary ss) f = Some (JInt (int (derived (getSnapshotCounts ss) f)))"
  unfolding merged_summary_def Let_def
  by (auto simp: fld_spread DERIVED_SUMMARY_FIELDS_def derived_def getSnapshotCounts_eq)

lemma row_for_facts:
  assumes "row_for i row"
  shows "classified row" "\<forall>f \<in> set REQUIRED_STOCK_FIELDS. has_key row f" "classified (toPortfolioUniverseItem row)"
    "instrumentKey (toPortfolioUniverseItem row) = instrumentKey row"
  using assms by (auto simp: row_for_def row_valid_def item_valid_def
      dest: validateStock_ok(2,3) validateUniverseItem_ok(2) simp del: set_simps)

lemma merged_valid:
  assumes s: "snapshot_valid s" and a: "\<forall>row \<in> set additions. \<exists>i. row_for i row"
    and d: "distinct (map instrumentKey additions)"
    and n: "\<forall>row \<in> set additions. instrumentKey row \<notin> set (map instrumentKey (qs_stocks s))"
  shows "snapshot_valid (merged s additions)"
proof -
  let ?us = "map toPortfolioUniverseItem additions"
  have ok: "snapshot_ok s" and v: "list_all row_valid (qs_stocks s)" "list_all item_valid (qs_universe s)"
    using s unfolding snapshot_valid_def by blast+
  note o' = ok [unfolded snapshot_ok_def]
  have f: "classified row" "has_key row k" "classified (toPortfolioUniverseItem row)"
    "instrumentKey (toPortfolioUniverseItem row) = instrumentKey row" "row_valid row"
    "item_valid (toPortfolioUniverseItem row)"
    "\<forall>f \<in> set UNIVERSE_FIELDS. strict_eq (fld (toPortfolioUniverseItem row) f) (fld row f)"
    if "row \<in> set additions" "k \<in> set REQUIRED_STOCK_FIELDS" for row k
    using a that row_for_facts by (auto simp: row_for_def simp del: set_simps)
  have r: "''code'' \<in> set REQUIRED_STOCK_FIELDS" by (simp add: REQUIRED_STOCK_FIELDS_def)
  note g = f [OF _ r]
  have ku: "map instrumentKey ?us = map instrumentKey additions" using g(4) by auto
  have cover: "instrumentKey u \<in> set (map instrumentKey (qs_stocks s))" if "u \<in> set (qs_universe s)" for u
  proof -
    obtain x where "x \<in> set (qs_stocks s)" "instrumentKey x = instrumentKey u" using o' \<open>u \<in> _\<close> by blast
    then show ?thesis by (metis image_eqI set_map)
  qed
  have match: "\<exists>x \<in> set (qs_stocks s @ additions). instrumentKey x = instrumentKey u
      \<and> (\<forall>f \<in> set UNIVERSE_FIELDS. strict_eq (fld u f) (fld x f))"
    if el: "u \<in> set (qs_universe s @ ?us)" for u
  proof (cases "u \<in> set (qs_universe s)")
    case True
    then show ?thesis using o' by (metis (no_types, lifting) UnI1 set_append)
  next
    case False
    then obtain row where "row \<in> set additions" "u = toPortfolioUniverseItem row" using el by auto
    then show ?thesis using g(4,7) by (intro bexI [of _ row]) auto
  qed
  have key: "\<forall>x \<in> set (qs_stocks s @ additions). \<forall>k \<in> set REQUIRED_STOCK_FIELDS. has_key x k"
    using o' f(2) by (metis Un_iff set_append)
  have disj: "set (map instrumentKey (qs_stocks s)) \<inter> set (map instrumentKey additions) = {}"
  proof (rule equals0I)
    fix k assume "k \<in> set (map instrumentKey (qs_stocks s)) \<inter> set (map instrumentKey additions)"
    then have k: "k \<in> set (map instrumentKey (qs_stocks s))" "k \<in> instrumentKey ` set additions"
      by (simp_all only: Int_iff set_map)
    from k(2) obtain row where "row \<in> set additions" "instrumentKey row = k" by blast
    with n k(1) show False by blast
  qed
  have dist: "distinct (map instrumentKey (qs_stocks s @ additions))"
    unfolding map_append distinct_append using o' d disj by blast
  have distu: "distinct (map instrumentKey (qs_universe s @ ?us))"
  proof -
    have "set (map instrumentKey (qs_universe s)) \<subseteq> set (map instrumentKey (qs_stocks s))"
      using cover by auto
    then show ?thesis
      unfolding map_append ku distinct_append using o' d disj by blast
  qed
  have cl: "list_all classified (qs_stocks s @ additions)" "list_all classified (qs_universe s @ ?us)"
    using o' g(1,3) by (auto simp: list_all_iff)
  have len: "length (qs_universe s @ ?us) = length (qs_stocks s @ additions)"
    using o' by simp
  have "snapshot_ok (merged s additions)"
    unfolding snapshot_ok_def merged_simps
    using cl len match key dist distu merged_summary_fields by blast
  then show ?thesis
    using s g(5,6) by (auto simp: snapshot_valid_def list_all_iff)
qed
lemma trim_not_blank:
  assumes "c \<in> set s" "\<not> is_space c"
  shows "js_trim s \<noteq> ''''"
proof -
  have "c \<in> set (dropWhile is_space s)"
    using assms set_takeWhileD [of c is_space s] by (metis Un_iff set_append takeWhile_dropWhile_id)
  then have "dropWhile is_space (rev (dropWhile is_space s)) \<noteq> []"
    using assms(2) by (auto simp: dropWhile_eq_Nil_conv)
  then show ?thesis by (simp add: js_trim_def)
qed

lemma iso_not_blank: "tencentTimeToIso v i symbol = Inr t \<Longrightarrow> js_trim t \<noteq> ''''"
  by (rule trim_not_blank [of "CHR ''-''"])
    (auto simp: tencentTimeToIso_def Let_def is_space_def split: if_splits)

text \<open>A response for one Hong Kong instrument.\<close>

definition sample_record :: "string list" where
  "sample_record = [''100'', ''TENCENT'', ''00700''] @ replicate 4 ''7'' @ replicate 23 ''0''
     @ [''2026/01/05 10:00:00''] @ replicate 4 ''7'' @ [''0'', ''0'', ''2.5'']"

definition sample_response :: string where
  "sample_response = ''v_hk00700='' @ [CHR 0x22] @ concat (map (\<lambda>f. f @ ''~'') sample_record) @ [CHR 0x22] @ '';''"

lemma sample_number:
  "providerNumber (Some ''7'') f i s = Inr 7" "providerNumber (Some ''2.5'') f i s = Inr 2.5"
proof -
  have n: "string_to_number ''7'' = Fin 7" "string_to_number ''2.5'' = Fin 2.5" by code_simp+
  have t: "js_trim ''7'' \<noteq> ''''" "js_trim ''2.5'' \<noteq> ''''" by code_simp+
  show "providerNumber (Some ''7'') f i s = Inr 7" "providerNumber (Some ''2.5'') f i s = Inr 2.5"
    unfolding providerNumber_def option.case n jsnum.case using t by simp_all
qed

lemma sample_parses: "\<exists>q. parseTencentQuoteResponse ''hk00700'' sample_response 0 = Inr q"
proof -
  let ?i = "\<lparr>id_market = ''HK'', id_exchange = ''HK'', id_code = ''00700''\<rparr>"
  have i: "identityFromTencentSymbol ''hk00700'' = Inr ?i"
    "resolveTencentSymbol (JObj (identity_object ?i)) = Inr ''hk00700''"
    "assignment_body ''hk00700'' sample_response = Some (concat (map (\<lambda>f. f @ ''~'') sample_record))"
    "split_char CHR ''~'' (concat (map (\<lambda>f. f @ ''~'') sample_record)) = sample_record @ ['''']"
    by code_simp+
  have f: "concat (map (\<lambda>f. f @ ''~'') sample_record) \<noteq> ''''"
    "\<not> (length (sample_record @ ['''']) < 35 \<or> (sample_record @ ['''']) ! 2 \<noteq> id_code ?i)" "id_market ?i = ''HK''"
    by code_simp+
  have e: "element_at (sample_record @ ['''']) 3 = Some ''7''" "element_at (sample_record @ ['''']) 4 = Some ''7''"
    "element_at (sample_record @ ['''']) 5 = Some ''7''" "element_at (sample_record @ ['''']) 6 = Some ''7''"
    "element_at (sample_record @ ['''']) 31 = Some ''7''" "element_at (sample_record @ ['''']) 32 = Some ''7''"
    "element_at (sample_record @ ['''']) 33 = Some ''7''" "element_at (sample_record @ ['''']) 34 = Some ''7''"
    "element_at (sample_record @ ['''']) 37 = Some ''2.5''"
    "(sample_record @ ['''']) ! 30 = ''2026/01/05 10:00:00''"
    by code_simp+
  have "\<not> isl (tencentTimeToIso ''2026/01/05 10:00:00'' ?i ''hk00700'')" by code_simp
  then obtain t where t: "tencentTimeToIso ''2026/01/05 10:00:00'' ?i ''hk00700'' = Inr t"
    by (metis sum.collapse(2))
  show ?thesis
    unfolding parseTencentQuoteResponse_def i bindE.simps option.case Let_def
      if_not_P [OF f(1)] if_not_P [OF f(2)] if_P [OF f(3)] e sample_number t
    by blast
qed

section \<open>Properties\<close>

text \<open>The live fetch is all or nothing: with a provider it returns a batch exactly when every
  input is a canonical identity, no instrument is asked for twice, and the provider's answer for
  every one of them normalizes to a row; the batch then holds these rows, one per identity in
  the order of the inputs. One failing instrument fails the whole batch.\<close>

theorem dynamic_fetch_all_or_nothing:
  "fetchDynamicQuoteRows lp inputs (Some p) now = Inr b \<longleftrightarrow>
     map canonicalizeIdentity inputs = map Inr (db_identities b)
   \<and> distinct (map identity_key (db_identities b)) \<and> db_symbols b = map symbol_of (db_identities b)
   \<and> list_all2 (\<lambda>i row. \<exists>v. p (symbol_of i) i = Inr v \<and> normalizeProviderQuote lp i v now = Inr row)
       (db_identities b) (db_rows b)"
  unfolding fetch_Inr settled_row_Inr ..

text \<open>The Tencent symbol of an identity names exactly that identity: reading the symbol back
  gives the canonical identity, and canonicalizing it again changes nothing.\<close>

theorem tencent_symbol_roundtrip:
  assumes "resolveTencentSymbol v = Inr symbol"
  shows "\<exists>i. canonicalizeIdentity v = Inr i \<and> identityFromTencentSymbol symbol = Inr i
    \<and> canonicalizeIdentity (JObj (identity_object i)) = Inr i \<and> symbol_of i = symbol"
proof -
  obtain i where i: "canonicalizeIdentity v = Inr i"
    using assms by (auto simp: resolveTencentSymbol_def bindE_Inr)
  have ok: "identity_ok i" by (rule canonicalizeIdentity_ok [OF i])
  have s: "symbol = symbol_of i"
    using assms by (simp add: symbol_of_eq [OF ok] resolveTencentSymbol_def i)
  have "identityFromTencentSymbol (symbol_of i) = Inr i"
    by (rule symbol_identity [OF ok])
  then show ?thesis using i s canonicalize_object [OF ok] by blast
qed

theorem tencent_symbol_roundtrip_witness:
  "\<exists>i. identityFromTencentSymbol ''sh600519'' = Inr i \<and> symbol_of i = ''sh600519''"
proof -
  have "resolveTencentSymbol (JObj [(''market'', JStr '' cn''), (''exchange'', JStr ''Sh''),
      (''code'', JStr ''600519'')]) = Inr ''sh600519''"
    by code_simp
  from tencent_symbol_roundtrip [OF this] show ?thesis by blast
qed


definition sample_quote :: jsobj where
  "sample_quote = [(''price'', JInt 10), (''pre_close'', JInt 8), (''open'', JInt 9), (''high'', JInt 11),
     (''low'', JInt 7), (''volume'', JInt 100), (''amount'', JInt 1000),
     (''market_data_time'', JStr ''2026-01-05T10:00:00+08:00''), (''fetch_time'', JStr ''2026-01-05T02:00:05.000Z'')]"

definition sample_identity :: identity where
  "sample_identity = \<lparr>id_market = ''CN'', id_exchange = ''SH'', id_code = ''600519''\<rparr>"

definition sample_batch :: dynamic_batch where
  "sample_batch = \<lparr>db_identities = [sample_identity], db_symbols = [''sh600519''],
     db_rows = [[(''code'', JStr ''600519''), (''market'', JStr ''CN''), (''exchange'', JStr ''SH''), (''name'', JStr ''SH600519''),
       (''group'', JStr ''Watch''), (''portfolio_group'', JStr ''watch''), (''portfolio_status'', JStr ''WATCH''),
       (''holding_status'', JStr ''ACTIVE''), (''mapping_only'', JBool False), (''mapped_to'', JNull),
       (''mapping_to'', JNull), (''position_qty'', JNull), (''is_position'', JBool True), (''price'', JInt 10),
       (''change'', JInt 2), (''change_pct'', JInt 25), (''pre_close'', JInt 8), (''prev_close'', JInt 8),
       (''open'', JInt 9), (''high'', JInt 11), (''low'', JInt 7), (''pct_change'', JInt 25), (''volume'', JInt 100),
       (''amount'', JInt 1000), (''market_status'', JStr ''CLOSED''),
       (''market_data_time'', JStr ''2026-01-05T10:00:00+08:00''),
       (''source_update_time'', JStr ''2026-01-05T10:00:00+08:00''), (''freshness_basis'', JStr ''MARKET_DATA''),
       (''quote_time'', JStr ''2026-01-05T10:00:00+08:00''), (''fetch_time'', JStr ''2026-01-05T02:00:05.000Z''),
       (''age_seconds'', JInt 5), (''primary_source'', JStr ''tencent''), (''secondary_source'', JNull),
       (''source_status'', JStr ''OK''), (''quality'', JStr ''LIVE_QUOTE'')]]\<rparr>"

lemma sample_normalizes:
  "normalizeProviderQuote (\<lambda>_. None) sample_identity (Some (JObj sample_quote)) 0 = Inr (hd (db_rows sample_batch))"
  by code_simp

lemma sample_fetch:
  "fetchDynamicQuoteRows (\<lambda>_. None) [JObj (identity_object sample_identity)]
     (Some (\<lambda>_ _. Inr (Some (JObj sample_quote)))) 0 = Inr sample_batch"
  by code_simp



text \<open>No exception but the structured error leaves the module: whatever the endpoint or the
  provider does, the quote request, the batch fetch and the merge fail only with a
  \<open>DynamicQuoteError\<close>; an unexpected exception is turned into one on the way.\<close>

theorem dynamic_errors_structured:
  "fetchTencentQuote endpoint now symbol \<noteq> Inl (Other_Error m)
   \<and> fetchDynamicQuoteRows lp inputs provider now \<noteq> Inl (Other_Error m)
   \<and> mergeDynamicQuoteRows s b \<noteq> Inl (Other_Error m)"
proof (intro conjI)
  have c: "canonicalizeIdentity v \<noteq> Inl (Other_Error m)" for v
    by (auto simp: canonicalizeIdentity_def Let_def invalidIdentity_def identityFailure_def split: option.splits)
  then have f: "identityFromTencentSymbol symbol \<noteq> Inl (Other_Error m)"
    "resolveTencentSymbol v \<noteq> Inl (Other_Error m)" for v
    by (auto simp: identityFromTencentSymbol_def resolveTencentSymbol_def Let_def identityFailure_def bindE_Inl)
  show "fetchTencentQuote endpoint now symbol \<noteq> Inl (Other_Error m)"
    using f by (auto simp: fetchTencentQuote_def bindE_Inl identityFailure_def
        split: option.splits sum.splits thrown.splits http_outcome.splits)
  show "fetchDynamicQuoteRows lp inputs provider now \<noteq> Inl (Other_Error m)"
    by (simp add: fetchDynamicQuoteRows_def Let_def split: prod.splits option.splits)
  have "merge_rows existing active seen rows \<noteq> Inl (Other_Error m)" for existing active seen rows
    by (induction existing active seen rows rule: merge_rows.induct)
      (simp_all add: Let_def row_error_def merge_error_def bindE_Inl split: prod.splits)
  then show "mergeDynamicQuoteRows s b \<noteq> Inl (Other_Error m)"
    by (simp add: mergeDynamicQuoteRows_def Let_def merge_error_def bindE_Inl split: prod.splits)
qed

text \<open>A Tencent record that parses is never refused later: it normalizes for every identity and
  clock, and the row carries the record's prices, volume, amount and market status unchanged.\<close>

theorem parsed_quote_normalizes:
  assumes "parseTencentQuoteResponse symbol body now = Inr q"
  shows "\<exists>row. normalizeProviderQuote lp i (Some (JObj q)) now' = Inr row
    \<and> (\<forall>k \<in> {''price'', ''change'', ''change_pct'', ''pre_close'', ''prev_close'', ''open'', ''high'', ''low'',
          ''pct_change'', ''volume'', ''amount'', ''market_status'', ''market_data_time''}. fld row k = fld q k)"
proof -
  let ?ok = "\<lambda>q. \<exists>row. normalizeProviderQuote lp i (Some (JObj q)) now' = Inr row
    \<and> list_all (\<lambda>k. fld row k = fld q k) [''price'', ''change'', ''change_pct'', ''pre_close'', ''prev_close'',
       ''open'', ''high'', ''low'', ''pct_change'', ''volume'', ''amount'', ''market_status'', ''market_data_time'']"
  have n: "?ok [(''name'', JStr nm), (''price'', JNum (Fin price)), (''change'', JNum (Fin change)),
           (''change_pct'', JNum (Fin changePct)), (''pre_close'', JNum (Fin preClose)),
           (''prev_close'', JNum (Fin preClose)), (''open'', JNum (Fin open')), (''high'', JNum (Fin high)),
           (''low'', JNum (Fin low)), (''pct_change'', JNum (Fin changePct)), (''volume'', JNum (Fin volume)),
           (''amount'', JNum (Fin amount)), (''market_status'', JStr (status_text ms)),
           (''market_data_time'', JStr t), (''source_update_time'', JStr t),
           (''quote_time'', JStr t), (''fetch_time'', JStr ft)]"
    if t: "js_trim t \<noteq> ''''" for nm price change changePct preClose open' high low volume amount ms t ft
    using t by (cases ms) (simp_all add: normalizeProviderQuote_def finiteField_def optionalFiniteField_def
        or_else_def Let_def status_text_def)
  have "yields ?ok (parseTencentQuoteResponse symbol body now)"
    unfolding parseTencentQuoteResponse_def Let_def
    by (intro yields_intros n) (rule iso_not_blank)
  with assms have "?ok q" by (simp add: yields_def)
  then show ?thesis by simp
qed

theorem parsed_quote_normalizes_witness:
  "\<exists>q row. parseTencentQuoteResponse ''hk00700'' sample_response 0 = Inr q
     \<and> normalizeProviderQuote (\<lambda>_. None) sample_identity (Some (JObj q)) 0 = Inr row"
proof -
  obtain q where "parseTencentQuoteResponse ''hk00700'' sample_response 0 = Inr q"
    using sample_parses by blast
  with parsed_quote_normalizes [OF this, of "\<lambda>_. None" sample_identity 0] show ?thesis by blast
qed

end
