(* ===== verification/Quote_Catalog.thy ===== *)
theory Quote_Catalog
  imports Kv_Store Dynamic_Quotes
begin

text \<open>
  \<open>src/src/quote-catalog.ts\<close>: the private catalog of quoted instruments, its storage in the KV,
  and the snapshot fetched for it. A catalog is an open object, so it stays a \<^typ>\<open>jsobj\<close>;
  \<open>validateQuoteCatalog\<close> asserts its type and returns the narrowed object. An item property that is
  \<open>undefined\<close> leaves the row property undefined, which is the absent property of the value model.
\<close>

definition QUOTE_CATALOG_SCHEMA :: string where
  "QUOTE_CATALOG_SCHEMA = ''quote-catalog/1''"

definition QUOTE_CATALOG_KV_KEY :: string where
  "QUOTE_CATALOG_KV_KEY = ''quote-catalog/current''"

definition CATALOG_FIELDS :: "string list" where
  "CATALOG_FIELDS = [''market'', ''exchange'', ''code'', ''name'', ''group'', ''portfolio_group'',
     ''portfolio_status'', ''mapping_only'', ''mapped_to'', ''mapping_to'']"

definition keyOf :: "jsobj \<Rightarrow> string" where
  "keyOf v = template (fld v ''market'') @ '':'' @ template (fld v ''code'')"

definition catalogItem :: "quote_stock \<Rightarrow> jsobj" where
  "catalogItem stock = pick CATALOG_FIELDS stock"

text \<open>The first key that occurred before, as the loops over the items find it.\<close>

fun repeated :: "string list \<Rightarrow> string list \<Rightarrow> string option" where
  "repeated seen [] = None"
| "repeated seen (k # ks) = (if k \<in> set seen then Some k else repeated (k # seen) ks)"

definition duplicate_message :: "string \<Rightarrow> string" where
  "duplicate_message k = ''quote catalog contains duplicate identity: '' @ k"

definition quoteCatalogFromSnapshot :: "jsval \<Rightarrow> int \<Rightarrow> jsobj result" where
  "quoteCatalogFromSnapshot v now =
     bindE (validateSnapshot no_options v) (\<lambda>snapshot.
     (let items = map catalogItem (qs_stocks snapshot) in
      case repeated [] (map keyOf items) of
        Some k \<Rightarrow> Inl (duplicate_message k)
      | None \<Rightarrow>
          Inr ([(''schema_version'', JStr QUOTE_CATALOG_SCHEMA), (''generated_at'', JStr (to_iso now))]
            @ (case fld (qs_fields snapshot) ''portfolio_version'' of None \<Rightarrow> []
               | Some p \<Rightarrow> [(''source_catalog_version'', p)])
            @ [(''items'', JArr (map JObj items))])))"

text \<open>One pass of the loop over the items, without the duplicate check.\<close>

definition catalog_item_message :: "nat \<Rightarrow> string \<Rightarrow> string" where
  "catalog_item_message i rest = ''quote catalog item '' @ show_nat i @ rest"

definition check_catalog_item :: "jsval \<Rightarrow> nat \<Rightarrow> jsobj result" where
  "check_catalog_item v i =
     (case as_record v of None \<Rightarrow> Inl (catalog_item_message i '' must be an object'')
      | Some item \<Rightarrow>
      bindE (throw_if
        [(outside [''CN'', ''HK''] (fld item ''market''), catalog_item_message i ''.market is invalid''),
         (outside [''SZ'', ''SH'', ''HK''] (fld item ''exchange''), catalog_item_message i ''.exchange is invalid''),
         (case as_string (fld item ''code'') of None \<Rightarrow> True | Some c \<Rightarrow> \<not> is_digits 5 c \<and> \<not> is_digits 6 c,
            catalog_item_message i ''.code is invalid''),
         (\<not> nonempty_text (fld item ''name''), catalog_item_message i ''.name is invalid''),
         (outside [''Core'', ''Growth'', ''Watch''] (fld item ''group''), catalog_item_message i ''.group is invalid''),
         (outside [''core'', ''growth'', ''watch'', ''mapping''] (fld item ''portfolio_group''),
            catalog_item_message i ''.portfolio_group is invalid''),
         (as_bool (fld item ''mapping_only'') = None, catalog_item_message i ''.mapping_only is invalid'')])
      (\<lambda>_. Inr item))"

fun check_catalog_items :: "string list \<Rightarrow> nat \<Rightarrow> jsval list \<Rightarrow> unit result" where
  "check_catalog_items seen i [] = Inr ()"
| "check_catalog_items seen i (v # vs) =
     bindE (check_catalog_item v i) (\<lambda>item.
       if keyOf item \<in> set seen then Inl (duplicate_message (keyOf item))
       else check_catalog_items (keyOf item # seen) (Suc i) vs)"

definition validateQuoteCatalog :: "jsval \<Rightarrow> jsobj result" where
  "validateQuoteCatalog v =
     (case as_record v of None \<Rightarrow> Inl ''quote catalog must be an object''
      | Some catalog \<Rightarrow>
      bindE (throw_if
        [(\<not> is_str (fld catalog ''schema_version'') QUOTE_CATALOG_SCHEMA,
            ''quote catalog schema must be '' @ QUOTE_CATALOG_SCHEMA),
         (\<not> nonempty_text (fld catalog ''generated_at''), ''quote catalog generated_at is required''),
         (\<not> nonempty_text (fld catalog ''source_catalog_version''),
            ''quote catalog source_catalog_version is required''),
         (case as_array (fld catalog ''items'') of None \<Rightarrow> True
          | Some items \<Rightarrow> items = [] \<or> length items > 200, ''quote catalog items must contain 1-200 rows'')]) (\<lambda>_.
      (case as_array (fld catalog ''items'') of None \<Rightarrow> Inl '''' | Some items \<Rightarrow>
       bindE (check_catalog_items [] 0 items) (\<lambda>_. Inr catalog))))"

definition writeQuoteCatalog :: "kv \<Rightarrow> jsval \<Rightarrow> (kv \<times> jsobj) result" where
  "writeQuoteCatalog kv v =
     bindE (validateQuoteCatalog v) (\<lambda>catalog. Inr (kv(QUOTE_CATALOG_KV_KEY \<mapsto> JsonText v), catalog))"

definition readQuoteCatalog :: "kv \<Rightarrow> jsobj option result" where
  "readQuoteCatalog kv =
     (case kv QUOTE_CATALOG_KV_KEY of
        None \<Rightarrow> Inr None
      | Some EmptyText \<Rightarrow> Inr None
      | Some BadText \<Rightarrow> Inl ''SyntaxError''
      | Some (JsonText v) \<Rightarrow> bindE (validateQuoteCatalog v) (\<lambda>c. Inr (Some c)))"

text \<open>\<open>{ ...row, k: v }\<close> where the value may be \<open>undefined\<close>.\<close>

definition assign :: "string \<Rightarrow> jsval option \<Rightarrow> jsobj \<Rightarrow> jsobj" where
  "assign k v ob = (case v of Some x \<Rightarrow> obj_set ob k x | None \<Rightarrow> filter (\<lambda>e. fst e \<noteq> k) ob)"

definition is_mapping_item :: "jsobj \<Rightarrow> bool" where
  "is_mapping_item item \<longleftrightarrow> is_str (fld item ''portfolio_group'') ''mapping'' \<or> truthy (fld item ''mapping_only'')"

definition classifiedRow :: "quote_stock \<Rightarrow> jsobj \<Rightarrow> quote_stock" where
  "classifiedRow row item =
     (let mapping = is_mapping_item item;
          name = (if truthy (fld item ''name'') then fld item ''name'' else fld row ''name'') in
      fold (\<lambda>(k, v). assign k v)
        [(''name'', name), (''group'', fld item ''group''), (''portfolio_group'', fld item ''portfolio_group''),
         (''portfolio_status'', fld item ''portfolio_status''),
         (''holding_status'', Some (JStr (if mapping then ''MAPPING_ONLY'' else ''WATCH''))),
         (''mapping_only'', Some (JBool mapping)), (''mapped_to'', fld item ''mapped_to''),
         (''mapping_to'', fld item ''mapping_to''), (''position_qty'', Some (JInt 0)),
         (''is_position'', Some (JBool False))] row)"

datatype catalog_error = Catalog_Error string | Provider_Error thrown

definition lift_error :: "('e \<Rightarrow> 'f) \<Rightarrow> 'e + 'a \<Rightarrow> 'f + 'a" where
  "lift_error f r = (case r of Inl e \<Rightarrow> Inl (f e) | Inr a \<Rightarrow> Inr a)"

text \<open>The rows of the batch, classified by the catalog.\<close>

definition classify_rows :: "jsobj list \<Rightarrow> quote_stock list \<Rightarrow> (catalog_error + quote_stock list)" where
  "classify_rows items rows =
     mapE (\<lambda>row i. case map_of (rev (map (\<lambda>item. (keyOf item, item)) items)) (keyOf row) of
        None \<Rightarrow> Inl (Catalog_Error ''provider returned identity outside private quote catalog'')
      | Some item \<Rightarrow> Inr (classifiedRow row item)) rows"

definition catalog_summary :: "quote_stock list \<Rightarrow> jsobj" where
  "catalog_summary stocks =
     (let counts = getSnapshotCounts stocks; n = (\<lambda>k. JInt (int k)) in
      [(''total'', n (sc_total counts)), (''usable'', n (sc_total counts)),
       (''active_quote_total'', n (sc_active_quote counts)),
       (''active_holding_total'', n (sc_active_holding counts)), (''watch_total'', n (sc_watch counts)),
       (''exited_watch_total'', n (sc_exited_watch counts)), (''mapping_total'', n (sc_mapping counts)),
       (''core_total'', n (sc_core counts)), (''growth_total'', n (sc_growth counts))])"

definition provisional_snapshot :: "jsobj \<Rightarrow> int \<Rightarrow> quote_stock list \<Rightarrow> quote_snapshot" where
  "provisional_snapshot catalog now stocks =
     \<lparr>qs_fields = [(''portfolio_version'', JStr (''catalog:'' @ template (fld catalog ''generated_at''))),
        (''snapshot_time'', JStr (to_iso now)),
        (''market_status'', JStr (if list_ex (\<lambda>row. is_str (fld row ''market_status'') ''OPEN'') stocks
           then ''OPEN'' else ''CLOSED'')),
        (''source_mode'', JStr ''DIRECT_TENCENT''), (''system_quality'', JStr ''OK'')],
      qs_summary = catalog_summary stocks, qs_stocks = stocks,
      qs_universe = map (pick UNIVERSE_FIELDS) stocks\<rparr>"

text \<open>The provider is \<open>options.fetchQuote\<close>, or the Tencent provider when it is absent.\<close>

definition fetchQuoteSnapshotFromCatalog ::
  "(string \<Rightarrow> int option) \<Rightarrow> jsval \<Rightarrow> provider \<Rightarrow> int \<Rightarrow> catalog_error + quote_snapshot" where
  "fetchQuoteSnapshotFromCatalog lp v fetchQuote now =
     bindE (lift_error Catalog_Error (validateQuoteCatalog v)) (\<lambda>catalog.
     (let items = (case as_array (fld catalog ''items'') of None \<Rightarrow> [] | Some xs \<Rightarrow> xs) in
      bindE (lift_error Provider_Error (fetchDynamicQuoteRows lp items (Some fetchQuote) now)) (\<lambda>batch.
      bindE (classify_rows (List.map_filter as_record items) (db_rows batch)) (\<lambda>stocks.
      lift_error Catalog_Error
        (validateSnapshot no_options (JObj (snapshot_object (provisional_snapshot catalog now stocks))))))))"

section \<open>Facts\<close>

lemma fld_assign: "fld (assign k v ob) k' = (if k' = k then v else fld ob k')"
proof (cases v)
  case None
  have "fld (filter (\<lambda>e. fst e \<noteq> k) ob) k' = (if k' = k then None else fld ob k')"
    by (induction ob) auto
  then show ?thesis by (simp add: assign_def None)
qed (simp add: assign_def fld_obj_set)

lemma fld_fold_assign:
  "fld (fold (\<lambda>(k, v). assign k v) us ob) k' = (case map_of (rev us) k' of Some v \<Rightarrow> v | None \<Rightarrow> fld ob k')"
  by (induction us arbitrary: ob) (auto simp: fld_assign map_add_def split: option.splits prod.splits)

lemma assigned_field: "(k, v) \<in> set us \<Longrightarrow> distinct (map fst us) \<Longrightarrow> fld (fold (\<lambda>(k, v). assign k v) us ob) k = v"
  using map_of_is_SomeI [of "rev us" k v] by (simp add: fld_fold_assign rev_map [symmetric])

lemma unassigned_field: "k \<notin> fst ` set us \<Longrightarrow> fld (fold (\<lambda>(k, v). assign k v) us ob) k = fld ob k"
  by (simp add: fld_fold_assign map_of_eq_None_iff [THEN iffD2])

definition CLASSIFIED_KEYS :: "string list" where
  "CLASSIFIED_KEYS = [''name'', ''group'', ''portfolio_group'', ''portfolio_status'', ''holding_status'', ''mapping_only'',
     ''mapped_to'', ''mapping_to'', ''position_qty'', ''is_position'']"

lemma classified_fields:
  "fld (classifiedRow row item) ''name'' = (if truthy (fld item ''name'') then fld item ''name'' else fld row ''name'')"
  "f \<in> {''group'', ''portfolio_group'', ''portfolio_status'', ''mapped_to'', ''mapping_to''} \<Longrightarrow>
     fld (classifiedRow row item) f = fld item f"
  "fld (classifiedRow row item) ''holding_status'' = Some (JStr (if is_mapping_item item then ''MAPPING_ONLY'' else ''WATCH''))"
  "fld (classifiedRow row item) ''mapping_only'' = Some (JBool (is_mapping_item item))"
  "fld (classifiedRow row item) ''position_qty'' = Some (JInt 0)"
  "fld (classifiedRow row item) ''is_position'' = Some (JBool False)"
  "f \<notin> {''name'', ''group'', ''portfolio_group'', ''portfolio_status'', ''holding_status'', ''mapping_only'',
     ''mapped_to'', ''mapping_to'', ''position_qty'', ''is_position''} \<Longrightarrow> fld (classifiedRow row item) f = fld row f"
proof -
  let ?us = "[(''name'', if truthy (fld item ''name'') then fld item ''name'' else fld row ''name''),
       (''group'', fld item ''group''), (''portfolio_group'', fld item ''portfolio_group''),
       (''portfolio_status'', fld item ''portfolio_status''),
       (''holding_status'', Some (JStr (if is_mapping_item item then ''MAPPING_ONLY'' else ''WATCH''))),
       (''mapping_only'', Some (JBool (is_mapping_item item))), (''mapped_to'', fld item ''mapped_to''),
       (''mapping_to'', fld item ''mapping_to''), (''position_qty'', Some (JInt 0)), (''is_position'', Some (JBool False))]"
  obtain us where us: "us = ?us" by simp
  have r: "classifiedRow row item = fold (\<lambda>(k, v). assign k v) us row"
    unfolding classifiedRow_def Let_def us by (rule refl)
  have k: "map fst us = CLASSIFIED_KEYS" by (simp add: us CLASSIFIED_KEYS_def)
  have d: "distinct (map fst us)" unfolding k by code_simp
  have "list_all (\<lambda>e. fld (classifiedRow row item) (fst e) = snd e) us"
    using assigned_field [OF _ d, of _ _ row] unfolding r by (auto simp: list_all_iff)
  note e = this [unfolded us list.pred_inject fst_conv snd_conv]
  from e show "fld (classifiedRow row item) ''name'' = (if truthy (fld item ''name'') then fld item ''name'' else fld row ''name'')"
    "fld (classifiedRow row item) ''holding_status'' = Some (JStr (if is_mapping_item item then ''MAPPING_ONLY'' else ''WATCH''))"
    "fld (classifiedRow row item) ''mapping_only'' = Some (JBool (is_mapping_item item))"
    "fld (classifiedRow row item) ''position_qty'' = Some (JInt 0)"
    "fld (classifiedRow row item) ''is_position'' = Some (JBool False)"
    by - (elim conjE, assumption)+
  show "f \<in> {''group'', ''portfolio_group'', ''portfolio_status'', ''mapped_to'', ''mapping_to''} \<Longrightarrow>
     fld (classifiedRow row item) f = fld item f"
    using e by - (elim conjE insertE emptyE; hypsubst; assumption)
  have x: "{''name'', ''group'', ''portfolio_group'', ''portfolio_status'', ''holding_status'', ''mapping_only'',
     ''mapped_to'', ''mapping_to'', ''position_qty'', ''is_position''} = fst ` set us"
    unfolding set_map [symmetric] k CLASSIFIED_KEYS_def list.set by (rule refl)
  show "f \<notin> {''name'', ''group'', ''portfolio_group'', ''portfolio_status'', ''holding_status'', ''mapping_only'',
     ''mapped_to'', ''mapping_to'', ''position_qty'', ''is_position''} \<Longrightarrow> fld (classifiedRow row item) f = fld row f"
    unfolding r x by (rule unassigned_field)
qed

lemma keyOf_classified: "instrumentKey (classifiedRow row item) = instrumentKey row"
  by (simp add: instrumentKey_def classified_fields)

lemma keyOf_instrumentKey: "keyOf row = instrumentKey row"
  by (simp add: keyOf_def instrumentKey_def)

definition item_fine :: "jsobj \<Rightarrow> bool" where
  "item_fine item \<longleftrightarrow> (\<exists>i. check_catalog_item (JObj item) i = Inr item)"

lemma check_catalog_item_ok: "check_catalog_item v i = Inr item \<Longrightarrow> v = JObj item \<and> item_fine item"
  by (auto simp: check_catalog_item_def item_fine_def throw_if_ok bindE_Inr simp del: throw_if.simps
      split: option.splits)

lemma check_catalog_items_ok:
  "check_catalog_items seen i vs = Inr u \<Longrightarrow> \<exists>items. vs = map JObj items \<and> list_all item_fine items
     \<and> distinct (map keyOf items) \<and> set (map keyOf items) \<inter> set seen = {}"
proof (induction seen i vs rule: check_catalog_items.induct)
  case (1 seen i)
  then show ?case by simp
next
  case (2 seen i v vs)
  then obtain item where item: "check_catalog_item v i = Inr item" "keyOf item \<notin> set seen"
    and rest: "check_catalog_items (keyOf item # seen) (Suc i) vs = Inr u"
    by (auto simp: bindE_Inr split: if_splits)
  obtain items where "vs = map JObj items" "list_all item_fine items" "distinct (map keyOf items)"
    "set (map keyOf items) \<inter> set (keyOf item # seen) = {}"
    using "2.IH" [OF item(2) rest] by blast
  then show ?case
    using item(2) check_catalog_item_ok [OF item(1)] by (intro exI [of _ "item # items"]) auto
qed

lemma validateQuoteCatalog_ok:
  assumes "validateQuoteCatalog v = Inr catalog"
  obtains items where "v = JObj catalog" "fld catalog ''items'' = Some (JArr (map JObj items))"
    "list_all item_fine items" "distinct (map keyOf items)" "items \<noteq> []"
proof -
  obtain vs where v: "v = JObj catalog" "fld catalog ''items'' = Some (JArr vs)" "vs \<noteq> []"
    and c: "check_catalog_items [] 0 vs = Inr ()"
    using assms by (auto simp: validateQuoteCatalog_def throw_if_ok bindE_Inr simp del: throw_if.simps
        split: option.splits)
  from check_catalog_items_ok [OF c] v that show thesis by auto
qed

text \<open>A validated item is its own canonical identity.\<close>

lemma item_identity:
  assumes "item_fine item" "canonicalizeIdentity (JObj item) = Inr i"
  shows "fld item ''market'' = Some (JStr (id_market i))" "fld item ''exchange'' = Some (JStr (id_exchange i))"
    "fld item ''code'' = Some (JStr (id_code i))"
proof -
  obtain m e c where f: "fld item ''market'' = Some (JStr m)" "fld item ''exchange'' = Some (JStr e)"
      "fld item ''code'' = Some (JStr c)" "m \<in> {''CN'', ''HK''}" "e \<in> {''SZ'', ''SH'', ''HK''}"
      "list_all is_digit c"
    using assms(1) by (auto simp: item_fine_def check_catalog_item_def throw_if_ok bindE_Inr outside_def is_digits_def
        simp del: throw_if.simps split: option.splits)
  have t: "map upper_char (js_trim ''CN'') = ''CN''" "map upper_char (js_trim ''HK'') = ''HK''"
    "map upper_char (js_trim ''SH'') = ''SH''" "map upper_char (js_trim ''SZ'') = ''SZ''"
    by code_simp+
  have u: "map upper_char (js_trim m) = m" "map upper_char (js_trim e) = e" "js_trim c = c"
    using f(4-6) t by (auto simp: trim_digits)
  have d: "as_string (Some (JStr s)) = Some s" for s by simp
  have "i = \<lparr>id_market = m, id_exchange = e, id_code = c\<rparr>"
    using assms(2) unfolding canonicalizeIdentity_def as_record.simps option.case f(1-3) d Let_def
    by (auto simp: u bindE_Inr throw_if_ok simp del: throw_if.simps)
  then show "fld item ''market'' = Some (JStr (id_market i))" "fld item ''exchange'' = Some (JStr (id_exchange i))"
    "fld item ''code'' = Some (JStr (id_code i))"
    using f by simp_all
qed

text \<open>A snapshot that validates when written out is the one validation returns.\<close>

lemma mapE_same: "mapE validateStock (map JObj ss) = Inr ss' \<Longrightarrow> ss' = ss"
  "mapE validateUniverseItem (map JObj us) = Inr us' \<Longrightarrow> us' = us"
  by (rule nth_equalityI; force simp: mapE_from_Inr dest: validateStock_ok(1) validateUniverseItem_ok(1))+

lemma validated_same:
  assumes "validateSnapshot o' (JObj (snapshot_object p)) = Inr s"
    and "fst ` set (qs_fields p) \<inter> {''summary'', ''stocks'', ''portfolio_universe''} = {}"
  shows "s = p"
proof -
  note f = snapshot_object_fields [OF assms(2)]
  have "\<exists>stocks universe. mapE validateStock (map JObj (qs_stocks p)) = Inr stocks
     \<and> mapE validateUniverseItem (map JObj (qs_universe p)) = Inr universe
     \<and> s = \<lparr>qs_fields = qs_fields p, qs_summary = qs_summary p, qs_stocks = stocks, qs_universe = universe\<rparr>"
    using assms(1) unfolding validateSnapshot_def as_record.simps option.case f(1-3,5)
      Option.bind.bind_lunit as_array.simps Let_def bindE_Inr
    by blast
  then show ?thesis using mapE_same by fastforce
qed

lemma lift_error_Inr [simp]: "lift_error f r = Inr a \<longleftrightarrow> r = Inr a"
  by (simp add: lift_error_def split: sum.splits)

lemma map_filter_JObj: "List.map_filter as_record (map JObj items) = items"
  by (induction items) (simp_all add: map_filter_simps)

text \<open>The outcome of a fetch that returned.\<close>

lemma catalog_fetch_ok:
  assumes "fetchQuoteSnapshotFromCatalog lp v p now = Inr s"
  obtains catalog items b where "validateQuoteCatalog v = Inr catalog" "v = JObj catalog"
    "fld catalog ''items'' = Some (JArr (map JObj items))"
    "list_all item_fine items" "distinct (map keyOf items)" "items \<noteq> []"
    "fetchDynamicQuoteRows lp (map JObj items) (Some p) now = Inr b"
    "classify_rows items (db_rows b) = Inr (qs_stocks s)"
    "s = provisional_snapshot catalog now (qs_stocks s)"
proof -
  obtain catalog where v: "validateQuoteCatalog v = Inr catalog"
    using assms by (cases "validateQuoteCatalog v") (auto simp: fetchQuoteSnapshotFromCatalog_def bindE_Inr)
  obtain items where i: "v = JObj catalog" "fld catalog ''items'' = Some (JArr (map JObj items))"
    "list_all item_fine items" "distinct (map keyOf items)" "items \<noteq> []"
    using validateQuoteCatalog_ok [OF v] by blast
  note m = map_filter_JObj [of items]
  obtain b stocks where b: "fetchDynamicQuoteRows lp (map JObj items) (Some p) now = Inr b"
    "classify_rows items (db_rows b) = Inr stocks"
    "validateSnapshot no_options (JObj (snapshot_object (provisional_snapshot catalog now stocks))) = Inr s"
    using assms by (auto simp: fetchQuoteSnapshotFromCatalog_def v i(2) m bindE_Inr Let_def)
  have "fst ` set (qs_fields (provisional_snapshot catalog now stocks)) \<inter> {''summary'', ''stocks'', ''portfolio_universe''} = {}"
    by (simp add: provisional_snapshot_def)
  from validated_same [OF b(3) this] have s: "s = provisional_snapshot catalog now stocks" .
  then have st: "stocks = qs_stocks s" by (simp add: provisional_snapshot_def)
  show thesis
    by (rule that [OF v i b(1) b(2) [unfolded st] s [unfolded st]])
qed

text \<open>With a batch fetched for the items of a catalog, row \<open>k\<close> is the answer for item \<open>k\<close>.\<close>

lemma catalog_rows:
  assumes "list_all item_fine items" "distinct (map keyOf items)"
    and "fetchDynamicQuoteRows lp (map JObj items) (Some p) now = Inr b"
  shows "length (db_rows b) = length items" "k < length items \<Longrightarrow> instrumentKey (db_rows b ! k) = keyOf (items ! k)"
    "k < length items \<Longrightarrow> \<exists>i. identity_ok i \<and> shaped i (db_rows b ! k)
       \<and> fld (items ! k) ''market'' = Some (JStr (id_market i))
       \<and> fld (items ! k) ''exchange'' = Some (JStr (id_exchange i))
       \<and> fld (items ! k) ''code'' = Some (JStr (id_code i))"
    "classify_rows items (db_rows b) = Inr (map2 classifiedRow (db_rows b) items)"
proof -
  note f = assms(3) [unfolded fetch_Inr settled_row_Inr]
  have ids: "map canonicalizeIdentity (map JObj items) = map Inr (db_identities b)" using f by blast
  have l: "length (db_identities b) = length items" using arg_cong [OF ids, of length] by simp
  then show len: "length (db_rows b) = length items"
    using list_all2_lengthD [OF f [THEN conjunct2, THEN conjunct2, THEN conjunct2]] by simp
  show r: "\<exists>i. identity_ok i \<and> shaped i (db_rows b ! k)
       \<and> fld (items ! k) ''market'' = Some (JStr (id_market i))
       \<and> fld (items ! k) ''exchange'' = Some (JStr (id_exchange i))
       \<and> fld (items ! k) ''code'' = Some (JStr (id_code i))" if k: "k < length items" for k
  proof -
    have c: "canonicalizeIdentity (JObj (items ! k)) = Inr (db_identities b ! k)"
      using arg_cong [OF ids, of "\<lambda>xs. xs ! k"] k l by simp
    obtain v where n: "normalizeProviderQuote lp (db_identities b ! k) v now = Inr (db_rows b ! k)"
      using f [THEN conjunct2, THEN conjunct2, THEN conjunct2] k l by (auto dest: list_all2_nthD)
    have fine: "item_fine (items ! k)" using assms(1) k by (simp add: list_all_length)
    have ok: "identity_ok (db_identities b ! k)" by (rule canonicalizeIdentity_ok [OF c])
    show ?thesis
      by (rule exI [of _ "db_identities b ! k"])
        (simp add: ok normalize_shape [OF n ok] item_identity [OF fine c])
  qed
  show key: "instrumentKey (db_rows b ! k) = keyOf (items ! k)" if k: "k < length items" for k
  proof -
    obtain i where "shaped i (db_rows b ! k)" "fld (items ! k) ''market'' = Some (JStr (id_market i))"
      "fld (items ! k) ''code'' = Some (JStr (id_code i))" using r [OF k] by blast
    then show ?thesis
      by (auto simp: shaped_def instrumentKey_def keyOf_def dynamic_row_fields)
  qed
  let ?m = "map_of (rev (map (\<lambda>item. (keyOf item, item)) items))"
  have look: "?m (keyOf (items ! k)) = Some (items ! k)" if "k < length items" for k
    using that assms(2) by (intro map_of_is_SomeI) (auto simp: rev_map [symmetric] comp_def)
  show "classify_rows items (db_rows b) = Inr (map2 classifiedRow (db_rows b) items)"
    unfolding classify_rows_def mapE_from_Inr using len key look by (simp add: keyOf_instrumentKey)
qed

text \<open>A row that keeps the classification of a validated row but is no position is classified
  correctly.\<close>

lemma reclassified:
  assumes x: "validateClassification x c = Inr u"
    and f: "fld r ''market'' = fld x ''market''" "fld r ''exchange'' = fld x ''exchange''"
      "fld r ''group'' = fld x ''group''" "fld r ''portfolio_group'' = fld x ''portfolio_group''"
      "fld r ''portfolio_status'' = fld x ''portfolio_status''" "fld r ''mapping_only'' = fld x ''mapping_only''"
      "fld r ''mapped_to'' = fld x ''mapped_to''" "fld r ''mapping_to'' = fld x ''mapping_to''"
    and g: "fld r ''holding_status'' =
        Some (JStr (if is_str (fld x ''portfolio_group'') ''mapping'' then ''MAPPING_ONLY'' else ''WATCH''))"
      "fld r ''position_qty'' = Some (JInt 0)" "fld r ''is_position'' = Some (JBool False)"
  shows "validateClassification r c' = Inr ()"
proof -
  have h: "\<not> outside HOLDING_STATUSES (Some (JStr ''MAPPING_ONLY''))" "\<not> outside HOLDING_STATUSES (Some (JStr ''WATCH''))"
    "\<not> bad_quantity (Some (JInt 0))"
    by (simp_all add: outside_def HOLDING_STATUSES_def bad_quantity_def)
  show ?thesis
    using x h unfolding validateClassification_def Let_def throw_if_ok f g
    by (cases "is_str (fld x ''portfolio_group'') ''mapping''")
      (simp_all only: list.pred_inject fst_conv if_True if_False simp_thms, (elim conjE, simp)+)
qed

lemma row_valid_facts:
  assumes "row_valid x"
  shows "\<forall>f \<in> set REQUIRED_STOCK_FIELDS. has_key x f" "\<exists>c. validateClassification x c = Inr ()"
    "\<exists>n. fld x ''name'' = Some (JStr n) \<and> n \<noteq> ''''"
  using assms by (auto simp: row_valid_def validateStock_def Let_def bindE_Inr requireString_ok split: option.splits)

lemma shaped_fields:
  assumes "shaped i row"
  shows "\<forall>f \<in> set numericFields. as_finite (fld row f) \<noteq> None" "\<forall>f \<in> set REQUIRED_STOCK_FIELDS. has_key row f"
    "list_all (\<lambda>f. nonempty_text (fld row f)) [''market_status'', ''freshness_basis'', ''source_status'', ''quality'', ''fetch_time'']"
    "fld row ''market_status'' \<in> {Some (JStr ''OPEN''), Some (JStr ''CLOSED'')}"
    "list_all (\<lambda>f. \<not> not_string_or_null (fld row f))
       [''market_data_time'', ''quote_time'', ''source_update_time'', ''primary_source'', ''secondary_source'']"
proof -
  obtain q t status where r: "row = dynamic_row i q t status" "t ''fetch_time'' \<noteq> ''''"
    "status = JStr ''OPEN'' \<or> status = JStr ''CLOSED''"
    using assms by (auto simp: shaped_def)
  show "\<forall>f \<in> set numericFields. as_finite (fld row f) \<noteq> None"
    unfolding r(1) by (simp add: dynamic_row_fields numericFields_def)
  show "\<forall>f \<in> set REQUIRED_STOCK_FIELDS. has_key row f"
    unfolding r(1) by (simp add: dynamic_row_fields REQUIRED_STOCK_FIELDS_def has_key_def)
  show "fld row ''market_status'' \<in> {Some (JStr ''OPEN''), Some (JStr ''CLOSED'')}"
    unfolding r(1) using r(3) by (simp add: dynamic_row_fields)
  then have "nonempty_text (fld row ''market_status'')" by (auto simp: nonempty_text_def)
  then show "list_all (\<lambda>f. nonempty_text (fld row f)) [''market_status'', ''freshness_basis'', ''source_status'', ''quality'', ''fetch_time'']"
    unfolding r(1) using r(2) by (simp add: dynamic_row_fields nonempty_text_def)
  show "list_all (\<lambda>f. \<not> not_string_or_null (fld row f))
       [''market_data_time'', ''quote_time'', ''source_update_time'', ''primary_source'', ''secondary_source'']"
    unfolding r(1) by (simp add: dynamic_row_fields not_string_or_null_def)
qed

lemma requireString_text: "nonempty_text (fld ob f) \<Longrightarrow> \<exists>s. requireString ob f c = Inr s"
  by (auto simp: nonempty_text_def requireString_def split: option.splits)

lemma classified_row_valid:
  assumes s: "shaped i row" and x: "row_valid x"
    and k: "fld x ''market'' = Some (JStr (id_market i))" "fld x ''exchange'' = Some (JStr (id_exchange i))"
      "fld x ''code'' = Some (JStr (id_code i))" and c: "id_code i \<noteq> ''''"
  shows "row_valid (classifiedRow row (catalogItem x))"
    "item_valid (pick UNIVERSE_FIELDS (classifiedRow row (catalogItem x)))"
proof -
  let ?r = "classifiedRow row (catalogItem x)"
  let ?u = "pick UNIVERSE_FIELDS ?r"
  have ci: "fld (catalogItem x) f = fld x f" if "f \<in> set CATALOG_FIELDS" for f
    using that by (simp add: catalogItem_def fld_pick)
  note ci' = ci [of "''name''"] ci [of "''group''"] ci [of "''portfolio_group''"] ci [of "''portfolio_status''"]
    ci [of "''mapping_only''"] ci [of "''mapped_to''"] ci [of "''mapping_to''"]
  note cf = ci' [unfolded CATALOG_FIELDS_def, simplified, folded CATALOG_FIELDS_def]
  obtain cx where cx: "validateClassification x cx = Inr ()" using row_valid_facts(2) [OF x] by blast
  obtain n where n: "fld x ''name'' = Some (JStr n)" "n \<noteq> ''''" using row_valid_facts(3) [OF x] by blast
  have mo: "fld x ''mapping_only'' = Some (JBool (is_str (fld x ''portfolio_group'') ''mapping''))"
    using validateClassification_ok [OF cx] by (simp add: classified_def)
  have im: "is_mapping_item (catalogItem x) = is_str (fld x ''portfolio_group'') ''mapping''"
    by (auto simp: is_mapping_item_def cf mo)
  obtain q t status where r: "row = dynamic_row i q t status" using s by (auto simp: shaped_def)
  have rk: "fld row ''market'' = fld x ''market''" "fld row ''exchange'' = fld x ''exchange''"
    "fld row ''code'' = fld x ''code''"
    by (simp_all add: r dynamic_row_fields k)
  note rf = classified_fields [where row = row and item = "catalogItem x"]
  have uf: "fld ?u f = fld ?r f" if "f \<in> set UNIVERSE_FIELDS" for f
    using that by (simp add: fld_pick)
  have vc: "validateClassification ?r d = Inr ()" for d
    by (rule reclassified [OF cx]) (simp_all add: rf cf im mo rk)
  have vu: "validateClassification ?u d = Inr ()" for d
    by (rule reclassified [OF cx]) (simp_all add: fld_pick UNIVERSE_FIELDS_def rf cf im mo rk)
  have key: "\<forall>f \<in> set REQUIRED_STOCK_FIELDS. has_key ?r f"
  proof
    fix f assume f: "f \<in> set REQUIRED_STOCK_FIELDS"
    have "has_key row f" "has_key x f" using f shaped_fields(2) [OF s] row_valid_facts(1) [OF x] by blast+
    then show "has_key ?r f"
      by (cases "f \<in> {''name'', ''group'', ''portfolio_group'', ''portfolio_status'', ''holding_status'',
        ''mapping_only'', ''mapped_to'', ''mapping_to'', ''position_qty'', ''is_position''}")
        (auto simp: has_key_def rf cf n)
  qed
  have num: "\<forall>f \<in> set numericFields. as_finite (fld ?r f) \<noteq> None"
    using shaped_fields(1) [OF s] by (simp add: numericFields_def rf(7))
  have tx: "nonempty_text (fld ?r ''code'')" "nonempty_text (fld ?r ''name'')" "nonempty_text (fld ?r ''market_status'')"
    "nonempty_text (fld ?r ''freshness_basis'')" "nonempty_text (fld ?r ''source_status'')"
    "nonempty_text (fld ?r ''quality'')" "nonempty_text (fld ?r ''fetch_time'')"
    using shaped_fields(3) [OF s] c n by (simp_all add: rf cf rk k nonempty_text_def)
  have status: "fld ?r ''market_status'' \<in> {Some (JStr ''OPEN''), Some (JStr ''CLOSED'')}"
    and opt: "list_all (\<lambda>f. \<not> not_string_or_null (fld ?r f))
       [''market_data_time'', ''quote_time'', ''source_update_time'', ''primary_source'', ''secondary_source'']"
    using shaped_fields(4,5) [OF s] by (simp_all add: rf(7))
  have req: "\<exists>y. requireString ?r f d = Inr y" if "nonempty_text (fld ?r f)" for f d
    by (rule requireString_text [OF that])
  have "validateStock (JObj ?r) 0 = Inr ?r"
    unfolding validateStock_def as_record.simps option.case Let_def bindE_Inr
    using key num tx [THEN req] status opt vc by (simp add: throw_if_ok del: throw_if.simps)
  then show "row_valid ?r" unfolding row_valid_def by blast
  have "\<forall>f \<in> set UNIVERSE_FIELDS. has_key ?u f"
    using key by (simp add: has_key_def uf) (simp add: UNIVERSE_FIELDS_def REQUIRED_STOCK_FIELDS_def)
  moreover have "\<exists>y. requireString ?u ''code'' d = Inr y" "\<exists>y. requireString ?u ''name'' d = Inr y" for d
    using tx(1,2) by (auto intro!: requireString_text simp: fld_pick UNIVERSE_FIELDS_def)
  ultimately have "validateUniverseItem (JObj ?u) 0 = Inr ?u"
    unfolding validateUniverseItem_def as_record.simps option.case Let_def bindE_Inr
    using vu by simp
  then show "item_valid ?u" unfolding item_valid_def by blast
qed

text \<open>Every universe field of a validated row is equal to itself under \<open>===\<close>.\<close>

lemma row_valid_self_equal:
  assumes "row_valid r"
  shows "\<forall>f \<in> set UNIVERSE_FIELDS. strict_eq (fld r f) (fld r f)"
proof -
  obtain c where c: "validateClassification r c = Inr ()" using row_valid_facts(2) [OF assms] by blast
  obtain i where i: "validateStock (JObj r) i = Inr r" using assms by (auto simp: row_valid_def)
  have s: "strict_eq v v" if "\<not> outside allowed v" for allowed v
    using that by (auto simp: outside_iff)
  have n: "strict_eq v v" if "\<not> not_string_or_null v" for v
    using that by (cases v rule: as_string.cases) (auto simp: not_string_or_null_def)
  have q: "strict_eq v v" if "\<not> bad_quantity v" for v
    using that by (cases v rule: as_finite.cases) (auto simp: bad_quantity_def)
  have p: "strict_eq v v" if "v = Some JNull \<or> \<not> outside allowed v" for allowed v
    using that s by auto
  have "strict_eq (fld r ''code'') (fld r ''code'')" "strict_eq (fld r ''name'') (fld r ''name'')"
    using validateStock_ok(4) [OF i] row_valid_facts(3) [OF assms] by auto
  moreover have "\<not> outside MARKETS (fld r ''market'')" "\<not> outside EXCHANGES (fld r ''exchange'')"
    "\<not> outside GROUPS (fld r ''group'')" "\<not> outside PORTFOLIO_GROUPS (fld r ''portfolio_group'')"
    "\<not> outside HOLDING_STATUSES (fld r ''holding_status'')"
    "\<not> not_string_or_null (fld r ''mapping_to'')" "\<not> not_string_or_null (fld r ''mapped_to'')"
    "\<not> bad_quantity (fld r ''position_qty'')"
    "fld r ''portfolio_status'' = Some JNull \<or> \<not> outside PORTFOLIO_STATUSES (fld r ''portfolio_status'')"
    using c unfolding validateClassification_def Let_def throw_if_ok
    by (simp_all only: list.pred_inject fst_conv) blast+
  note eq = this(1-5) [THEN s] this(6,7) [THEN n] this(8) [THEN q] this(9) [THEN p]
  moreover have "fld r ''mapping_only'' = Some (JBool (is_str (fld r ''portfolio_group'') ''mapping''))"
    "fld r ''is_position'' = Some (JBool (is_str (fld r ''holding_status'') ''ACTIVE''))"
    using validateClassification_ok [OF c] by (simp_all add: classified_def)
  ultimately show ?thesis by (simp add: UNIVERSE_FIELDS_def)
qed

text \<open>The snapshot built from valid rows with distinct keys is valid.\<close>

lemma provisional_valid:
  assumes v: "list_all row_valid stocks" "list_all (\<lambda>r. item_valid (pick UNIVERSE_FIELDS r)) stocks"
    and d: "distinct (map instrumentKey stocks)"
  shows "snapshot_valid (provisional_snapshot catalog now stocks)"
proof -
  let ?u = "map (pick UNIVERSE_FIELDS) stocks"
  have row: "classified r" "\<forall>f \<in> set REQUIRED_STOCK_FIELDS. has_key r f" "classified (pick UNIVERSE_FIELDS r)"
    "\<forall>f \<in> set UNIVERSE_FIELDS. strict_eq (fld r f) (fld r f)"
    if "r \<in> set stocks" for r
  proof -
    have "row_valid r" "item_valid (pick UNIVERSE_FIELDS r)" using v that by (auto simp: list_all_iff)
    then show "classified r" "\<forall>f \<in> set REQUIRED_STOCK_FIELDS. has_key r f" "classified (pick UNIVERSE_FIELDS r)"
      "\<forall>f \<in> set UNIVERSE_FIELDS. strict_eq (fld r f) (fld r f)"
      using row_valid_self_equal [of r] by (auto simp: row_valid_def item_valid_def
          dest: validateStock_ok(2,3) validateUniverseItem_ok(2) simp del: set_simps)
  qed
  have uf: "fld (pick UNIVERSE_FIELDS r) f = fld r f" if "f \<in> set UNIVERSE_FIELDS" for r f
    using that by (simp add: fld_pick)
  have uk: "instrumentKey (pick UNIVERSE_FIELDS r) = instrumentKey r" for r
    by (simp add: instrumentKey_def fld_pick UNIVERSE_FIELDS_def)
  have ku: "map instrumentKey ?u = map instrumentKey stocks" by (simp add: uk)
  have cl: "list_all classified stocks" "list_all classified ?u"
    using row(1,3) by (auto simp: list_all_iff)
  have match: "\<forall>u \<in> set ?u. \<exists>x \<in> set stocks. instrumentKey x = instrumentKey u
      \<and> (\<forall>f \<in> set UNIVERSE_FIELDS. strict_eq (fld u f) (fld x f))"
    using row(4) uk uf by auto
  have total: "fld (catalog_summary stocks) ''total'' = Some (JInt (int (length stocks)))"
    by (simp add: catalog_summary_def Let_def getSnapshotCounts_eq)
  have der: "\<forall>f \<in> set DERIVED_SUMMARY_FIELDS. has_key (catalog_summary stocks) f \<longrightarrow>
      fld (catalog_summary stocks) f = Some (JInt (int (derived (getSnapshotCounts stocks) f)))"
    by (simp add: DERIVED_SUMMARY_FIELDS_def catalog_summary_def Let_def derived_def getSnapshotCounts_eq)
  have sel: "qs_stocks (provisional_snapshot catalog now stocks) = stocks"
    "qs_universe (provisional_snapshot catalog now stocks) = ?u"
    "qs_summary (provisional_snapshot catalog now stocks) = catalog_summary stocks"
    by (simp_all add: provisional_snapshot_def)
  have keyed: "\<forall>x \<in> set stocks. \<forall>f \<in> set REQUIRED_STOCK_FIELDS. has_key x f" using row(2) by blast
  have "snapshot_ok (provisional_snapshot catalog now stocks)"
    unfolding snapshot_ok_def sel ku length_map
    by (intro conjI cl d total der match keyed refl)
  moreover have "list_all (\<lambda>k. nonempty_text (fld (qs_fields (provisional_snapshot catalog now stocks)) k))
      [''portfolio_version'', ''snapshot_time'', ''system_quality'']"
    by (simp add: provisional_snapshot_def nonempty_text_def to_iso_nonempty)
  moreover have "fst ` set (qs_fields (provisional_snapshot catalog now stocks))
      \<inter> {''summary'', ''stocks'', ''portfolio_universe''} = {}"
    by (simp add: provisional_snapshot_def)
  ultimately show ?thesis
    unfolding snapshot_valid_def sel using v by (simp add: list_all_iff)
qed

section \<open>Properties\<close>

text \<open>A catalog snapshot tells nothing about holdings: no row is a position, every quantity is
  zero, the holding total is zero, the rows are exactly the catalog's instruments in its order, and
  their classification is the catalog's and not the provider's.\<close>

theorem catalog_snapshot_positionless:
  assumes "fetchQuoteSnapshotFromCatalog lp (JObj catalog) p now = Inr s"
  shows "\<exists>items. fld catalog ''items'' = Some (JArr (map JObj items))
    \<and> map instrumentKey (qs_stocks s) = map keyOf items
    \<and> list_all2 (\<lambda>item row. \<forall>f \<in> {''group'', ''portfolio_group'', ''portfolio_status'', ''mapped_to'', ''mapping_to''}.
        fld row f = fld item f) items (qs_stocks s)
    \<and> list_all (\<lambda>row. \<not> is_position row \<and> fld row ''position_qty'' = Some (JInt 0)) (qs_stocks s)
    \<and> fld (qs_summary s) ''active_holding_total'' = Some (JInt 0)"
proof -
  obtain items b where i: "fld catalog ''items'' = Some (JArr (map JObj items))"
    "list_all item_fine items" "distinct (map keyOf items)"
    and b: "fetchDynamicQuoteRows lp (map JObj items) (Some p) now = Inr b"
      "classify_rows items (db_rows b) = Inr (qs_stocks s)"
    and s: "s = provisional_snapshot catalog now (qs_stocks s)"
    by (rule catalog_fetch_ok [OF assms]) (metis jsval.inject(5))
  note r = catalog_rows [OF i(2,3) b(1)]
  have st: "qs_stocks s = map2 classifiedRow (db_rows b) items" using b(2) r(4) by simp
  have key: "map instrumentKey (qs_stocks s) = map keyOf items"
    using r(1,2) by (auto simp: st keyOf_classified intro!: nth_equalityI)
  have cls: "list_all2 (\<lambda>item row. \<forall>f \<in> {''group'', ''portfolio_group'', ''portfolio_status'', ''mapped_to'', ''mapping_to''}.
        fld row f = fld item f) items (qs_stocks s)"
    using r(1) by (auto simp: st list_all2_conv_all_nth classified_fields)
  have pos: "list_all (\<lambda>row. \<not> is_position row \<and> fld row ''position_qty'' = Some (JInt 0)) (qs_stocks s)"
    by (auto simp: st list_all_iff is_position_def classified_fields)
  then have "filter is_position (qs_stocks s) = []"
    by (auto simp: list_all_iff filter_empty_conv)
  then have "fld (qs_summary s) ''active_holding_total'' = Some (JInt 0)"
    by (subst s) (simp add: provisional_snapshot_def catalog_summary_def Let_def getSnapshotCounts_eq)
  then show ?thesis using i(1) key cls pos by blast
qed

text \<open>A catalog taken from a validated snapshot can always be served: whenever it is a valid
  catalog and the provider answers for all its instruments, the snapshot built from the answers
  passes validation, and it lists the instruments of the original snapshot in their order.\<close>

theorem catalog_fetch_total:
  assumes "validateSnapshot no_options v = Inr s0" "quoteCatalogFromSnapshot v now0 = Inr catalog"
    and "validateQuoteCatalog (JObj catalog) = Inr catalog" "fld catalog ''items'' = Some (JArr inputs)"
    and "fetchDynamicQuoteRows lp inputs (Some p) now = Inr b"
  shows "\<exists>s. fetchQuoteSnapshotFromCatalog lp (JObj catalog) p now = Inr s
    \<and> map instrumentKey (qs_stocks s) = map instrumentKey (qs_stocks s0)"
proof -
  let ?items = "map catalogItem (qs_stocks s0)"
  have it: "fld catalog ''items'' = Some (JArr (map JObj ?items))"
    using assms(1,2) by (auto simp: quoteCatalogFromSnapshot_def Let_def map_add_def split: option.splits)
  then have inp: "inputs = map JObj ?items" using assms(4) by simp
  obtain items where "fld catalog ''items'' = Some (JArr (map JObj items))" "list_all item_fine items"
    "distinct (map keyOf items)" "items \<noteq> []"
    using validateQuoteCatalog_ok [OF assms(3)] by blast
  moreover then have "map JObj items = map JObj ?items" using it by simp
  then have "items = ?items" using inj_map_eq_map [of JObj items ?items] by (simp only: inj_def jsval.inject simp_thms)
  ultimately have fine: "list_all item_fine ?items" "distinct (map keyOf ?items)" by simp_all
  note r = catalog_rows [OF fine assms(5) [unfolded inp]]
  let ?st = "map2 classifiedRow (db_rows b) ?items"
  let ?p = "provisional_snapshot catalog now ?st"
  have len: "length ?st = length (qs_stocks s0)" using r(1) by simp
  have valid: "list_all row_valid (qs_stocks s0)"
    using validateSnapshot_valid [OF assms(1)] by (simp add: snapshot_valid_def)
  have el: "row_valid (?st ! k) \<and> item_valid (pick UNIVERSE_FIELDS (?st ! k))
      \<and> instrumentKey (?st ! k) = instrumentKey (qs_stocks s0 ! k)"
    if k: "k < length (qs_stocks s0)" for k
  proof -
    let ?x = "qs_stocks s0 ! k"
    have ci: "fld (catalogItem ?x) ''market'' = fld ?x ''market''" "fld (catalogItem ?x) ''exchange'' = fld ?x ''exchange''"
      "fld (catalogItem ?x) ''code'' = fld ?x ''code''"
      by (simp_all add: catalogItem_def fld_pick CATALOG_FIELDS_def)
    have st: "?st ! k = classifiedRow (db_rows b ! k) (catalogItem ?x)" using k r(1) by simp
    obtain i where i: "identity_ok i" "shaped i (db_rows b ! k)" "fld ?x ''market'' = Some (JStr (id_market i))"
      "fld ?x ''exchange'' = Some (JStr (id_exchange i))" "fld ?x ''code'' = Some (JStr (id_code i))"
      using r(3) [of k] k ci by auto
    have "id_code i \<noteq> ''''" using i(1) by (auto simp: identity_ok_def is_digits_def)
    moreover have "row_valid ?x" using valid k by (simp add: list_all_length)
    moreover have "instrumentKey (?st ! k) = instrumentKey ?x"
      unfolding st keyOf_classified using r(2) [of k] k by (simp add: keyOf_def instrumentKey_def ci)
    ultimately show ?thesis
      using classified_row_valid [OF i(2) _ i(3-5)] st by metis
  qed
  have keys: "map instrumentKey ?st = map instrumentKey (qs_stocks s0)"
    using len el by (intro nth_equalityI) simp_all
  have "snapshot_valid ?p"
    by (rule provisional_valid)
      (use el len keys validateSnapshot_valid [OF assms(1)] in
        \<open>auto simp: list_all_length snapshot_valid_def snapshot_ok_def simp del: length_zip\<close>)
  from snapshot_valid_validates [OF this]
  have "fetchQuoteSnapshotFromCatalog lp (JObj catalog) p now = Inr ?p"
    unfolding fetchQuoteSnapshotFromCatalog_def assms(3) lift_error_def sum.case bindE.simps Let_def it
      as_array.simps option.case assms(5) [unfolded inp] map_filter_JObj r(4)
    by simp
  moreover have "qs_stocks ?p = ?st" by (simp add: provisional_snapshot_def)
  ultimately show ?thesis using keys by metis
qed

text \<open>The catalog of the sample snapshot would hold a mapping row of an unquoted market; this one
  holds one instrument, served by the sample quote.\<close>

definition sample_watch :: jsobj where
  "sample_watch = spread (hd (db_rows sample_batch)) [(''position_qty'', JInt 0), (''is_position'', JBool False),
     (''holding_status'', JStr ''WATCH'')]"

definition sample_watch_snapshot :: quote_snapshot where
  "sample_watch_snapshot = \<lparr>qs_fields = sample_fields, qs_summary = [(''total'', JInt 1)],
     qs_stocks = [sample_watch], qs_universe = [pick UNIVERSE_FIELDS sample_watch]\<rparr>"

definition sample_catalog :: jsobj where
  "sample_catalog = (case quoteCatalogFromSnapshot (JObj (snapshot_object sample_watch_snapshot)) 0 of
     Inr c \<Rightarrow> c | Inl _ \<Rightarrow> [])"

abbreviation sample_provider :: provider where
  "sample_provider \<equiv> (\<lambda>_ _. Inr (Some (JObj sample_quote)))"

definition sample_watch_row :: jsobj where
  "sample_watch_row = [(''code'', JStr ''600519''), (''market'', JStr ''CN''), (''exchange'', JStr ''SH''), (''name'', JStr ''SH600519''),
     (''group'', JStr ''Watch''), (''portfolio_group'', JStr ''watch''), (''portfolio_status'', JStr ''WATCH''),
     (''holding_status'', JStr ''WATCH''), (''mapping_only'', JBool False), (''mapped_to'', JNull),
     (''mapping_to'', JNull), (''position_qty'', JInt 0), (''is_position'', JBool False), (''price'', JInt 10),
     (''change'', JInt 2), (''change_pct'', JInt 25), (''pre_close'', JInt 8), (''prev_close'', JInt 8),
     (''open'', JInt 9), (''high'', JInt 11), (''low'', JInt 7), (''pct_change'', JInt 25), (''volume'', JInt 100),
     (''amount'', JInt 1000), (''market_status'', JStr ''CLOSED''),
     (''market_data_time'', JStr ''2026-01-05T10:00:00+08:00''),
     (''source_update_time'', JStr ''2026-01-05T10:00:00+08:00''), (''freshness_basis'', JStr ''MARKET_DATA''),
     (''quote_time'', JStr ''2026-01-05T10:00:00+08:00''), (''fetch_time'', JStr ''2026-01-05T02:00:05.000Z''),
     (''age_seconds'', JInt 5), (''primary_source'', JStr ''tencent''), (''secondary_source'', JNull),
     (''source_status'', JStr ''OK''), (''quality'', JStr ''LIVE_QUOTE'')]"

lemma sample_catalog_facts:
  "validateSnapshot no_options (JObj (snapshot_object sample_watch_snapshot)) = Inr sample_watch_snapshot"
  "quoteCatalogFromSnapshot (JObj (snapshot_object sample_watch_snapshot)) 0 = Inr sample_catalog"
  "validateQuoteCatalog (JObj sample_catalog) = Inr sample_catalog"
  "fld sample_catalog ''items'' = Some (JArr [JObj (catalogItem sample_watch)])"
  "fetchDynamicQuoteRows (\<lambda>_. None) [JObj (catalogItem sample_watch)] (Some sample_provider) 0 = Inr sample_batch"
proof -
  have m: "sample_watch = sample_watch_row" by code_simp
  show v: "validateSnapshot no_options (JObj (snapshot_object sample_watch_snapshot)) = Inr sample_watch_snapshot"
    unfolding sample_watch_snapshot_def m by code_simp
  have q: "quoteCatalogFromSnapshot (JObj (snapshot_object sample_watch_snapshot)) 0 =
      Inr [(''schema_version'', JStr QUOTE_CATALOG_SCHEMA), (''generated_at'', JStr (to_iso 0)),
         (''source_catalog_version'', JStr ''v''), (''items'', JArr [JObj (catalogItem sample_watch)])]"
    unfolding quoteCatalogFromSnapshot_def v bindE.simps Let_def by (simp add: sample_watch_snapshot_def sample_fields_def)
  then have c: "sample_catalog = [(''schema_version'', JStr QUOTE_CATALOG_SCHEMA), (''generated_at'', JStr (to_iso 0)),
         (''source_catalog_version'', JStr ''v''), (''items'', JArr [JObj (catalogItem sample_watch)])]"
    by (simp add: sample_catalog_def)
  show "quoteCatalogFromSnapshot (JObj (snapshot_object sample_watch_snapshot)) 0 = Inr sample_catalog"
    using q c by simp
  show "fld sample_catalog ''items'' = Some (JArr [JObj (catalogItem sample_watch)])" unfolding c by simp
  show "validateQuoteCatalog (JObj sample_catalog) = Inr sample_catalog" unfolding c m by code_simp
  show "fetchDynamicQuoteRows (\<lambda>_. None) [JObj (catalogItem sample_watch)] (Some sample_provider) 0 = Inr sample_batch"
    unfolding m by code_simp
qed

theorem catalog_fetch_total_witness:
  "\<exists>s. fetchQuoteSnapshotFromCatalog (\<lambda>_. None) (JObj sample_catalog) sample_provider 0 = Inr s
    \<and> map instrumentKey (qs_stocks s) = map instrumentKey (qs_stocks sample_watch_snapshot)"
  by (rule catalog_fetch_total [OF sample_catalog_facts])

theorem catalog_snapshot_positionless_witness:
  "\<exists>s. fetchQuoteSnapshotFromCatalog (\<lambda>_. None) (JObj sample_catalog) sample_provider 0 = Inr s
    \<and> fld (qs_summary s) ''active_holding_total'' = Some (JInt 0)"
proof -
  obtain s where s: "fetchQuoteSnapshotFromCatalog (\<lambda>_. None) (JObj sample_catalog) sample_provider 0 = Inr s"
    using catalog_fetch_total [OF sample_catalog_facts] by blast
  with catalog_snapshot_positionless [OF s] show ?thesis by blast
qed

text \<open>The catalog is a document of the KV store.\<close>

interpretation catalog_doc: kv_document "\<lambda>kv v (_ :: unit). writeQuoteCatalog kv v" readQuoteCatalog QUOTE_CATALOG_KV_KEY
proof
  show "readQuoteCatalog kv' = Inr (Some a)" if "writeQuoteCatalog kv v = Inr (kv', a)" for kv v kv' a
    using that by (auto simp: writeQuoteCatalog_def readQuoteCatalog_def bindE_Inr)
  show "kv' k = kv k" if "writeQuoteCatalog kv v = Inr (kv', a)" "k \<noteq> QUOTE_CATALOG_KV_KEY" for kv v kv' a k
    using that by (auto simp: writeQuoteCatalog_def bindE_Inr)
  show "readQuoteCatalog kv = readQuoteCatalog kv'" if "kv QUOTE_CATALOG_KV_KEY = kv' QUOTE_CATALOG_KV_KEY" for kv kv'
    using that by (simp add: readQuoteCatalog_def)
qed

end
