(* ===== verification/State_Receipts.thy ===== *)
theory State_Receipts
  imports Js_Date
begin

text \<open>
  \<open>src/src/state-receipts.ts\<close>: the receipts of the state writes in D1. A table is the list of its
  rows; the database holds the table once it has been created. Each SQL statement is one atomic
  function on the table, as D1 executes it, and the exported operations compose them; several
  workers interleave at the statements, which the step relation of the last part describes.
  Columns are typed as the code writes them, so \<open>normalizeReceipt\<close> is the identity on a row.
  Text columns are compared by code units (SQLite's BINARY collation).
\<close>

section \<open>Data\<close>

datatype write_channel = MARKET | INDUSTRY | COMPANY | CLOSE

datatype receipt_status = PENDING | PERSISTED | IDEMPOTENT_REPLAY | OUTCOME_UNKNOWN | CONFLICT | FAILED

record write_receipt =
  wr_write_key :: string
  wr_channel :: write_channel
  wr_payload_sha256 :: string
  wr_status :: receipt_status
  wr_comment_id :: "string option"
  wr_comment_url :: "string option"
  wr_attempt_count :: nat
  wr_lease_owner :: "string option"
  wr_lease_until :: "string option"
  wr_created_at :: string
  wr_updated_at :: string
  wr_last_error_code :: "string option"
  wr_last_error_phase :: "string option"
  wr_last_http_status :: "int option"
  wr_envelope_key :: "string option"
  wr_event_count :: "int option"

type_synonym receipts = "write_receipt list"

section \<open>Statements\<close>

definition row_of :: "receipts \<Rightarrow> string \<Rightarrow> write_receipt option" where
  "row_of t k = find (\<lambda>r. wr_write_key r = k) t"

definition new_receipt :: "string \<Rightarrow> write_channel \<Rightarrow> string \<Rightarrow> string \<Rightarrow> write_receipt" where
  "new_receipt k channel sha now =
     \<lparr>wr_write_key = k, wr_channel = channel, wr_payload_sha256 = sha, wr_status = PENDING,
      wr_comment_id = None, wr_comment_url = None, wr_attempt_count = 0, wr_lease_owner = None,
      wr_lease_until = None, wr_created_at = now, wr_updated_at = now, wr_last_error_code = None,
      wr_last_error_phase = None, wr_last_http_status = None, wr_envelope_key = None, wr_event_count = None\<rparr>"

text \<open>\<open>INSERT OR IGNORE\<close>\<close>

definition insert_receipt :: "string \<Rightarrow> write_channel \<Rightarrow> string \<Rightarrow> string \<Rightarrow> receipts \<Rightarrow> receipts" where
  "insert_receipt k channel sha now t =
     (if row_of t k = None then t @ [new_receipt k channel sha now] else t)"

text \<open>A comparison with NULL is not true.\<close>

definition sql_less :: "string option \<Rightarrow> string \<Rightarrow> bool" where
  "sql_less a b = (case a of None \<Rightarrow> False | Some x \<Rightarrow> x < b)"

definition lease_free :: "string \<Rightarrow> string \<Rightarrow> write_receipt \<Rightarrow> bool" where
  "lease_free requestId now r \<longleftrightarrow>
     wr_lease_owner r = None \<or> wr_lease_until r = None \<or> sql_less (wr_lease_until r) now
     \<or> wr_lease_owner r = Some requestId"

text \<open>\<open>UPDATE ... SET status='PENDING', ... WHERE ...\<close> of the reservation.\<close>

definition acquire_receipt ::
  "string \<Rightarrow> string \<Rightarrow> string \<Rightarrow> string \<Rightarrow> string \<Rightarrow> write_channel \<Rightarrow> receipts \<Rightarrow> receipts" where
  "acquire_receipt k requestId leaseUntil now sha channel t =
     map (\<lambda>r. if wr_write_key r = k \<and> wr_payload_sha256 r = sha \<and> wr_channel r = channel
                 \<and> wr_status r \<notin> {PERSISTED, IDEMPOTENT_REPLAY, CONFLICT} \<and> lease_free requestId now r
              then r\<lparr>wr_status := PENDING, wr_attempt_count := wr_attempt_count r + 1,
                     wr_lease_owner := Some requestId, wr_lease_until := Some leaseUntil,
                     wr_updated_at := now\<rparr>
              else r) t"

record finalization =
  fz_status :: receipt_status
  fz_updated_at :: string
  fz_comment_id :: "string option"
  fz_comment_url :: "string option"
  fz_last_error_code :: "string option"
  fz_last_error_phase :: "string option"
  fz_last_http_status :: "int option"
  fz_envelope_key :: "string option"
  fz_event_count :: "int option"

definition settle_receipt :: "string \<Rightarrow> string \<Rightarrow> finalization \<Rightarrow> receipts \<Rightarrow> receipts" where
  "settle_receipt k requestId f t =
     map (\<lambda>r. if wr_write_key r = k \<and> wr_lease_owner r = Some requestId
              then r\<lparr>wr_status := fz_status f, wr_comment_id := fz_comment_id f,
                     wr_comment_url := fz_comment_url f, wr_lease_owner := None, wr_lease_until := None,
                     wr_updated_at := fz_updated_at f, wr_last_error_code := fz_last_error_code f,
                     wr_last_error_phase := fz_last_error_phase f,
                     wr_last_http_status := fz_last_http_status f,
                     wr_envelope_key := fz_envelope_key f, wr_event_count := fz_event_count f\<rparr>
              else r) t"

section \<open>Operations\<close>

type_synonym receipt_db = "receipts option"

definition ensureReceiptTable :: "receipt_db \<Rightarrow> receipts" where
  "ensureReceiptTable db = (case db of None \<Rightarrow> [] | Some t \<Rightarrow> t)"

definition getStateWriteReceipt :: "receipt_db \<Rightarrow> string \<Rightarrow> write_receipt option" where
  "getStateWriteReceipt db k = (case db of None \<Rightarrow> None | Some t \<Rightarrow> row_of t k)"

fun sql_max :: "string list \<Rightarrow> string option" where
  "sql_max [] = None"
| "sql_max (x # xs) = Some (case sql_max xs of None \<Rightarrow> x | Some m \<Rightarrow> max x m)"

definition getStateWriteReceiptSummary :: "receipt_db \<Rightarrow> string option \<times> string option" where
  "getStateWriteReceiptSummary db =
     (let t = (case db of None \<Rightarrow> [] | Some t \<Rightarrow> t);
          latest = (\<lambda>ss. sql_max (map wr_updated_at (filter (\<lambda>r. wr_status r \<in> ss) t)))
      in (latest {PERSISTED, IDEMPOTENT_REPLAY}, latest {OUTCOME_UNKNOWN, CONFLICT, FAILED}))"

record reservation =
  rv_write_key :: string
  rv_channel :: write_channel
  rv_payload_sha256 :: string
  rv_request_id :: string
  rv_now :: string
  rv_lease_seconds :: "int option"

definition lease_seconds :: "reservation \<Rightarrow> int" where
  "lease_seconds inp = max 30 (min 600 (case rv_lease_seconds inp of None \<Rightarrow> 120 | Some s \<Rightarrow> s))"

text \<open>A \<open>now\<close> that is no date makes \<open>toISOString\<close> throw, after the row has been inserted.\<close>

definition reserveStateWrite ::
  "(string \<Rightarrow> int option) \<Rightarrow> receipt_db \<Rightarrow> reservation \<Rightarrow> receipt_db \<times> (bool \<times> write_receipt) result" where
  "reserveStateWrite lp db inp =
     (let k = rv_write_key inp;
          t1 = insert_receipt k (rv_channel inp) (rv_payload_sha256 inp) (rv_now inp) (ensureReceiptTable db) in
      case getStateWriteReceipt (Some t1) k of
        None \<Rightarrow> (Some t1, Inl ''state receipt insert/read failed'')
      | Some r \<Rightarrow>
      if wr_payload_sha256 r \<noteq> rv_payload_sha256 inp \<or> wr_channel r \<noteq> rv_channel inp
      then (Some t1, Inr (False, r\<lparr>wr_status := CONFLICT\<rparr>))
      else if wr_status r = PERSISTED \<or> wr_status r = IDEMPOTENT_REPLAY then (Some t1, Inr (False, r))
      else (case date_parse lp (rv_now inp) of
        None \<Rightarrow> (Some t1, Inl ''Invalid time value'')
      | Some nowMs \<Rightarrow>
      (let t2 = acquire_receipt k (rv_request_id inp) (to_iso (nowMs + lease_seconds inp * 1000))
                  (rv_now inp) (rv_payload_sha256 inp) (rv_channel inp) t1 in
       case getStateWriteReceipt (Some t2) k of
         None \<Rightarrow> (Some t2, Inl ''state receipt reservation read failed'')
       | Some r' \<Rightarrow> (Some t2, Inr (wr_lease_owner r' = Some (rv_request_id inp), r')))))"

definition finalizeStateWriteReceipt ::
  "receipt_db \<Rightarrow> string \<Rightarrow> string \<Rightarrow> finalization \<Rightarrow> receipt_db \<times> write_receipt result" where
  "finalizeStateWriteReceipt db k requestId f =
     (let t = settle_receipt k requestId f (ensureReceiptTable db) in
      (Some t, case getStateWriteReceipt (Some t) k of
         None \<Rightarrow> Inl ''state receipt finalize read failed'' | Some r \<Rightarrow> Inr r))"

section \<open>Interleaved statements\<close>

datatype statement =
    Insert string write_channel string string
  | Acquire string string string string string write_channel
  | Settle string string finalization

inductive receipt_step :: "receipts \<Rightarrow> statement \<Rightarrow> receipts \<Rightarrow> bool" where
  insert_step: "receipt_step t (Insert k ch sha now) (insert_receipt k ch sha now t)"
| acquire_step: "receipt_step t (Acquire k who till now sha ch) (acquire_receipt k who till now sha ch t)"
| settle_step: "receipt_step t (Settle k who f) (settle_receipt k who f t)"

inductive receipt_run :: "receipts \<Rightarrow> statement list \<Rightarrow> receipts \<Rightarrow> bool" where
  run_nil: "receipt_run t [] t"
| run_cons: "receipt_step t s u \<Longrightarrow> receipt_run u ss v \<Longrightarrow> receipt_run t (s # ss) v"

inductive_cases insert_stepE: "receipt_step t (Insert k ch sha now) u"
inductive_cases acquire_stepE: "receipt_step t (Acquire k who till now sha ch) u"
inductive_cases settle_stepE: "receipt_step t (Settle k who f) u"

section \<open>Facts\<close>

text \<open>The invariant of the table: one row per key, and a leased row is pending.\<close>

definition receipts_ok :: "receipts \<Rightarrow> bool" where
  "receipts_ok t \<longleftrightarrow> distinct (map wr_write_key t)
     \<and> list_all (\<lambda>r. wr_lease_owner r \<noteq> None \<longrightarrow> wr_status r = PENDING) t"

lemma acquire_key: "map wr_write_key (acquire_receipt k who till now sha ch t) = map wr_write_key t"
  by (simp add: acquire_receipt_def)

lemma settle_key: "map wr_write_key (settle_receipt k who f t) = map wr_write_key t"
  by (simp add: settle_receipt_def)

lemma row_of_None: "row_of t k = None \<longleftrightarrow> k \<notin> set (map wr_write_key t)"
  by (auto simp: row_of_def find_None_iff)

lemma row_of_Some: "row_of t k = Some r \<Longrightarrow> r \<in> set t \<and> wr_write_key r = k"
  by (auto simp: row_of_def find_Some_iff)

lemma row_of_in: "receipts_ok t \<Longrightarrow> r \<in> set t \<Longrightarrow> row_of t (wr_write_key r) = Some r"
  by (induction t) (auto simp: row_of_def receipts_ok_def rev_image_eqI)

lemma receipt_step_ok: "receipt_step t s u \<Longrightarrow> receipts_ok t \<Longrightarrow> receipts_ok u"
proof (induction rule: receipt_step.induct)
  case (insert_step t k ch sha now)
  then show ?case
    by (auto simp: receipts_ok_def insert_receipt_def new_receipt_def row_of_None)
next
  case (acquire_step t k who till now sha ch)
  then show ?case
    unfolding receipts_ok_def acquire_key by (auto simp: acquire_receipt_def list_all_iff)
next
  case (settle_step t k who f)
  then show ?case
    unfolding receipts_ok_def settle_key by (auto simp: settle_receipt_def list_all_iff)
qed

lemma receipt_run_ok: "receipt_run t ss u \<Longrightarrow> receipts_ok t \<Longrightarrow> receipts_ok u"
  by (induction rule: receipt_run.induct) (auto dest: receipt_step_ok)

text \<open>What one statement does to the row of a key.\<close>

fun row_effect :: "statement \<Rightarrow> write_receipt \<Rightarrow> write_receipt" where
  "row_effect (Insert k ch sha now) r = r"
| "row_effect (Acquire k who till now sha ch) r = hd (acquire_receipt k who till now sha ch [r])"
| "row_effect (Settle k who f) r = hd (settle_receipt k who f [r])"

lemma row_effect_key: "wr_write_key (row_effect s r) = wr_write_key r"
  by (cases s) (simp_all add: acquire_receipt_def settle_receipt_def)

lemma find_map: "find P (map f xs) = map_option f (find (P \<circ> f) xs)"
  by (induction xs) auto

lemma find_append:
  "find P (xs @ ys) = (case find P xs of None \<Rightarrow> find P ys | Some x \<Rightarrow> Some x)"
  by (induction xs) auto

lemma row_of_map:
  "(\<And>x. wr_write_key (f x) = wr_write_key x) \<Longrightarrow> row_of (map f t) k = map_option f (row_of t k)"
  by (simp add: row_of_def find_map comp_def)

lemma step_row: "receipt_step t s u \<Longrightarrow> row_of t k = Some r \<Longrightarrow> row_of u k = Some (row_effect s r)"
proof (induction rule: receipt_step.induct)
  case (insert_step t k' ch sha now)
  then show ?case
    by (auto simp: insert_receipt_def row_of_def find_append split: option.splits)
next
  case (acquire_step t k' who till now sha ch)
  then show ?case unfolding acquire_receipt_def row_effect.simps by (subst row_of_map) simp_all
next
  case (settle_step t k' who f)
  then show ?case unfolding settle_receipt_def row_effect.simps by (subst row_of_map) simp_all
qed

text \<open>A property of the row that every statement of a run keeps holds at its end.\<close>

lemma run_row:
  assumes "receipt_run t ss u" "row_of t k = Some r" "P r"
    and "\<And>s r. s \<in> set ss \<Longrightarrow> P r \<Longrightarrow> P (row_effect s r)"
  shows "\<exists>r'. row_of u k = Some r' \<and> P r'"
  using assms
proof (induction arbitrary: r rule: receipt_run.induct)
  case (run_nil t)
  then show ?case by simp
next
  case (run_cons t s u ss v)
  have row: "row_of u k = Some (row_effect s r)" by (rule step_row [OF run_cons.hyps(1) run_cons.prems(1)])
  have p: "P (row_effect s r)" by (rule run_cons.prems(3) [OF _ run_cons.prems(2)]) simp
  have q: "P (row_effect s' r')" if "s' \<in> set ss" "P r'" for s' r'
    by (rule run_cons.prems(3) [OF _ that(2)]) (simp add: that(1))
  show ?case by (rule run_cons.IH [OF row p q])
qed

lemma effect_unleased:
  "wr_lease_owner r = None \<Longrightarrow> wr_status r \<in> {PERSISTED, IDEMPOTENT_REPLAY, CONFLICT} \<Longrightarrow> row_effect s r = r"
  by (cases s) (auto simp: acquire_receipt_def settle_receipt_def)

text \<open>Statements on the row that do not come from the holder of its lease: other requests, clocked
  before the lease runs out. Statements on other rows are unrestricted.\<close>

fun foreign :: "string \<Rightarrow> string \<Rightarrow> string \<Rightarrow> statement \<Rightarrow> bool" where
  "foreign key me till (Insert k ch sha now) = True"
| "foreign key me till (Acquire k who u now sha ch) = (k = key \<longrightarrow> who \<noteq> me \<and> \<not> till < now)"
| "foreign key me till (Settle k who f) = (k = key \<longrightarrow> who \<noteq> me)"

lemma effect_foreign:
  "wr_lease_owner r = Some me \<Longrightarrow> wr_lease_until r = Some till \<Longrightarrow> foreign (wr_write_key r) me till s \<Longrightarrow>
   row_effect s r = r"
  by (cases s) (auto simp: acquire_receipt_def settle_receipt_def lease_free_def sql_less_def)

lemma insert_row:
  "row_of (insert_receipt k ch sha now t) k = Some (case row_of t k of None \<Rightarrow> new_receipt k ch sha now | Some x \<Rightarrow> x)"
  by (auto simp: insert_receipt_def row_of_def new_receipt_def find_append split: option.splits)

lemma acquire_row:
  "row_of t k = Some x \<Longrightarrow>
   row_of (acquire_receipt k who till now sha ch t) k = Some (row_effect (Acquire k who till now sha ch) x)"
  by (rule step_row [OF acquire_step])

lemma settle_row:
  "row_of t k = Some x \<Longrightarrow> row_of (settle_receipt k who f t) k = Some (row_effect (Settle k who f) x)"
  by (rule step_row [OF settle_step])

lemma run_append: "receipt_run t ss u \<Longrightarrow> receipt_run u ss' v \<Longrightarrow> receipt_run t (ss @ ss') v"
  by (induction rule: receipt_run.induct) (auto intro: receipt_run.intros)

lemma run_settled:
  assumes "receipts_ok t" "receipt_run t ss u" "row_of t k = Some r"
    "wr_status r \<in> {PERSISTED, IDEMPOTENT_REPLAY, CONFLICT}"
  shows "row_of u k = Some r"
proof -
  have "wr_lease_owner r = None"
    using row_of_Some [OF assms(3)] assms(1,4) by (auto simp: receipts_ok_def list_all_iff)
  then have "row_effect s r = r" for s using assms(4) by (rule effect_unleased)
  then have "\<exists>r'. row_of u k = Some r' \<and> r' = r"
    using run_row [OF assms(2,3), of "\<lambda>x. x = r"] by metis
  then show ?thesis by simp
qed

text \<open>The guard of a reservation, on the row found.\<close>

definition grantable :: "reservation \<Rightarrow> write_receipt \<Rightarrow> bool" where
  "grantable inp x \<longleftrightarrow> wr_payload_sha256 x = rv_payload_sha256 inp \<and> wr_channel x = rv_channel inp
     \<and> wr_status x \<notin> {PERSISTED, IDEMPOTENT_REPLAY, CONFLICT} \<and> lease_free (rv_request_id inp) (rv_now inp) x"

lemma reserve_cases:
  fixes inp :: reservation and t :: receipts
  assumes ok: "receipts_ok t" and n: "date_parse lp (rv_now inp) = Some n"
  defines "x \<equiv> case row_of t (rv_write_key inp) of
      None \<Rightarrow> new_receipt (rv_write_key inp) (rv_channel inp) (rv_payload_sha256 inp) (rv_now inp)
    | Some x \<Rightarrow> x"
  shows "\<exists>u r. reserveStateWrite lp (Some t) inp = (Some u, Inr (grantable inp x, r))
    \<and> (\<exists>ss. receipt_run t ss u)
    \<and> (grantable inp x \<longrightarrow> row_of u (rv_write_key inp) = Some r
        \<and> r = x\<lparr>wr_status := PENDING, wr_attempt_count := wr_attempt_count x + 1,
            wr_lease_owner := Some (rv_request_id inp),
            wr_lease_until := Some (to_iso (n + lease_seconds inp * 1000)), wr_updated_at := rv_now inp\<rparr>)
    \<and> (\<not> grantable inp x \<longrightarrow> row_of u (rv_write_key inp) = Some x \<and> (r = x \<or> r = x\<lparr>wr_status := CONFLICT\<rparr>))"
proof -
  let ?k = "rv_write_key inp"
  define i where "i = Insert ?k (rv_channel inp) (rv_payload_sha256 inp) (rv_now inp)"
  define t1 where "t1 = insert_receipt ?k (rv_channel inp) (rv_payload_sha256 inp) (rv_now inp) t"
  define till where "till = to_iso (n + lease_seconds inp * 1000)"
  define a where "a = Acquire ?k (rv_request_id inp) till (rv_now inp) (rv_payload_sha256 inp) (rv_channel inp)"
  define t2 where "t2 = acquire_receipt ?k (rv_request_id inp) till (rv_now inp) (rv_payload_sha256 inp) (rv_channel inp) t1"
  have run1: "receipt_run t [i] t1" 
    unfolding i_def t1_def by (rule run_cons [OF insert_step run_nil])
  have "receipt_run t1 [a] t2" 
    unfolding a_def t2_def by (rule run_cons [OF acquire_step run_nil])
  from run_append [OF run1 this] have run2: "receipt_run t [i, a] t2" by simp
  have x1: "row_of t1 ?k = Some x" unfolding t1_def x_def by (rule insert_row)
  have x2: "row_of t2 ?k = Some (row_effect a x)" unfolding t2_def a_def by (rule acquire_row [OF x1])
  have key: "wr_write_key x = ?k" "x \<in> set t1" using row_of_Some [OF x1] by simp_all
  have "receipts_ok t1" by (rule receipt_run_ok [OF run1 ok])
  then have led: "wr_lease_owner x \<noteq> None \<Longrightarrow> wr_status x = PENDING"
    using key by (auto simp: receipts_ok_def list_all_iff)
  have rs: "reserveStateWrite lp (Some t) inp =
     (if wr_payload_sha256 x \<noteq> rv_payload_sha256 inp \<or> wr_channel x \<noteq> rv_channel inp
      then (Some t1, Inr (False, x\<lparr>wr_status := CONFLICT\<rparr>))
      else if wr_status x = PERSISTED \<or> wr_status x = IDEMPOTENT_REPLAY then (Some t1, Inr (False, x))
      else (Some t2, Inr (wr_lease_owner (row_effect a x) = Some (rv_request_id inp), row_effect a x)))"
    using x1 x2 n
    by (simp add: reserveStateWrite_def getStateWriteReceipt_def ensureReceiptTable_def Let_def
        t1_def [symmetric] till_def [symmetric] t2_def [symmetric])
  have eff: "row_effect a x = (if grantable inp x then x\<lparr>wr_status := PENDING, wr_attempt_count := wr_attempt_count x + 1,
            wr_lease_owner := Some (rv_request_id inp), wr_lease_until := Some till, wr_updated_at := rv_now inp\<rparr> else x)"
    by (auto simp: a_def acquire_receipt_def grantable_def key)
  consider (mismatch) "wr_payload_sha256 x \<noteq> rv_payload_sha256 inp \<or> wr_channel x \<noteq> rv_channel inp"
    | (settled) "\<not> (wr_payload_sha256 x \<noteq> rv_payload_sha256 inp \<or> wr_channel x \<noteq> rv_channel inp)"
      "wr_status x = PERSISTED \<or> wr_status x = IDEMPOTENT_REPLAY"
    | (granted) "grantable inp x"
    | (held) "\<not> (wr_payload_sha256 x \<noteq> rv_payload_sha256 inp \<or> wr_channel x \<noteq> rv_channel inp)"
      "\<not> (wr_status x = PERSISTED \<or> wr_status x = IDEMPOTENT_REPLAY)" "\<not> grantable inp x"
    by blast
  then show ?thesis
  proof cases
    case mismatch
    then have "\<not> grantable inp x" by (auto simp: grantable_def)
    then show ?thesis using mismatch rs run1 x1 by auto
  next
    case settled
    then have "\<not> grantable inp x" by (auto simp: grantable_def)
    then show ?thesis using settled rs run1 x1 by auto
  next
    case granted
    then have "\<not> (wr_payload_sha256 x \<noteq> rv_payload_sha256 inp \<or> wr_channel x \<noteq> rv_channel inp)"
      "\<not> (wr_status x = PERSISTED \<or> wr_status x = IDEMPOTENT_REPLAY)" by (auto simp: grantable_def)
    then show ?thesis using granted rs run2 x2 eff till_def by auto
  next
    case held
    then have "wr_lease_owner x \<noteq> Some (rv_request_id inp)"
      using led by (auto simp: grantable_def lease_free_def)
    then show ?thesis using held rs run2 x2 eff by auto
  qed
qed

lemma finalize_unfold:
  assumes "row_of v k = Some r" "wr_lease_owner r = Some me"
  shows "finalizeStateWriteReceipt (Some v) k me f = (Some (settle_receipt k me f v), Inr (hd (settle_receipt k me f [r])))"
  using settle_row [OF assms(1), of me f]
  by (simp add: finalizeStateWriteReceipt_def ensureReceiptTable_def getStateWriteReceipt_def Let_def)

section \<open>Properties\<close>

text \<open>C18: a settled receipt is final: whatever statements the workers interleaved before and
  whatever they interleave after, a row that is PERSISTED, IDEMPOTENT_REPLAY or CONFLICT never
  changes again.\<close>

theorem receipts_terminal_final:
  assumes "receipt_run [] ss t" "receipt_run t ss' u"
    and "row_of t k = Some r" "wr_status r \<in> {PERSISTED, IDEMPOTENT_REPLAY, CONFLICT}"
  shows "row_of u k = Some r"
  by (rule run_settled [OF receipt_run_ok [OF assms(1)] assms(2-4)]) (simp add: receipts_ok_def)

text \<open>A row keeps its identity: no interleaving changes the channel, the payload hash or the
  creation time of a write key, and its attempt count never falls.\<close>

theorem receipts_identity_fixed:
  assumes "receipt_run t ss u" "row_of t k = Some r"
  shows "\<exists>r'. row_of u k = Some r' \<and> wr_channel r' = wr_channel r
    \<and> wr_payload_sha256 r' = wr_payload_sha256 r \<and> wr_created_at r' = wr_created_at r
    \<and> wr_attempt_count r \<le> wr_attempt_count r'"
proof (rule run_row [OF assms])
  fix s and x :: write_receipt
  assume "wr_channel x = wr_channel r \<and> wr_payload_sha256 x = wr_payload_sha256 r
      \<and> wr_created_at x = wr_created_at r \<and> wr_attempt_count r \<le> wr_attempt_count x"
  then show "wr_channel (row_effect s x) = wr_channel r \<and> wr_payload_sha256 (row_effect s x) = wr_payload_sha256 r
      \<and> wr_created_at (row_effect s x) = wr_created_at r \<and> wr_attempt_count r \<le> wr_attempt_count (row_effect s x)"
    by (cases s) (auto simp: acquire_receipt_def settle_receipt_def)
qed simp

text \<open>A reservation is granted exactly when the write is new or its row has the same channel and
  payload, is not settled and its lease is free, expired or already the caller's; the granted row
  is pending, leased to the caller for the clamped lease time, and counts one attempt more.\<close>

theorem reserve_granted_iff:
  assumes "receipts_ok t" "date_parse lp (rv_now inp) = Some n"
  shows "\<exists>u g r. reserveStateWrite lp (Some t) inp = (Some u, Inr (g, r)) \<and> receipts_ok u
    \<and> (g \<longleftrightarrow> (case row_of t (rv_write_key inp) of None \<Rightarrow> True
        | Some x \<Rightarrow> wr_payload_sha256 x = rv_payload_sha256 inp \<and> wr_channel x = rv_channel inp
            \<and> wr_status x \<notin> {PERSISTED, IDEMPOTENT_REPLAY, CONFLICT}
            \<and> lease_free (rv_request_id inp) (rv_now inp) x))
    \<and> (g \<longrightarrow> row_of u (rv_write_key inp) = Some r \<and> wr_status r = PENDING
        \<and> wr_lease_owner r = Some (rv_request_id inp)
        \<and> wr_lease_until r = Some (to_iso (n + max 30 (min 600 (case rv_lease_seconds inp of None \<Rightarrow> 120 | Some s \<Rightarrow> s)) * 1000))
        \<and> wr_attempt_count r = (case row_of t (rv_write_key inp) of None \<Rightarrow> 1 | Some x \<Rightarrow> wr_attempt_count x + 1))"
proof -
  define x where "x = (case row_of t (rv_write_key inp) of
      None \<Rightarrow> new_receipt (rv_write_key inp) (rv_channel inp) (rv_payload_sha256 inp) (rv_now inp)
    | Some x \<Rightarrow> x)"
  obtain u r ss where u: "reserveStateWrite lp (Some t) inp = (Some u, Inr (grantable inp x, r))" "receipt_run t ss u"
    and g: "grantable inp x \<longrightarrow> row_of u (rv_write_key inp) = Some r
        \<and> r = x\<lparr>wr_status := PENDING, wr_attempt_count := wr_attempt_count x + 1,
            wr_lease_owner := Some (rv_request_id inp),
            wr_lease_until := Some (to_iso (n + lease_seconds inp * 1000)), wr_updated_at := rv_now inp\<rparr>"
    using reserve_cases [OF assms] unfolding x_def by blast
  have iff: "grantable inp x \<longleftrightarrow> (case row_of t (rv_write_key inp) of None \<Rightarrow> True
        | Some x \<Rightarrow> wr_payload_sha256 x = rv_payload_sha256 inp \<and> wr_channel x = rv_channel inp
            \<and> wr_status x \<notin> {PERSISTED, IDEMPOTENT_REPLAY, CONFLICT}
            \<and> lease_free (rv_request_id inp) (rv_now inp) x)"
    by (simp add: x_def grantable_def new_receipt_def lease_free_def split: option.splits)
  have cnt: "wr_attempt_count x + 1 = (case row_of t (rv_write_key inp) of None \<Rightarrow> 1 | Some x \<Rightarrow> wr_attempt_count x + 1)"
    by (simp add: x_def new_receipt_def split: option.splits)
  show ?thesis
    using u(1) receipt_run_ok [OF u(2) assms(1)] g
    unfolding iff [symmetric] cnt [symmetric] by (auto simp: lease_seconds_def)
qed

text \<open>C19: while a lease runs it excludes: after a granted reservation, whatever the other requests
  interleave before the lease is over, the holder's finalization still finds its row and settles
  it to the reported outcome, with the lease released and no attempt counted by anybody else.\<close>

theorem lease_excludes:
  assumes "receipts_ok t" "date_parse lp (rv_now inp) = Some n"
    and "reserveStateWrite lp (Some t) inp = (Some u, Inr (True, r))"
    and "receipt_run u ss v"
    and "list_all (foreign (rv_write_key inp) (rv_request_id inp) (to_iso (n + lease_seconds inp * 1000))) ss"
  shows "\<exists>w r'. finalizeStateWriteReceipt (Some v) (rv_write_key inp) (rv_request_id inp) f = (Some w, Inr r')
    \<and> row_of w (rv_write_key inp) = Some r' \<and> wr_status r' = fz_status f \<and> wr_comment_id r' = fz_comment_id f
    \<and> wr_comment_url r' = fz_comment_url f \<and> wr_lease_owner r' = None
    \<and> wr_attempt_count r' = wr_attempt_count r \<and> wr_payload_sha256 r' = rv_payload_sha256 inp"
proof -
  let ?k = "rv_write_key inp" and ?me = "rv_request_id inp"
  let ?till = "to_iso (n + lease_seconds inp * 1000)"
  have "row_of u ?k = Some r \<and> wr_lease_owner r = Some ?me \<and> wr_lease_until r = Some ?till
      \<and> wr_payload_sha256 r = rv_payload_sha256 inp"
    using reserve_cases [OF assms(1,2)] assms(3) by (auto simp: grantable_def)
  then have r: "row_of u ?k = Some r" "wr_lease_owner r = Some ?me" "wr_lease_until r = Some ?till"
      "wr_payload_sha256 r = rv_payload_sha256 inp" by simp_all
  have key: "wr_write_key r = ?k" using row_of_Some [OF r(1)] by simp
  have eff: "row_effect s r = r" if s: "s \<in> set ss" for s
    by (rule effect_foreign [OF r(2,3)]) (use assms(5) s key in \<open>auto simp: list_all_iff\<close>)
  have "\<exists>r'. row_of v ?k = Some r' \<and> r' = r"
    by (rule run_row [OF assms(4) r(1)]) (use eff in auto)
  then have v: "row_of v ?k = Some r" by simp
  have "row_of (settle_receipt ?k ?me f v) ?k = Some (hd (settle_receipt ?k ?me f [r]))"
    using settle_row [OF v] by simp
  then show ?thesis
    using finalize_unfold [OF v r(2)] r key by (simp add: settle_receipt_def)
qed

text \<open>A persisted write is never granted again: after its finalization as PERSISTED, whatever
  is interleaved, every later reservation of the write key is refused and names the comment of the
  first write.\<close>

theorem persisted_never_granted:
  assumes "receipts_ok t"
    and "finalizeStateWriteReceipt (Some t) k me f = (Some u, Inr r)"
    and "wr_status r = PERSISTED"
    and "receipt_run u ss v" "rv_write_key inp = k" "date_parse lp (rv_now inp) = Some n"
  shows "\<exists>w r'. reserveStateWrite lp (Some v) inp = (Some w, Inr (False, r'))
    \<and> wr_comment_id r' = wr_comment_id r \<and> row_of w k = Some r
    \<and> (wr_payload_sha256 r = rv_payload_sha256 inp \<and> wr_channel r = rv_channel inp \<longrightarrow> r' = r)"
proof -
  have u: "u = settle_receipt k me f t" "row_of u k = Some r"
    using assms(2)
    by (auto simp: finalizeStateWriteReceipt_def ensureReceiptTable_def getStateWriteReceipt_def Let_def split: option.splits)
  have oku: "receipts_ok u" unfolding u(1) by (rule receipt_step_ok [OF settle_step assms(1)])
  have v: "row_of v k = Some r" by (rule run_settled [OF oku assms(4) u(2)]) (simp add: assms(3))
  have "\<not> grantable inp r" by (simp add: grantable_def assms(3))
  moreover have "receipts_ok v" by (rule receipt_run_ok [OF assms(4) oku])
  ultimately obtain w r' where w: "reserveStateWrite lp (Some v) inp = (Some w, Inr (False, r'))"
      "row_of w k = Some r" "r' = r \<or> r' = r\<lparr>wr_status := CONFLICT\<rparr>"
    using reserve_cases [of v lp inp n] assms(5,6) v by auto
  have "r' = r" if "wr_payload_sha256 r = rv_payload_sha256 inp \<and> wr_channel r = rv_channel inp"
  proof -
    have "row_of (insert_receipt k (rv_channel inp) (rv_payload_sha256 inp) (rv_now inp) v) k = Some r"
      by (simp add: insert_row v)
    then show ?thesis
      using w(1) that assms(3,5)
      by (simp add: reserveStateWrite_def ensureReceiptTable_def getStateWriteReceipt_def Let_def)
  qed
  then show ?thesis using w by auto
qed

text \<open>A write that is reserved, persisted and reserved again.\<close>

definition sample_reservation :: reservation where
  "sample_reservation = \<lparr>rv_write_key = ''k'', rv_channel = MARKET, rv_payload_sha256 = ''sha256:a'',
     rv_request_id = ''r1'', rv_now = ''2026-01-05T10:00:00.000Z'', rv_lease_seconds = None\<rparr>"

definition sample_outcome :: finalization where
  "sample_outcome = \<lparr>fz_status = PERSISTED, fz_updated_at = ''2026-01-05T10:00:01.000Z'',
     fz_comment_id = Some ''7'', fz_comment_url = Some ''u'', fz_last_error_code = None,
     fz_last_error_phase = None, fz_last_http_status = None, fz_envelope_key = None, fz_event_count = None\<rparr>"

definition sample_leased :: write_receipt where
  "sample_leased = (new_receipt ''k'' MARKET ''sha256:a'' ''2026-01-05T10:00:00.000Z'')
     \<lparr>wr_attempt_count := 1, wr_lease_owner := Some ''r1'', wr_lease_until := Some ''2026-01-05T10:02:00.000Z''\<rparr>"

definition sample_settled :: write_receipt where
  "sample_settled = hd (settle_receipt ''k'' ''r1'' sample_outcome [sample_leased])"

lemma sample_date: "date_parse (\<lambda>_. None) (rv_now sample_reservation) = Some 1767607200000"
  by code_simp

lemma sample_reserved: "reserveStateWrite (\<lambda>_. None) (Some []) sample_reservation = (Some [sample_leased], Inr (True, sample_leased))"
  by code_simp

lemma sample_finalized:
  "finalizeStateWriteReceipt (Some [sample_leased]) ''k'' ''r1'' sample_outcome = (Some [sample_settled], Inr sample_settled)"
  by code_simp

lemma sample_ok: "receipts_ok []" "receipts_ok [sample_leased]"
  by (simp_all add: receipts_ok_def sample_leased_def new_receipt_def)

lemma sample_settled_facts:
  "wr_status sample_settled = PERSISTED" "wr_comment_id sample_settled = Some ''7''" "wr_write_key sample_settled = ''k''"
  by (simp_all add: sample_settled_def settle_receipt_def sample_outcome_def sample_leased_def new_receipt_def)

lemma sample_run:
  "receipt_run [] [Insert ''k'' MARKET ''sha256:a'' ''2026-01-05T10:00:00.000Z''] [new_receipt ''k'' MARKET ''sha256:a'' ''2026-01-05T10:00:00.000Z'']"
  using run_cons [OF insert_step run_nil, of "[]" "''k''" MARKET "''sha256:a''" "''2026-01-05T10:00:00.000Z''"]
  by (simp add: insert_receipt_def row_of_def)

theorem receipts_terminal_final_witness:
  "\<exists>u. receipt_run [] [Insert ''k'' MARKET ''sha256:a'' ''2026-01-05T10:00:00.000Z'',
      Acquire ''k'' ''r1'' ''2026-01-05T10:02:00.000Z'' ''2026-01-05T10:00:00.000Z'' ''sha256:a'' MARKET,
      Settle ''k'' ''r1'' sample_outcome] u \<and> row_of u ''k'' = Some sample_settled"
proof -
  let ?now = "''2026-01-05T10:00:00.000Z''"
  let ?a = "Acquire ''k'' ''r1'' ''2026-01-05T10:02:00.000Z'' ?now ''sha256:a'' MARKET"
  let ?new = "new_receipt ''k'' MARKET ''sha256:a'' ?now"
  have a: "acquire_receipt ''k'' ''r1'' ''2026-01-05T10:02:00.000Z'' ?now ''sha256:a'' MARKET [?new] = [sample_leased]"
    by code_simp
  have "receipt_run [?new] [?a] [sample_leased]" using run_cons [OF acquire_step run_nil, of "[?new]"] a by metis
  moreover have s: "settle_receipt ''k'' ''r1'' sample_outcome [sample_leased] = [sample_settled]" by code_simp
  then have "receipt_run [sample_leased] [Settle ''k'' ''r1'' sample_outcome] [sample_settled]"
    using run_cons [OF settle_step run_nil, of "[sample_leased]"] by metis
  ultimately have run: "receipt_run [] [Insert ''k'' MARKET ''sha256:a'' ?now, ?a, Settle ''k'' ''r1'' sample_outcome] [sample_settled]"
    using run_append [OF run_append [OF sample_run]] by fastforce
  have "row_of [sample_settled] ''k'' = Some sample_settled" by (simp add: row_of_def sample_settled_facts)
  from receipts_terminal_final [OF run run_nil this] show ?thesis using run sample_settled_facts by auto
qed

theorem receipts_identity_fixed_witness:
  "\<exists>r'. row_of [sample_settled] ''k'' = Some r' \<and> wr_payload_sha256 r' = ''sha256:a'' \<and> 1 \<le> wr_attempt_count r'"
proof -
  have "settle_receipt ''k'' ''r1'' sample_outcome [sample_leased] = [sample_settled]" by code_simp
  then have run: "receipt_run [sample_leased] [Settle ''k'' ''r1'' sample_outcome] [sample_settled]"
    using run_cons [OF settle_step run_nil, of "[sample_leased]"] by metis
  have row: "row_of [sample_leased] ''k'' = Some sample_leased"
    by (simp add: row_of_def sample_leased_def new_receipt_def)
  from receipts_identity_fixed [OF run row] show ?thesis
    by (auto simp: sample_leased_def new_receipt_def)
qed

theorem reserve_granted_iff_witness:
  "\<exists>u g r. reserveStateWrite (\<lambda>_. None) (Some []) sample_reservation = (Some u, Inr (g, r)) \<and> g
    \<and> wr_attempt_count r = 1"
  using reserve_granted_iff [OF sample_ok(1) sample_date] by (fastforce simp: row_of_def)

theorem lease_excludes_witness:
  "\<exists>w r'. finalizeStateWriteReceipt (Some [sample_leased]) ''k'' ''r1'' sample_outcome = (Some w, Inr r')
    \<and> wr_status r' = PERSISTED"
  using lease_excludes [OF sample_ok(1) sample_date sample_reserved run_nil, of sample_outcome]
  by (auto simp: sample_reservation_def sample_outcome_def)

theorem persisted_never_granted_witness:
  "\<exists>w r'. reserveStateWrite (\<lambda>_. None) (Some [sample_settled]) sample_reservation = (Some w, Inr (False, r'))
    \<and> wr_comment_id r' = Some ''7''"
proof -
  have "rv_write_key sample_reservation = ''k''" by (simp add: sample_reservation_def)
  from persisted_never_granted [OF sample_ok(2) sample_finalized sample_settled_facts(1) run_nil this sample_date]
  show ?thesis using sample_settled_facts(2) by auto
qed

end
