(* ===== verification/Read_Retry.thy ===== *)
theory Read_Retry
  imports Js_Prelude
begin

text \<open>
  \<open>src/src/state-ledger-read-retry.ts\<close> and \<open>src/src/research-read-retry.ts\<close>: the two retry
  loops around reads without side effects. The operation is a function from the number of the call
  to what that call does, the random source a function from the number of the sleep to its sample.
  The loops have no bound of their own (\<open>for (;;)\<close>), so they are partial functions, and that they
  return is a theorem. What a loop did is returned with its result: the list of its sleeps, and the
  list of the reported failures. Rounding of the doubles in the jitter is not represented.
\<close>

section \<open>Retry of ledger reads\<close>

definition STATE_LEDGER_READ_RETRY_DELAYS_MS :: "int list" where
  "STATE_LEDGER_READ_RETRY_DELAYS_MS = [100, 250]"

definition isRetryableStateLedgerReadStatus :: "int \<Rightarrow> bool" where
  "isRetryableStateLedgerReadStatus status \<longleftrightarrow>
     status = 408 \<or> status = 425 \<or> status = 429 \<or> (status \<ge> 500 \<and> status \<le> 599)"

definition jitterStateLedgerReadDelay :: "int \<Rightarrow> rat \<Rightarrow> int" where
  "jitterStateLedgerReadDelay baseDelayMs random =
     (let sample = min 1 (max 0 random) in
      max 0 (math_round (of_int baseDelayMs * (8 / 10 + 4 / 10 * sample))))"

text \<open>One call: it throws, or it answers with a status and the rest of the response.\<close>

datatype ('e, 'r) attempt = Threw 'e | Answered int 'r

text \<open>\<open>response.ok\<close>\<close>

definition response_ok :: "int \<Rightarrow> bool" where
  "response_ok status \<longleftrightarrow> 200 \<le> status \<and> status \<le> 299"

partial_function (option) ledger_loop ::
  "(nat \<Rightarrow> ('e, 'r) attempt) \<Rightarrow> (nat \<Rightarrow> rat) \<Rightarrow> int list \<Rightarrow> nat \<Rightarrow> int list \<Rightarrow> (('e, 'r) attempt \<times> int list) option" where
  "ledger_loop operation random delaysMs attempt slept =
     (case operation attempt of
        Threw e \<Rightarrow>
          if length delaysMs \<le> attempt then Some (Threw e, slept)
          else ledger_loop operation random delaysMs (Suc attempt)
                 (slept @ [jitterStateLedgerReadDelay (delaysMs ! attempt) (random attempt)])
      | Answered status response \<Rightarrow>
          if response_ok status \<or> \<not> isRetryableStateLedgerReadStatus status \<or> length delaysMs \<le> attempt
          then Some (Answered status response, slept)
          else ledger_loop operation random delaysMs (Suc attempt)
                 (slept @ [jitterStateLedgerReadDelay (delaysMs ! attempt) (random attempt)]))"

definition fetchStateLedgerReadWithRetry ::
  "(nat \<Rightarrow> ('e, 'r) attempt) \<Rightarrow> (nat \<Rightarrow> rat) \<Rightarrow> int list option \<Rightarrow> (('e, 'r) attempt \<times> int list) option" where
  "fetchStateLedgerReadWithRetry operation random delaysMs =
     ledger_loop operation random (case delaysMs of None \<Rightarrow> STATE_LEDGER_READ_RETRY_DELAYS_MS | Some ds \<Rightarrow> ds) 0 []"

section \<open>Classification of research read failures\<close>

definition RESEARCH_READ_RETRY_DELAYS_MS :: "int list" where
  "RESEARCH_READ_RETRY_DELAYS_MS = [500, 1500]"

datatype failure_class = TRANSIENT | DETERMINISTIC | UNKNOWN

text \<open>A thrown value, as far as the code looks at it: a \<open>ResearchBoundaryError\<close> (error code,
  retryable, safe message, request id), a \<open>ResearchReadBackendError\<close> (class, diagnostic code, name
  of the source error, cause), another object with its \<open>name\<close>, \<open>message\<close> and \<open>cause\<close>, or a
  primitive value.\<close>

datatype js_error =
    BoundaryError string bool string string
  | BackendError failure_class string string "js_error option"
  | ErrorObject "string option" string "js_error option"
  | ThrownValue

definition SAFE_SOURCE_ERROR_NAMES :: "string set" where
  "SAFE_SOURCE_ERROR_NAMES =
     {''Error'', ''TypeError'', ''RangeError'', ''DOMException'', ''NetworkError'', ''AbortError'', ''D1Error''}"

fun error_name :: "js_error \<Rightarrow> string" where
  "error_name (BoundaryError _ _ _ _) = ''ResearchBoundaryError''"
| "error_name (BackendError _ _ _ _) = ''ResearchReadBackendError''"
| "error_name (ErrorObject n _ _) = (case n of None \<Rightarrow> '''' | Some x \<Rightarrow> x)"
| "error_name ThrownValue = ''''"

definition safeErrorName :: "js_error \<Rightarrow> string" where
  "safeErrorName error = (if error_name error \<in> SAFE_SOURCE_ERROR_NAMES then error_name error else ''Error'')"

fun directErrorMessage :: "js_error \<Rightarrow> string" where
  "directErrorMessage (BoundaryError _ _ m _) = m"
| "directErrorMessage (BackendError _ _ _ _) = ''research read backend failure''"
| "directErrorMessage (ErrorObject _ m _) = m"
| "directErrorMessage ThrownValue = ''''"

fun error_cause :: "js_error \<Rightarrow> js_error option" where
  "error_cause (BackendError _ _ _ c) = c"
| "error_cause (ErrorObject _ _ c) = c"
| "error_cause _ = None"

text \<open>The messages of at most \<open>depth\<close> levels of causes that are not blank.\<close>

fun messages_of :: "nat \<Rightarrow> js_error option \<Rightarrow> string list" where
  "messages_of 0 current = []"
| "messages_of (Suc depth) None = []"
| "messages_of (Suc depth) (Some error) =
     (let message = js_trim (directErrorMessage error) in
      (if message = '''' then [] else [message]) @ messages_of depth (error_cause error))"

fun join_with :: "string \<Rightarrow> string list \<Rightarrow> string" where
  "join_with sep [] = ''''"
| "join_with sep [x] = x"
| "join_with sep (x # y # xs) = x @ sep @ join_with sep (y # xs)"

definition errorMessage :: "js_error \<Rightarrow> string" where
  "errorMessage error = take 2048 (join_with [CHR 0x0A] (messages_of 3 (Some error)))"

text \<open>The patterns ignore case; \<open>.\<close> stops at a line end. \<open>after needle s\<close> is the text behind the
  first occurrence.\<close>

definition lower_ascii :: "char \<Rightarrow> char" where
  "lower_ascii c = (if 65 \<le> (of_char c :: nat) \<and> (of_char c :: nat) \<le> 90 then char_of ((of_char c :: nat) + 32) else c)"

fun after :: "string \<Rightarrow> string \<Rightarrow> string option" where
  "after needle [] = (if needle = [] then Some [] else None)"
| "after needle (c # cs) =
     (if take (length needle) (c # cs) = needle then Some (drop (length needle) (c # cs)) else after needle cs)"

definition mentions :: "string \<Rightarrow> string \<Rightarrow> bool" where
  "mentions s needle \<longleftrightarrow> after needle s \<noteq> None"

definition is_line_end :: "char \<Rightarrow> bool" where
  "is_line_end c \<longleftrightarrow> c = CHR 0x0A \<or> c = CHR 0x0D"

fun lines_of :: "string \<Rightarrow> string list" where
  "lines_of [] = [[]]"
| "lines_of (c # cs) =
     (if is_line_end c then [] # lines_of cs
      else (case lines_of cs of [] \<Rightarrow> [[c]] | l # ls \<Rightarrow> (c # l) # ls))"

text \<open>\<open>(?:a1|a2|...).*(?:b1|b2|...)\<close>\<close>

definition followed_by :: "string list \<Rightarrow> string list \<Rightarrow> string \<Rightarrow> bool" where
  "followed_by as bs s \<longleftrightarrow>
     list_ex (\<lambda>line. list_ex (\<lambda>a. case after a line of None \<Rightarrow> False | Some rest \<Rightarrow> list_ex (mentions rest) bs) as)
       (lines_of s)"

text \<open>\<open>timed?\s*out\<close>\<close>

fun timed_out :: "string \<Rightarrow> bool" where
  "timed_out [] = False"
| "timed_out (c # cs) =
     ((take 4 (c # cs) = ''time'' \<and>
       (let rest = drop 4 (c # cs);
            rest' = (if take 1 rest = ''d'' then drop 1 rest else rest)
        in take 3 (dropWhile is_space rest') = ''out''))
      \<or> timed_out cs)"

definition deterministic_message :: "string \<Rightarrow> bool" where
  "deterministic_message m \<longleftrightarrow>
     list_ex (mentions m) [''no such table'', ''no such column'', ''syntax error'', ''malformed database schema'',
       ''invalid sql'', ''sql logic error'', ''misuse of'']
     \<or> followed_by [''binding''] [''missing'', ''not found'', ''undefined''] m
     \<or> mentions m ''not configured''"

definition transient_message :: "string \<Rightarrow> bool" where
  "transient_message m \<longleftrightarrow>
     followed_by [''network'', ''socket'', ''fetch''] [''fail'', ''lost'', ''reset'', ''closed''] m
     \<or> followed_by [''connection''] [''fail'', ''lost'', ''reset'', ''closed''] m
     \<or> timed_out m \<or> mentions m ''timeout''
     \<or> list_ex (mentions m) [''temporary'', ''temporarily'', ''service unavailable'', ''database is locked'',
         ''database is busy'', ''reset by peer'']"

definition classifyResearchReadBackendError :: "js_error \<Rightarrow> failure_class \<times> string \<times> string" where
  "classifyResearchReadBackendError error =
     (case error of
        BackendError c d n _ \<Rightarrow> (c, d, n)
      | _ \<Rightarrow>
        (let message = map lower_ascii (errorMessage error) in
         if deterministic_message message
         then (DETERMINISTIC, ''DETERMINISTIC_BACKEND_QUERY_OR_CONFIG'', safeErrorName error)
         else if transient_message message
         then (TRANSIENT, ''TRANSIENT_BACKEND_IO'', safeErrorName error)
         else (UNKNOWN, ''UNKNOWN_BACKEND_READ_ERROR'', safeErrorName error)))"

definition failureMetadata :: "js_error \<Rightarrow> failure_class \<times> string \<times> string" where
  "failureMetadata error =
     (case error of
        BoundaryError code retryable _ _ \<Rightarrow>
          (if code = ''STORE_UNAVAILABLE'' \<and> retryable then TRANSIENT else DETERMINISTIC,
           ''BOUNDARY_'' @ code, ''ResearchBoundaryError'')
      | _ \<Rightarrow> classifyResearchReadBackendError error)"

definition shouldRetryResearchRead :: "js_error \<Rightarrow> bool" where
  "shouldRetryResearchRead error =
     (case error of
        BoundaryError code retryable _ _ \<Rightarrow> code = ''STORE_UNAVAILABLE'' \<and> retryable
      | _ \<Rightarrow> fst (classifyResearchReadBackendError error) \<noteq> DETERMINISTIC)"

section \<open>Retry of research reads\<close>

record failure_event =
  fe_request_id :: string
  fe_tool :: string
  fe_attempt :: nat
  fe_max_attempts :: nat
  fe_will_retry :: bool
  fe_failure_class :: failure_class
  fe_diagnostic_code :: string
  fe_source_error_name :: string

definition will_retry :: "int list \<Rightarrow> nat \<Rightarrow> js_error \<Rightarrow> bool" where
  "will_retry delaysMs attemptIndex error \<longleftrightarrow>
     shouldRetryResearchRead error \<and> attemptIndex < length delaysMs
     \<and> (fst (failureMetadata error) \<noteq> UNKNOWN \<or> attemptIndex = 0)"

definition failure_event_of :: "string \<Rightarrow> string \<Rightarrow> int list \<Rightarrow> nat \<Rightarrow> js_error \<Rightarrow> failure_event" where
  "failure_event_of requestId tool delaysMs attemptIndex error =
     (case failureMetadata error of (failureClass, diagnosticCode, sourceErrorName) \<Rightarrow>
        \<lparr>fe_request_id = requestId, fe_tool = tool, fe_attempt = attemptIndex + 1,
         fe_max_attempts = length delaysMs + 1, fe_will_retry = will_retry delaysMs attemptIndex error,
         fe_failure_class = failureClass, fe_diagnostic_code = diagnosticCode,
         fe_source_error_name = sourceErrorName\<rparr>)"

text \<open>What is thrown when the loop gives up.\<close>

definition surfaced_error :: "string \<Rightarrow> js_error \<Rightarrow> js_error" where
  "surfaced_error requestId error =
     (case error of
        BoundaryError code retryable safe_message _ \<Rightarrow>
          (if code = ''STORE_UNAVAILABLE'' then BoundaryError ''STORE_UNAVAILABLE'' retryable safe_message requestId
           else error)
      | _ \<Rightarrow>
        (let retryable = fst (classifyResearchReadBackendError error) \<noteq> DETERMINISTIC in
         BoundaryError ''STORE_UNAVAILABLE'' retryable
           (if retryable then ''research read backend unavailable; retry later''
            else ''research read backend failed; retry is not advised'') requestId))"

partial_function (option) research_loop ::
  "(nat \<Rightarrow> js_error + 'a) \<Rightarrow> string \<Rightarrow> string \<Rightarrow> int list \<Rightarrow> nat \<Rightarrow> int list \<Rightarrow> failure_event list
   \<Rightarrow> ((js_error + 'a) \<times> int list \<times> failure_event list) option" where
  "research_loop operation requestId tool delaysMs attemptIndex slept events =
     (case operation attemptIndex of
        Inr a \<Rightarrow> Some (Inr a, slept, events)
      | Inl error \<Rightarrow>
          (if will_retry delaysMs attemptIndex error
           then research_loop operation requestId tool delaysMs (Suc attemptIndex)
                  (slept @ [delaysMs ! attemptIndex])
                  (events @ [failure_event_of requestId tool delaysMs attemptIndex error])
           else Some (Inl (surfaced_error requestId error), slept,
                  events @ [failure_event_of requestId tool delaysMs attemptIndex error])))"

definition withResearchReadRetry ::
  "(nat \<Rightarrow> js_error + 'a) \<Rightarrow> string \<Rightarrow> string option \<Rightarrow> int list option
   \<Rightarrow> ((js_error + 'a) \<times> int list \<times> failure_event list) option" where
  "withResearchReadRetry operation requestId tool delaysMs =
     research_loop operation requestId (case tool of None \<Rightarrow> ''research_read'' | Some t \<Rightarrow> t)
       (case delaysMs of None \<Rightarrow> RESEARCH_READ_RETRY_DELAYS_MS | Some ds \<Rightarrow> ds) 0 [] []"

section \<open>Facts\<close>

text \<open>A call after which the loop tries again while it has delays left.\<close>

fun transient_attempt :: "('e, 'r) attempt \<Rightarrow> bool" where
  "transient_attempt (Threw e) = True"
| "transient_attempt (Answered status r) = (\<not> response_ok status \<and> isRetryableStateLedgerReadStatus status)"

lemma ledger_loop_step:
  "ledger_loop operation random ds n slept =
     (if transient_attempt (operation n) \<and> n < length ds
      then ledger_loop operation random ds (Suc n) (slept @ [jitterStateLedgerReadDelay (ds ! n) (random n)])
      else Some (operation n, slept))"
  by (subst ledger_loop.simps) (auto split: attempt.split)

abbreviation sleeps :: "(nat \<Rightarrow> rat) \<Rightarrow> int list \<Rightarrow> nat \<Rightarrow> int list" where
  "sleeps random ds n \<equiv> map (\<lambda>i. jitterStateLedgerReadDelay (ds ! i) (random i)) [0..<n]"

lemma ledger_loop_returns:
  assumes "k \<le> length ds" "list_all (transient_attempt \<circ> operation) [0..<k]"
  shows "\<exists>n. n \<le> length ds \<and> ledger_loop operation random ds k (sleeps random ds k) = Some (operation n, sleeps random ds n)
    \<and> list_all (transient_attempt \<circ> operation) [0..<n] \<and> (n < length ds \<longrightarrow> \<not> transient_attempt (operation n))"
  using assms
proof (induction "length ds - k" arbitrary: k)
  case 0
  then show ?case by (intro exI [of _ k], subst ledger_loop_step) (auto simp: comp_def)
next
  case (Suc m)
  show ?case
  proof (cases "transient_attempt (operation k)")
    case True
    have "m = length ds - Suc k" "Suc k \<le> length ds" using Suc.hyps(2) by auto
    moreover have "list_all (transient_attempt \<circ> operation) [0..<Suc k]" using True Suc.prems by simp
    ultimately have "\<exists>n. n \<le> length ds \<and> ledger_loop operation random ds (Suc k) (sleeps random ds (Suc k)) = Some (operation n, sleeps random ds n)
      \<and> list_all (transient_attempt \<circ> operation) [0..<n] \<and> (n < length ds \<longrightarrow> \<not> transient_attempt (operation n))"
      by (rule Suc.hyps(1))
    moreover have "ledger_loop operation random ds k (sleeps random ds k) = ledger_loop operation random ds (Suc k) (sleeps random ds (Suc k))"
      using True \<open>Suc k \<le> length ds\<close> by (subst ledger_loop_step) simp
    ultimately show ?thesis by simp
  next
    case False
    then show ?thesis using Suc.prems by (subst ledger_loop_step) auto
  qed
qed

lemma jitter_bounds:
  assumes "0 \<le> b"
  shows "of_int (jitterStateLedgerReadDelay b r) \<le> 12 / 10 * (of_int b :: rat) + 1 / 2"
    "8 / 10 * (of_int b :: rat) - 1 / 2 \<le> of_int (jitterStateLedgerReadDelay b r)"
proof -
  define s where "s = min 1 (max 0 r)"
  define q where "q = of_int b * (8 / 10 + 4 / 10 * s)"
  have s: "0 \<le> s" "s \<le> 1" by (auto simp: s_def)
  have b: "0 \<le> (of_int b :: rat)" using assms by simp
  have q: "8 / 10 * of_int b \<le> q" "q \<le> 12 / 10 * of_int b"
    using mult_left_mono [OF _ b, of "8 / 10" "8 / 10 + 4 / 10 * s"] mult_left_mono [OF _ b, of "8 / 10 + 4 / 10 * s" "12 / 10"] s
    by (simp_all add: q_def mult.commute)
  have m: "of_int (math_round q) \<le> q + 1 / 2" "q + 1 / 2 < of_int (math_round q) + 1"
    unfolding math_round_def by linarith+
  have j: "jitterStateLedgerReadDelay b r = max 0 (math_round q)"
    by (simp add: jitterStateLedgerReadDelay_def s_def q_def Let_def)
  show "of_int (jitterStateLedgerReadDelay b r) \<le> 12 / 10 * (of_int b :: rat) + 1 / 2"
    using m q b unfolding j by (simp add: max_def)
  show "8 / 10 * (of_int b :: rat) - 1 / 2 \<le> of_int (jitterStateLedgerReadDelay b r)"
    using m q b unfolding j by (simp add: max_def)
qed

text \<open>The loop of the research reads, from any point it can be at.\<close>

lemma research_loop_step:
  "research_loop operation rid tool ds n slept events =
     (case operation n of
        Inr a \<Rightarrow> Some (Inr a, slept, events)
      | Inl error \<Rightarrow>
          (if will_retry ds n error
           then research_loop operation rid tool ds (Suc n) (slept @ [ds ! n]) (events @ [failure_event_of rid tool ds n error])
           else Some (Inl (surfaced_error rid error), slept, events @ [failure_event_of rid tool ds n error])))"
  by (rule research_loop.simps)

fun error_retried :: "int list \<Rightarrow> nat \<Rightarrow> js_error + 'a \<Rightarrow> bool" where
  "error_retried ds n (Inl e) = will_retry ds n e"
| "error_retried ds n (Inr a) = False"

definition failures_upto :: "(nat \<Rightarrow> js_error + 'a) \<Rightarrow> string \<Rightarrow> string \<Rightarrow> int list \<Rightarrow> nat \<Rightarrow> failure_event list" where
  "failures_upto operation rid tool ds n = map (\<lambda>i. failure_event_of rid tool ds i (projl (operation i))) [0..<n]"

lemma research_loop_returns:
  assumes "k \<le> length ds" "list_all (\<lambda>i. error_retried ds i (operation i)) [0..<k]"
  shows "\<exists>n. n \<le> length ds \<and> list_all (\<lambda>i. error_retried ds i (operation i)) [0..<n]
    \<and> \<not> error_retried ds n (operation n)
    \<and> research_loop operation rid tool ds k (take k ds) (failures_upto operation rid tool ds k) =
      Some (case operation n of
        Inr a \<Rightarrow> (Inr a, take n ds, failures_upto operation rid tool ds n)
      | Inl e \<Rightarrow> (Inl (surfaced_error rid e), take n ds, failures_upto operation rid tool ds (Suc n)))"
  using assms
proof (induction "length ds - k" arbitrary: k)
  case 0
  then have "\<not> error_retried ds k (operation k)"
    by (cases "operation k") (auto simp: will_retry_def)
  with 0 show ?case
    by (intro exI [of _ k], subst research_loop_step) (auto simp: failures_upto_def split: sum.split)
next
  case (Suc m)
  show ?case
  proof (cases "error_retried ds k (operation k)")
    case True
    then obtain e where e: "operation k = Inl e" "will_retry ds k e" by (cases "operation k") auto
    have m: "m = length ds - Suc k" "Suc k \<le> length ds" using Suc.hyps(2) by auto
    moreover have "list_all (\<lambda>i. error_retried ds i (operation i)) [0..<Suc k]" using True Suc.prems by simp
    moreover have "research_loop operation rid tool ds k (take k ds) (failures_upto operation rid tool ds k)
        = research_loop operation rid tool ds (Suc k) (take (Suc k) ds) (failures_upto operation rid tool ds (Suc k))"
      using e m(2) by (subst research_loop_step) (simp add: failures_upto_def take_Suc_conv_app_nth)
    ultimately show ?thesis using Suc.hyps(1) by simp
  next
    case False
    with Suc.prems show ?thesis
      by (intro exI [of _ k], subst research_loop_step) (auto simp: failures_upto_def split: sum.split)
  qed
qed

lemma ledger_fetch_returns:
  "\<exists>n. n \<le> length ds \<and> fetchStateLedgerReadWithRetry operation random (Some ds) = Some (operation n, sleeps random ds n)
    \<and> list_all (transient_attempt \<circ> operation) [0..<n] \<and> (n < length ds \<longrightarrow> \<not> transient_attempt (operation n))"
  using ledger_loop_returns [of 0 ds operation random] by (simp add: fetchStateLedgerReadWithRetry_def)

lemma research_fetch_returns:
  "\<exists>n. n \<le> length ds \<and> list_all (\<lambda>i. error_retried ds i (operation i)) [0..<n] \<and> \<not> error_retried ds n (operation n)
    \<and> research_loop operation rid tool ds 0 [] [] = Some (case operation n of
        Inr a \<Rightarrow> (Inr a, take n ds, failures_upto operation rid tool ds n)
      | Inl e \<Rightarrow> (Inl (surfaced_error rid e), take n ds, failures_upto operation rid tool ds (Suc n)))"
  using research_loop_returns [of 0 ds operation rid tool] by (simp add: failures_upto_def)

lemma should_retry_class: "shouldRetryResearchRead e \<longleftrightarrow> fst (failureMetadata e) \<noteq> DETERMINISTIC"
  by (cases e) (simp_all add: shouldRetryResearchRead_def failureMetadata_def)

lemma surfaced_boundary:
  "\<exists>code retryable message r. surfaced_error rid e = BoundaryError code retryable message r
    \<and> (code = ''STORE_UNAVAILABLE'' \<longrightarrow> r = rid)
    \<and> ((\<exists>c w q. e = BoundaryError c w message q)
       \<or> message = ''research read backend unavailable; retry later''
       \<or> message = ''research read backend failed; retry is not advised'')"
  by (cases e) (auto simp: surfaced_error_def Let_def)

section \<open>Properties\<close>

text \<open>C30: the retry loop of the ledger reads returns, whatever the operation does: it makes n+1
  calls with n at most the number of delays, the first n fail in a way that is worth a retry, the
  result is what call n did, sleep i is delay i with its jitter, and it stops early only at a call
  that is no transient failure.\<close>

theorem ledger_read_terminates:
  "\<exists>n. n \<le> length ds
    \<and> fetchStateLedgerReadWithRetry operation random (Some ds) =
        Some (operation n, map (\<lambda>i. jitterStateLedgerReadDelay (ds ! i) (random i)) [0..<n])
    \<and> list_all (\<lambda>i. transient_attempt (operation i)) [0..<n]
    \<and> (if n < length ds then \<not> transient_attempt (operation n) else n = length ds)"
proof -
  obtain n where "n \<le> length ds"
    "fetchStateLedgerReadWithRetry operation random (Some ds) = Some (operation n, sleeps random ds n)"
    "list_all (transient_attempt \<circ> operation) [0..<n]" "n < length ds \<longrightarrow> \<not> transient_attempt (operation n)"
    using ledger_fetch_returns by blast
  then show ?thesis by (intro exI [of _ n]) (simp add: comp_def)
qed

text \<open>With the delays of the code a ledger read makes at most three calls and waits at most
  420 milliseconds, whatever the random source gives.\<close>

theorem ledger_read_wait_bounded:
  assumes "fetchStateLedgerReadWithRetry operation random None = Some (r, slept)"
  shows "length slept \<le> 2 \<and> list_all (\<lambda>d. 80 \<le> d) slept \<and> sum_list slept \<le> 420"
proof -
  let ?ds = "[100, 250] :: int list"
  have "fetchStateLedgerReadWithRetry operation random (Some ?ds) = Some (r, slept)"
    using assms by (simp add: fetchStateLedgerReadWithRetry_def STATE_LEDGER_READ_RETRY_DELAYS_MS_def)
  moreover obtain n where n: "n \<le> length ?ds"
    "fetchStateLedgerReadWithRetry operation random (Some ?ds) = Some (operation n, sleeps random ?ds n)"
    using ledger_fetch_returns by blast
  ultimately have n: "n \<le> 2" "slept = sleeps random ?ds n" by simp_all
  have a: "80 \<le> jitterStateLedgerReadDelay 100 x" "jitterStateLedgerReadDelay 100 x \<le> 120" for x
    using jitter_bounds [of 100 x] by linarith+
  have b: "200 \<le> jitterStateLedgerReadDelay 250 x" "jitterStateLedgerReadDelay 250 x \<le> 300" for x
    using jitter_bounds [of 250 x] by linarith+
  have "n = 0 \<or> n = 1 \<or> n = 2" using n(1) by linarith
  then show ?thesis
    using n(2) a [of "random 0"] b [of "random 1"] by (auto simp: upt_rec)
qed

text \<open>The retry loop of the research reads returns, whatever the operation does: n failures that
  are retried, n at most the number of delays, then a success or a failure that is not retried; the
  sleeps are the first n delays, every failure is reported once and in order, and a failure leaves
  as a boundary error with the request id of the caller.\<close>

theorem research_read_terminates:
  "\<exists>n. n \<le> length ds \<and> list_all (\<lambda>i. error_retried ds i (operation i)) [0..<n]
    \<and> \<not> error_retried ds n (operation n)
    \<and> withResearchReadRetry operation rid (Some tool) (Some ds) =
      Some (case operation n of
        Inr a \<Rightarrow> (Inr a, take n ds, failures_upto operation rid tool ds n)
      | Inl e \<Rightarrow> (Inl (surfaced_error rid e), take n ds, failures_upto operation rid tool ds (Suc n)))"
  using research_fetch_returns [of ds operation rid tool] by (simp add: withResearchReadRetry_def)

text \<open>The budget and the opacity of the research reads: at most two sleeps and 2 seconds with
  the delays of the code, a deterministic failure is never retried, an unknown one only at the first
  call, and what is thrown is a boundary error whose message is a fixed text or was safe already.\<close>

theorem research_read_budget:
  assumes "withResearchReadRetry operation rid tool None = Some (res, slept, events)"
  shows "length slept \<le> 2 \<and> sum_list slept \<le> 2000
    \<and> list_all (\<lambda>e. fe_will_retry e \<longrightarrow> fe_failure_class e \<noteq> DETERMINISTIC
         \<and> (fe_failure_class e = UNKNOWN \<longrightarrow> fe_attempt e = 1)) events
    \<and> (case res of Inr a \<Rightarrow> length events = length slept
       | Inl e \<Rightarrow> length events = length slept + 1
         \<and> (\<exists>code retryable message r. e = BoundaryError code retryable message r
             \<and> (message \<in> {''research read backend unavailable; retry later'',
                  ''research read backend failed; retry is not advised''}
                \<or> (\<exists>n c w q. operation n = Inl (BoundaryError c w message q)))))"
proof -
  let ?ds = "[500, 1500] :: int list"
  obtain t where t: "research_loop operation rid t ?ds 0 [] [] = Some (res, slept, events)"
    using assms by (auto simp: withResearchReadRetry_def RESEARCH_READ_RETRY_DELAYS_MS_def)
  obtain n where n: "n \<le> length ?ds" "research_loop operation rid t ?ds 0 [] [] = Some (case operation n of
        Inr a \<Rightarrow> (Inr a, take n ?ds, failures_upto operation rid t ?ds n)
      | Inl e \<Rightarrow> (Inl (surfaced_error rid e), take n ?ds, failures_upto operation rid t ?ds (Suc n)))"
    using research_fetch_returns by blast
  have n: "n \<le> 2" "Some (res, slept, events) = Some (case operation n of
        Inr a \<Rightarrow> (Inr a, take n ?ds, failures_upto operation rid t ?ds n)
      | Inl e \<Rightarrow> (Inl (surfaced_error rid e), take n ?ds, failures_upto operation rid t ?ds (Suc n)))"
    using n(1) n(2) [unfolded t] by simp_all
  have ev: "list_all (\<lambda>e. fe_will_retry e \<longrightarrow> fe_failure_class e \<noteq> DETERMINISTIC
         \<and> (fe_failure_class e = UNKNOWN \<longrightarrow> fe_attempt e = 1)) (failures_upto operation rid t ?ds m)" for m
    by (auto simp: failures_upto_def list_all_iff failure_event_of_def will_retry_def should_retry_class
        split: prod.splits)
  have len: "length (failures_upto operation rid t ?ds m) = m" for m by (simp add: failures_upto_def)
  have sl: "slept = take n ?ds" using n(2) by (auto split: sum.splits)
  have "n = 0 \<or> n = 1 \<or> n = 2" using n(1) by linarith
  then have slept: "length slept = n" "sum_list slept \<le> 2000" by (auto simp: sl)
  show ?thesis
  proof (cases "operation n")
    case (Inr a)
    then show ?thesis using n slept ev [of n] len by simp
  next
    case (Inl e)
    then have r: "res = Inl (surfaced_error rid e)" "events = failures_upto operation rid t ?ds (Suc n)"
      using n(2) by simp_all
    obtain code retryable message r' where b: "surfaced_error rid e = BoundaryError code retryable message r'"
      "(\<exists>c w q. e = BoundaryError c w message q)
       \<or> message = ''research read backend unavailable; retry later''
       \<or> message = ''research read backend failed; retry is not advised''"
      using surfaced_boundary [of rid e] by blast
    then show ?thesis using n(1) slept ev [of "Suc n"] len [of "Suc n"] r Inl by auto
  qed
qed

text \<open>A read that is busy once, and one whose table does not exist.\<close>

definition busy_once :: "nat \<Rightarrow> (string, unit) attempt" where
  "busy_once n = (if n = 0 then Answered 503 () else Answered 200 ())"

theorem ledger_read_wait_bounded_witness:
  "\<exists>r slept. fetchStateLedgerReadWithRetry busy_once (\<lambda>_. 1 / 2) None = Some (r, slept) \<and> slept = [100] \<and> length slept \<le> 2"
proof -
  have "fetchStateLedgerReadWithRetry busy_once (\<lambda>_. 1 / 2) None = Some (Answered 200 (), [100])"
  proof -
    have "transient_attempt (busy_once 0)" "response_ok 200" "busy_once 1 = Answered 200 ()"
      "jitterStateLedgerReadDelay 100 (1 / 2) = 100" by code_simp+
    then show ?thesis
      unfolding fetchStateLedgerReadWithRetry_def STATE_LEDGER_READ_RETRY_DELAYS_MS_def
      by (simp add: ledger_loop_step [of _ _ _ 0] ledger_loop_step [of _ _ _ "Suc 0"])
  qed
  with ledger_read_wait_bounded [OF this] show ?thesis by blast
qed

definition no_table :: "nat \<Rightarrow> js_error + unit" where
  "no_table n = Inl (ErrorObject (Some ''Error'') ''D1_ERROR: no such table: research'' None)"

theorem research_read_budget_witness:
  "\<exists>e events. withResearchReadRetry no_table ''r'' None None = Some (Inl e, [], events) \<and> length events = 1"
proof -
  have "withResearchReadRetry no_table ''r'' None None =
    Some (Inl (BoundaryError ''STORE_UNAVAILABLE'' False ''research read backend failed; retry is not advised'' ''r''), [],
      [\<lparr>fe_request_id = ''r'', fe_tool = ''research_read'', fe_attempt = 1, fe_max_attempts = 3, fe_will_retry = False,
        fe_failure_class = DETERMINISTIC, fe_diagnostic_code = ''DETERMINISTIC_BACKEND_QUERY_OR_CONFIG'',
        fe_source_error_name = ''Error''\<rparr>])"
  proof -
    have "\<not> will_retry [500, 1500] 0 (ErrorObject (Some ''Error'') ''D1_ERROR: no such table: research'' None)"
      "failureMetadata (ErrorObject (Some ''Error'') ''D1_ERROR: no such table: research'' None) =
        (DETERMINISTIC, ''DETERMINISTIC_BACKEND_QUERY_OR_CONFIG'', ''Error'')"
      "surfaced_error ''r'' (ErrorObject (Some ''Error'') ''D1_ERROR: no such table: research'' None) =
        BoundaryError ''STORE_UNAVAILABLE'' False ''research read backend failed; retry is not advised'' ''r''"
      by code_simp+
    then show ?thesis
      unfolding withResearchReadRetry_def RESEARCH_READ_RETRY_DELAYS_MS_def
      by (simp add: research_loop_step [of _ _ _ _ 0] no_table_def failure_event_of_def)
  qed
  with research_read_budget [OF this] show ?thesis by simp
qed

end
