(* ===== verification/Ledger_Comments.thy ===== *)
theory Ledger_Comments
  imports Read_Retry Js_Date
begin

text \<open>
  What the market ledger and the investment ledger (\<open>src/src/market-ledger.ts\<close>,
  \<open>src/src/investment-ledger.ts\<close>) share: the comments of a GitHub issue as an append-only store.
  GitHub is a parameter: a function from the requests made so far and the next request to what
  \<open>fetch\<close> does with it. Every operation returns the requests it has made with its result, so that
  what was posted is part of what is proved. The two files repeat the code that is here written once.
\<close>

section \<open>Comments\<close>

text \<open>The body of a comment, as the readers look at it: none or empty, one with a fenced JSON
  block and what \<open>JSON.parse\<close> makes of that block, or one without a block and what \<open>JSON.parse\<close>
  makes of the whole.\<close>

datatype comment_body = NoBody | Block raw_text | Plain raw_text

record github_comment =
  gc_id :: "string option"
  gc_html_url :: "string option"
  gc_url :: "string option"
  gc_created_at :: "string option"
  gc_body :: comment_body

text \<open>What \<open>response.json()\<close> gives: an exception, a list of comments, one comment, another value.\<close>

datatype payload = NotJson | Comments "github_comment list" | Comment github_comment | OtherJson

record response =
  rs_payload :: payload
  rs_link :: "string option"

datatype request = GetList string | GetComment string | Post string comment_body

type_synonym github = "request list \<Rightarrow> request \<Rightarrow> (unit, response) attempt"

text \<open>An error of a ledger (code, message, HTTP status), or an exception that is none.\<close>

datatype 'c ledger_error = LedgerError 'c string "int option" | RawError string

record 'p ledger_comment =
  comment_id :: string
  comment_url :: string
  created_at :: string
  comment_payload :: 'p

section \<open>JSON\<close>

text \<open>What \<open>JSON.stringify\<close> makes of the numbers that JSON does not have; on the values this
  leaves, rendering is injective.\<close>

fun json_image :: "jsval \<Rightarrow> jsval" where
  "json_image (JNum (Fin q)) = JNum (Fin q)"
| "json_image (JNum _) = JNull"
| "json_image (JArr xs) = JArr (map json_image xs)"
| "json_image (JObj ob) = JObj (map (\<lambda>(k, v). (k, json_image v)) ob)"
| "json_image v = v"

fun canonicalize :: "jsval \<Rightarrow> jsval" where
  "canonicalize (JArr xs) = JArr (map canonicalize xs)"
| "canonicalize (JObj ob) = JObj (sort_key fst (map (\<lambda>(k, v). (k, canonicalize v)) ob))"
| "canonicalize v = v"

text \<open>\<open>JSON.stringify(canonicalize(left)) === JSON.stringify(canonicalize(right))\<close>\<close>

definition json_equals :: "jsval \<Rightarrow> jsval \<Rightarrow> bool" where
  "json_equals left right \<longleftrightarrow> json_image (canonicalize left) = json_image (canonicalize right)"

text \<open>Whether the rendered text holds three backquotes: only a string or a key can.\<close>

abbreviation fence :: string where
  "fence \<equiv> [CHR 0x60, CHR 0x60, CHR 0x60]"

fun has_fence :: "jsval \<Rightarrow> bool" where
  "has_fence (JStr s) = mentions s fence"
| "has_fence (JArr xs) = list_ex has_fence xs"
| "has_fence (JObj ob) = list_ex (\<lambda>(k, v). mentions k fence \<or> has_fence v) ob"
| "has_fence v = False"

text \<open>The body that is posted: the rendered value in a fenced block. The pattern of the readers ends
  the block at the first three backquotes, so a value that has them in a text is cut inside that
  text, and what is left is not JSON.\<close>

definition rendered_body :: "jsval \<Rightarrow> comment_body" where
  "rendered_body v = Block (if has_fence v then BadText else JsonText (json_image v))"

section \<open>Requests\<close>

text \<open>\<open>encodeURIComponent\<close> and \<open>URLSearchParams\<close> on the characters that occur here: those that are
  not letters, digits, \<open>-\<close>, \<open>_\<close> or \<open>.\<close> become percent codes.\<close>

definition percent_code :: "char \<Rightarrow> string" where
  "percent_code c =
     (let n = (of_char c :: nat); hex = ''0123456789ABCDEF'' in
      if c \<in> set ''ABCDEFGHIJKLMNOPQRSTUVWXYZabcdefghijklmnopqrstuvwxyz0123456789-_.'' then [c]
      else [CHR ''%'', hex ! (n div 16), hex ! (n mod 16)])"

definition percent_encode :: "string \<Rightarrow> string" where
  "percent_encode s = concat (map percent_code s)"

definition commentsUrl :: "int \<Rightarrow> string" where
  "commentsUrl issue =
     ''https://api.github.com/repos/zhushihao/quantpro-collector/issues/'' @ show_int issue @ ''/comments''"

definition commentUrl :: "string \<Rightarrow> string" where
  "commentUrl commentId =
     ''https://api.github.com/repos/zhushihao/quantpro-collector/issues/comments/'' @ percent_encode commentId"

fun split_at :: "char \<Rightarrow> string \<Rightarrow> string list" where
  "split_at sep [] = [[]]"
| "split_at sep (c # cs) =
     (if c = sep then [] # split_at sep cs
      else (case split_at sep cs of [] \<Rightarrow> [[c]] | part # parts \<Rightarrow> (c # part) # parts))"

text \<open>\<open>/^<([^>]+)>;\s*rel="([^"]+)"$/\<close>: the two groups.\<close>

definition link_groups :: "string \<Rightarrow> (string \<times> string) option" where
  "link_groups s =
     do { r1 \<leftarrow> p_char CHR ''<'' s;
          let url = takeWhile (\<lambda>c. c \<noteq> CHR ''>'') r1;
          r2 \<leftarrow> p_char CHR ''>'' (dropWhile (\<lambda>c. c \<noteq> CHR ''>'') r1);
          r3 \<leftarrow> p_char CHR '';'' r2;
          let r4 = dropWhile is_space r3;
          if url \<noteq> [] \<and> take 5 r4 = ''rel='' @ [CHR 0x22] then
            (let rel = takeWhile (\<lambda>c. c \<noteq> CHR 0x22) (drop 5 r4) in
             if rel \<noteq> [] \<and> dropWhile (\<lambda>c. c \<noteq> CHR 0x22) (drop 5 r4) = [CHR 0x22] then Some (url, rel) else None)
          else None }"

definition parseNextLink :: "string option \<Rightarrow> string option" where
  "parseNextLink link =
     (case link of None \<Rightarrow> None
      | Some l \<Rightarrow> if l = '''' then None else
         map_option fst (find (\<lambda>g. snd g = ''next'') (List.map_filter (\<lambda>part. link_groups (js_trim part)) (split_at CHR '','' l))))"

text \<open>A read with its retries: the requests it has made and what the last of them did. The loop always
  returns (\<open>Read_Retry.ledger_read_terminates\<close>), so \<open>the\<close> is on a value.\<close>

definition read_with_retry ::
  "github \<Rightarrow> (nat \<Rightarrow> rat) \<Rightarrow> request \<Rightarrow> request list \<Rightarrow> request list \<times> (unit, response) attempt" where
  "read_with_retry fetch random req trace =
     (let (r, slept) = the (fetchStateLedgerReadWithRetry (\<lambda>n. fetch (trace @ replicate n req) req) random None)
      in (trace @ replicate (length slept + 1) req, r))"

text \<open>The loop over the pages; the number is what is left of the page limit.\<close>

fun fetch_pages ::
  "nat \<Rightarrow> 'c \<Rightarrow> github \<Rightarrow> (nat \<Rightarrow> rat) \<Rightarrow> string option \<Rightarrow> github_comment list \<Rightarrow> request list
   \<Rightarrow> request list \<times> ('c ledger_error + github_comment list)" where
  "fetch_pages left unavailable fetch random None comments trace = (trace, Inr comments)"
| "fetch_pages 0 unavailable fetch random (Some target) comments trace =
     (trace, Inl (LedgerError unavailable ''GitHub issue comment pagination exceeded the safety limit'' None))"
| "fetch_pages (Suc left) unavailable fetch random (Some target) comments trace =
     (case read_with_retry fetch random (GetList target) trace of
        (trace', Threw _) \<Rightarrow>
          (trace', Inl (LedgerError unavailable ''GitHub issue comment read request failed'' None))
      | (trace', Answered status response) \<Rightarrow>
          if \<not> response_ok status then
            (trace', Inl (LedgerError unavailable (''GitHub issue comment read failed with HTTP '' @ show_int status) (Some status)))
          else (case rs_payload response of
            NotJson \<Rightarrow> (trace', Inl (RawError ''SyntaxError''))
          | Comments cs \<Rightarrow>
              fetch_pages left unavailable fetch random (parseNextLink (rs_link response)) (comments @ cs) trace'
          | _ \<Rightarrow> (trace', Inl (LedgerError unavailable ''GitHub issue comment response is not an array'' None))))"

definition MAX_COMMENT_PAGES :: nat where
  "MAX_COMMENT_PAGES = 100"

definition list_url :: "int \<Rightarrow> string option \<Rightarrow> string" where
  "list_url issue since =
     commentsUrl issue @ ''?per_page=100&sort=created&direction=asc''
     @ (case since of None \<Rightarrow> '''' | Some s \<Rightarrow> if s = '''' then '''' else ''&since='' @ percent_encode s)"

definition fetch_comments ::
  "'c \<Rightarrow> int \<Rightarrow> string option \<Rightarrow> github \<Rightarrow> (nat \<Rightarrow> rat) \<Rightarrow> request list
   \<Rightarrow> request list \<times> ('c ledger_error + github_comment list)" where
  "fetch_comments unavailable issue since fetch random trace =
     fetch_pages MAX_COMMENT_PAGES unavailable fetch random (Some (list_url issue since)) [] trace"

section \<open>Reading and appending a comment\<close>

definition to_comment :: "(comment_body \<Rightarrow> 'p option) \<Rightarrow> github_comment \<Rightarrow> 'p ledger_comment option" where
  "to_comment parse comment =
     (case parse (gc_body comment) of
        None \<Rightarrow> None
      | Some payload \<Rightarrow>
        (let commentId = (case gc_id comment of None \<Rightarrow> '''' | Some i \<Rightarrow> i);
             createdAt = (case gc_created_at comment of None \<Rightarrow> '''' | Some t \<Rightarrow> t);
             url = (case gc_html_url comment of Some u \<Rightarrow> u
                    | None \<Rightarrow> (case gc_url comment of Some u \<Rightarrow> u | None \<Rightarrow> ''''))
         in if commentId = '''' \<or> createdAt = '''' \<or> url = '''' then None
            else Some \<lparr>comment_id = commentId, comment_url = url, created_at = createdAt, comment_payload = payload\<rparr>))"

text \<open>What differs between the two appends: the codes and the texts of the errors.\<close>

record 'c append_texts =
  at_issue :: int
  at_unavailable :: 'c
  at_readback_failed :: 'c
  at_readback_subject :: string
  at_mismatch :: string

fun as_comment :: "payload \<Rightarrow> github_comment" where
  "as_comment (Comment c) = c"
| "as_comment _ = \<lparr>gc_id = None, gc_html_url = None, gc_url = None, gc_created_at = None, gc_body = NoBody\<rparr>"

definition read_back ::
  "'c append_texts \<Rightarrow> (comment_body \<Rightarrow> 'p option) \<Rightarrow> ('p \<Rightarrow> bool) \<Rightarrow> github \<Rightarrow> (nat \<Rightarrow> rat) \<Rightarrow> string \<Rightarrow> request list
   \<Rightarrow> request list \<times> ('c ledger_error + 'p ledger_comment)" where
  "read_back ts parse same fetch random createdId trace =
     (case read_with_retry fetch random (GetComment (commentUrl createdId)) trace of
        (trace', Threw _) \<Rightarrow>
          (trace', Inl (LedgerError (at_readback_failed ts) (''GitHub '' @ at_readback_subject ts @ '' readback request failed'') None))
      | (trace', Answered status response) \<Rightarrow>
          if \<not> response_ok status then
            (trace', Inl (LedgerError (at_readback_failed ts)
               (''GitHub '' @ at_readback_subject ts @ '' readback failed with HTTP '' @ show_int status) (Some status)))
          else if rs_payload response = NotJson then (trace', Inl (RawError ''SyntaxError''))
          else (case to_comment parse (as_comment (rs_payload response)) of
            None \<Rightarrow> (trace', Inl (LedgerError (at_readback_failed ts) (at_mismatch ts) None))
          | Some readback \<Rightarrow>
              if same (comment_payload readback) then (trace', Inr readback)
              else (trace', Inl (LedgerError (at_readback_failed ts) (at_mismatch ts) None))))"

definition post_and_read_back ::
  "'c append_texts \<Rightarrow> jsval \<Rightarrow> (comment_body \<Rightarrow> 'p option) \<Rightarrow> ('p \<Rightarrow> bool) \<Rightarrow> github \<Rightarrow> (nat \<Rightarrow> rat) \<Rightarrow> request list
   \<Rightarrow> request list \<times> ('c ledger_error + 'p ledger_comment)" where
  "post_and_read_back ts v parse same fetch random trace =
     (let post = Post (commentsUrl (at_issue ts)) (rendered_body v); trace' = trace @ [post] in
      case fetch trace post of
        Threw _ \<Rightarrow> (trace', Inl (LedgerError (at_unavailable ts) ''GitHub issue comment append request failed'' None))
      | Answered status response \<Rightarrow>
          if \<not> response_ok status then
            (trace', Inl (LedgerError (at_unavailable ts) (''GitHub issue comment append failed with HTTP '' @ show_int status) (Some status)))
          else if rs_payload response = NotJson then (trace', Inl (RawError ''SyntaxError''))
          else (case gc_id (as_comment (rs_payload response)) of
            None \<Rightarrow> (trace', Inl (LedgerError (at_readback_failed ts) ''GitHub append response did not contain a comment id'' None))
          | Some createdId \<Rightarrow>
              if createdId = '''' then
                (trace', Inl (LedgerError (at_readback_failed ts) ''GitHub append response did not contain a comment id'' None))
              else read_back ts parse same fetch random createdId trace'))"

text \<open>\<open>xs[xs.length - 1] ?? null\<close>\<close>

definition last_of :: "'a list \<Rightarrow> 'a option" where
  "last_of xs = (if xs = [] then None else Some (last xs))"

section \<open>Facts\<close>

fun is_post :: "request \<Rightarrow> bool" where
  "is_post (Post _ _) = True"
| "is_post _ = False"

abbreviation posts :: "request list \<Rightarrow> request list" where
  "posts trace \<equiv> filter is_post trace"

text \<open>A read appends one to three copies of its request.\<close>

lemma read_with_retry_trace:
  "\<exists>n r. read_with_retry fetch random req trace = (trace @ replicate (Suc n) req, r) \<and> n \<le> 2
    \<and> r = fetch (trace @ replicate n req) req"
proof -
  let ?op = "\<lambda>n. fetch (trace @ replicate n req) req"
  obtain n where "n \<le> length [100 :: int, 250]"
    "fetchStateLedgerReadWithRetry ?op random (Some [100, 250]) = Some (?op n, sleeps random [100, 250] n)"
    using ledger_fetch_returns by blast
  then show ?thesis
    by (intro exI [of _ n])
      (simp add: read_with_retry_def fetchStateLedgerReadWithRetry_def STATE_LEDGER_READ_RETRY_DELAYS_MS_def)
qed

lemma read_with_retry_posts:
  "read_with_retry fetch random req trace = (trace', r) \<Longrightarrow> \<not> is_post req \<Longrightarrow>
   posts trace' = posts trace \<and> length trace' \<le> length trace + 3"
  using read_with_retry_trace [of fetch random req trace] by (auto simp: filter_replicate)

lemma fetch_pages_trace:
  "fetch_pages left code fetch random next comments trace = (trace', r) \<Longrightarrow>
   posts trace' = posts trace \<and> length trace' \<le> length trace + 3 * left"
proof (induction left code fetch random "next" comments trace rule: fetch_pages.induct)
  case (3 left code fetch random target comments trace)
  obtain t a where t: "read_with_retry fetch random (GetList target) trace = (t, a)" by fastforce
  have p: "posts t = posts trace \<and> length t \<le> length trace + 3"
    by (rule read_with_retry_posts [OF t]) simp
  have ih: "posts trace' = posts t \<and> length trace' \<le> length t + 3 * left"
    if "a = Answered status response" "response_ok status" "rs_payload response = Comments cs"
      "fetch_pages left code fetch random (parseNextLink (rs_link response)) (comments @ cs) t = (trace', r)"
    for status response cs
    by (rule "3.IH" [OF t [symmetric] that(1) _ that(3,4)]) (simp add: that(2))
  show ?case using "3.prems" t p ih by (fastforce split: attempt.splits if_splits payload.splits)
qed auto

lemma fetch_comments_trace:
  "fetch_comments code issue since fetch random trace = (trace', r) \<Longrightarrow>
   posts trace' = posts trace \<and> length trace' \<le> length trace + 300"
  unfolding fetch_comments_def MAX_COMMENT_PAGES_def by (drule fetch_pages_trace) simp

lemma read_back_trace:
  assumes "read_back ts parse same fetch random i trace = (trace', r)"
  shows "posts trace' = posts trace \<and> length trace' \<le> length trace + 3"
proof -
  obtain t a where t: "read_with_retry fetch random (GetComment (commentUrl i)) trace = (t, a)" by fastforce
  have "posts t = posts trace \<and> length t \<le> length trace + 3" by (rule read_with_retry_posts [OF t]) simp
  then show ?thesis
    using assms t by (auto simp: read_back_def split: attempt.splits if_splits option.splits)
qed

text \<open>What the append does to the store and what its success says, whatever GitHub answers.\<close>

lemma post_and_read_back_trace:
  assumes "post_and_read_back ts v parse same fetch random trace = (trace', r)"
  shows "posts trace' = posts trace @ [Post (commentsUrl (at_issue ts)) (rendered_body v)]
    \<and> length trace' \<le> length trace + 4"
  using assms read_back_trace [of ts parse same fetch random _ "trace @ [Post (commentsUrl (at_issue ts)) (rendered_body v)]"]
  by (fastforce simp: post_and_read_back_def Let_def split: attempt.splits if_splits option.splits)

lemma read_back_Inr:
  assumes "read_back ts parse same fetch random i trace = (trace', Inr c)"
  shows "same (comment_payload c) \<and> (\<exists>b. parse b = Some (comment_payload c))"
  using assms
  by (auto simp: read_back_def to_comment_def Let_def split: prod.splits attempt.splits if_splits option.splits)

lemma post_and_read_back_Inr:
  assumes "post_and_read_back ts v parse same fetch random trace = (trace', Inr c)"
  shows "same (comment_payload c) \<and> (\<exists>b. parse b = Some (comment_payload c))"
  using assms
  by (auto simp: post_and_read_back_def Let_def split: attempt.splits if_splits option.splits dest: read_back_Inr)

lemma post_and_read_back_error:
  assumes "post_and_read_back ts v parse same fetch random trace = (trace', Inl (LedgerError c m h))"
  shows "c = at_unavailable ts \<or> c = at_readback_failed ts"
  using assms
  by (auto simp: post_and_read_back_def read_back_def Let_def split: prod.splits attempt.splits if_splits option.splits)

text \<open>A read that succeeds at once.\<close>

lemma read_with_retry_ok:
  assumes "fetch trace req = Answered status response" "response_ok status"
  shows "read_with_retry fetch random req trace = (trace @ [req], Answered status response)"
proof -
  let ?op = "\<lambda>n. fetch (trace @ replicate n req) req"
  have "ledger_loop ?op random [100, 250] 0 [] = Some (?op 0, [])"
    using assms by (subst ledger_loop_step) simp
  then show ?thesis
    using assms by (simp add: read_with_retry_def fetchStateLedgerReadWithRetry_def STATE_LEDGER_READ_RETRY_DELAYS_MS_def)
qed

text \<open>A store that keeps what it is given: the POST is answered with an id, and the comment of that id
  is read back with the posted body.\<close>

definition keeps_post :: "github \<Rightarrow> int \<Rightarrow> jsval \<Rightarrow> request list \<Rightarrow> string \<Rightarrow> string \<Rightarrow> string \<Rightarrow> bool" where
  "keeps_post fetch issue v trace i url created \<longleftrightarrow>
     (let post = Post (commentsUrl issue) (rendered_body v) in
      i \<noteq> '''' \<and> url \<noteq> '''' \<and> created \<noteq> ''''
      \<and> (case fetch trace post of
           Answered status r \<Rightarrow> response_ok status \<and> rs_payload r \<noteq> NotJson \<and> gc_id (as_comment (rs_payload r)) = Some i
         | Threw _ \<Rightarrow> False)
      \<and> (case fetch (trace @ [post]) (GetComment (commentUrl i)) of
           Answered status r \<Rightarrow> response_ok status \<and> rs_payload r = Comment
             \<lparr>gc_id = Some i, gc_html_url = Some url, gc_url = None, gc_created_at = Some created, gc_body = rendered_body v\<rparr>
         | Threw _ \<Rightarrow> False))"

lemma post_and_read_back_kept:
  assumes "keeps_post fetch (at_issue ts) v trace i url created" "parse (rendered_body v) = Some p" "same p"
  shows "\<exists>trace'. post_and_read_back ts v parse same fetch random trace =
    (trace', Inr \<lparr>comment_id = i, comment_url = url, created_at = created, comment_payload = p\<rparr>)"
proof -
  let ?post = "Post (commentsUrl (at_issue ts)) (rendered_body v)"
  let ?t = "trace @ [?post]"
  obtain status r where p: "fetch trace ?post = Answered status r" "response_ok status" "rs_payload r \<noteq> NotJson"
      "gc_id (as_comment (rs_payload r)) = Some i" "i \<noteq> ''''" "url \<noteq> ''''" "created \<noteq> ''''"
    using assms(1) by (auto simp: keeps_post_def Let_def split: attempt.splits)
  obtain status' r' where g: "fetch ?t (GetComment (commentUrl i)) = Answered status' r'" "response_ok status'"
      "rs_payload r' = Comment \<lparr>gc_id = Some i, gc_html_url = Some url, gc_url = None, gc_created_at = Some created,
          gc_body = rendered_body v\<rparr>"
    using assms(1) by (auto simp: keeps_post_def Let_def split: attempt.splits)
  have "read_back ts parse same fetch random i ?t = (?t @ [GetComment (commentUrl i)],
      Inr \<lparr>comment_id = i, comment_url = url, created_at = created, comment_payload = p\<rparr>)"
    unfolding read_back_def read_with_retry_ok [where fetch = fetch and trace = ?t and req = "GetComment (commentUrl i)", OF g(1,2)]
    using g(2,3) p assms(2,3) by (simp add: to_comment_def)
  then show ?thesis using p by (simp add: post_and_read_back_def Let_def)
qed

lemma post_and_read_back_unreadable:
  assumes "keeps_post fetch (at_issue ts) v trace i url created" "parse (rendered_body v) = None"
  shows "\<exists>trace'. post_and_read_back ts v parse same fetch random trace =
    (trace', Inl (LedgerError (at_readback_failed ts) (at_mismatch ts) None))"
proof -
  let ?post = "Post (commentsUrl (at_issue ts)) (rendered_body v)"
  let ?t = "trace @ [?post]"
  obtain status r where p: "fetch trace ?post = Answered status r" "response_ok status" "rs_payload r \<noteq> NotJson"
      "gc_id (as_comment (rs_payload r)) = Some i" "i \<noteq> ''''"
    using assms(1) by (auto simp: keeps_post_def Let_def split: attempt.splits)
  obtain status' r' where g: "fetch ?t (GetComment (commentUrl i)) = Answered status' r'" "response_ok status'"
      "rs_payload r' = Comment \<lparr>gc_id = Some i, gc_html_url = Some url, gc_url = None, gc_created_at = Some created,
          gc_body = rendered_body v\<rparr>"
    using assms(1) by (auto simp: keeps_post_def Let_def split: attempt.splits)
  have "read_back ts parse same fetch random i ?t = (?t @ [GetComment (commentUrl i)],
      Inl (LedgerError (at_readback_failed ts) (at_mismatch ts) None))"
    unfolding read_back_def read_with_retry_ok [where fetch = fetch and trace = ?t and req = "GetComment (commentUrl i)", OF g(1,2)]
    using g(2,3) assms(2) by (simp add: to_comment_def)
  then show ?thesis using p by (simp add: post_and_read_back_def Let_def)
qed

lemma fetch_comments_single:
  assumes "fetch trace (GetList (list_url issue since)) = Answered status \<lparr>rs_payload = Comments cs, rs_link = None\<rparr>"
    "response_ok status"
  shows "fetch_comments code issue since fetch random trace = (trace @ [GetList (list_url issue since)], Inr cs)"
proof -
  have m: "MAX_COMMENT_PAGES = Suc 99" by (simp add: MAX_COMMENT_PAGES_def)
  note r = read_with_retry_ok [where fetch = fetch and trace = trace and req = "GetList (list_url issue since)", OF assms]
  show ?thesis
    unfolding fetch_comments_def m fetch_pages.simps r
    by (simp add: assms(2) parseNextLink_def)
qed

text \<open>The comment that a posted value becomes.\<close>

definition stored_comment :: "jsval \<Rightarrow> string \<Rightarrow> string \<Rightarrow> string \<Rightarrow> github_comment" where
  "stored_comment v i url created =
     \<lparr>gc_id = Some i, gc_html_url = Some url, gc_url = None, gc_created_at = Some created, gc_body = rendered_body v\<rparr>"

lemma stored_comment_read:
  assumes "parse (rendered_body v) = Some p" "i \<noteq> ''''" "url \<noteq> ''''" "created \<noteq> ''''"
  shows "to_comment parse (stored_comment v i url created) =
    Some \<lparr>comment_id = i, comment_url = url, created_at = created, comment_payload = p\<rparr>"
  using assms by (simp add: to_comment_def stored_comment_def)

text \<open>Canonical JSON: the order of the properties does not matter.\<close>

lemma json_equals_refl [simp]: "json_equals v v"
  and json_equals_sym: "json_equals v w \<Longrightarrow> json_equals w v"
  and json_equals_trans: "json_equals u v \<Longrightarrow> json_equals v w \<Longrightarrow> json_equals u w"
  by (simp_all add: json_equals_def)

lemma sort_key_fst_unique:
  fixes xs ys :: "(string \<times> 'a) list"
  assumes "mset xs = mset ys" "distinct (map fst xs)"
  shows "sort_key fst xs = sort_key fst ys"
proof -
  have d: "distinct (map fst (sort_key fst zs))" if "mset zs = mset xs" for zs
    using that assms(2) by (metis mset_eq_imp_distinct_iff mset_map mset_sort)
  have st: "set (sort_key fst xs) = set (sort_key fst ys)" using assms(1) by (metis mset_eq_setD set_sort)
  have "inj_on fst (set (sort_key fst xs) \<union> set (sort_key fst ys))"
    using d [of xs] unfolding st [symmetric] by (simp add: distinct_map)
  from map_sorted_distinct_set_unique [OF this _ _ _ _ st] show ?thesis
    using d assms(1) by simp
qed

lemma json_equals_permuted:
  assumes "mset ob = mset ob'" "distinct (map fst ob)"
  shows "json_equals (JObj ob) (JObj ob')"
proof -
  let ?f = "\<lambda>(k, v). (k, canonicalize v)"
  have "mset (map ?f ob) = mset (map ?f ob')" using assms(1) by simp
  moreover have "map fst (map ?f ob) = map fst ob" by (simp add: case_prod_beta comp_def)
  ultimately have "sort_key fst (map ?f ob) = sort_key fst (map ?f ob')"
    using assms(2) by (intro sort_key_fst_unique) (simp_all only:)
  then show ?thesis by (simp add: json_equals_def)
qed

lemma json_image_idem [simp]: "json_image (json_image v) = json_image v"
  by (induction v rule: json_image.induct) (auto simp: comp_def split: prod.splits)

lemma sort_key_map_values:
  "map (\<lambda>(k, v). (k, f v)) (sort_key fst xs) = sort_key fst (map (\<lambda>(k, v). (k, f v)) xs)"
proof -
  have i: "map (\<lambda>(k, v). (k, f v)) (insort_key fst x ys) = insort_key fst (fst x, f (snd x)) (map (\<lambda>(k, v). (k, f v)) ys)"
    for x ys by (cases x) (induction ys, auto)
  show ?thesis by (induction xs) (auto simp: i)
qed

lemma json_image_number: "json_image (JNum n) = canonicalize (json_image (JNum n))"
  by (cases n) simp_all

lemma json_image_canonicalize: "json_image (canonicalize v) = canonicalize (json_image v)"
proof (induction v rule: canonicalize.induct)
  case (1 xs)
  then show ?case by simp
next
  case (2 ob)
  then have "map (\<lambda>(k, v). (k, json_image v)) (map (\<lambda>(k, v). (k, canonicalize v)) ob)
      = map (\<lambda>(k, v). (k, canonicalize v)) (map (\<lambda>(k, v). (k, json_image v)) ob)"
    by (auto simp: case_prod_beta)
  then show ?case by (simp only: canonicalize.simps json_image.simps sort_key_map_values)
qed (simp_all add: json_image_number [symmetric])

text \<open>A value and what its rendered text is read as are equal for the code.\<close>

lemma json_equals_image: "json_equals (json_image v) v"
  by (simp add: json_equals_def json_image_canonicalize)

section \<open>Comparators\<close>

text \<open>A comparator whose sign flips with its arguments, as \<open>localeCompare\<close> promises; the code chains
  such comparators (\<open>if (c !== 0) return c; ...\<close>).\<close>

locale three_way = comparator +
  assumes cmp_flip: "cmp x y < 0 \<longleftrightarrow> 0 < cmp y x"
begin

lemma cmp_zero: "cmp x y = 0 \<longleftrightarrow> cmp x y \<le> 0 \<and> cmp y x \<le> 0"
  using cmp_flip [of x y] cmp_flip [of y x] by auto

lemma cmp_refl: "cmp x x = 0"
  using cmp_flip [of x x] by auto

lemma cmp_image: "three_way (\<lambda>a b. cmp (f a) (f b))"
  by unfold_locales (use cmp_total cmp_flip in \<open>auto intro: cmp_trans\<close>)

end

definition chain :: "('a \<Rightarrow> 'a \<Rightarrow> int) \<Rightarrow> ('a \<Rightarrow> 'a \<Rightarrow> int) \<Rightarrow> 'a \<Rightarrow> 'a \<Rightarrow> int" where
  "chain c d x y = (if c x y \<noteq> 0 then c x y else d x y)"

lemma chain_three_way:
  assumes "three_way c" "three_way d"
  shows "three_way (chain c d)"
proof
  note ct = comparator.cmp_total [OF three_way.axioms(1) [OF assms(1)]]
    and cr = comparator.cmp_trans [OF three_way.axioms(1) [OF assms(1)]] and cz = three_way.cmp_zero [OF assms(1)]
    and cf = three_way.cmp_flip [OF assms(1)]
  note dt = comparator.cmp_total [OF three_way.axioms(1) [OF assms(2)]]
    and dr = comparator.cmp_trans [OF three_way.axioms(1) [OF assms(2)]] and df = three_way.cmp_flip [OF assms(2)]
  have le: "chain c d x y \<le> 0 \<longleftrightarrow> c x y < 0 \<or> (c x y \<le> 0 \<and> c y x \<le> 0 \<and> d x y \<le> 0)" for x y
    using cz [of x y] by (auto simp: chain_def)
  show "chain c d x y \<le> 0 \<or> chain c d y x \<le> 0" for x y
    unfolding le using cf [of x y] cf [of y x] dt [of x y] by linarith
  show "chain c d x z \<le> 0" if "chain c d x y \<le> 0" "chain c d y z \<le> 0" for x y z
  proof -
    have "c x y \<le> 0" "c y z \<le> 0" using that unfolding le by linarith+
    then have xz: "c x z \<le> 0" by (rule cr)
    show ?thesis
    proof (cases "c x z < 0")
      case True
      then show ?thesis by (simp add: le)
    next
      case False
      then have "c z x \<le> 0" using cf [of x z] by linarith
      then have "c y x \<le> 0" "c z y \<le> 0" using cr \<open>c x y \<le> 0\<close> \<open>c y z \<le> 0\<close> by blast+
      then have "d x y \<le> 0" "d y z \<le> 0" using that cf [of x y] cf [of y z] unfolding le by linarith+
      then have "d x z \<le> 0" by (rule dr)
      then show ?thesis using xz \<open>c z x \<le> 0\<close> by (simp add: le)
    qed
  qed
  show "chain c d x y < 0 \<longleftrightarrow> 0 < chain c d y x" for x y
    using cf [of x y] cf [of y x] df [of x y] by (auto simp: chain_def)
qed

interpretation cu_three: three_way cu_cmp
  by unfold_locales (auto simp: cu_cmp_def)

text \<open>Filtering commutes with the stable sort.\<close>

context comparator
begin

lemma filter_insert:
  "ordered ys \<Longrightarrow> filter P (insert_by cmp x ys) = (if P x then insert_by cmp x (filter P ys) else filter P ys)"
proof (induction ys)
  case (Cons y ys)
  have o: "ordered ys" using Cons.prems by (simp add: ordered_def)
  have le: "cmp y z \<le> 0" if "z \<in> set ys" for z using Cons.prems that by (simp add: ordered_def)
  show ?case
  proof (cases "cmp x y \<le> 0")
    case True
    have "insert_by cmp x (filter P ys) = x # filter P ys"
    proof (cases "filter P ys")
      case (Cons z zs)
      then have "z \<in> set ys" by (metis filter_is_subset list.set_intros(1) subsetD)
      then have "cmp x z \<le> 0" using le cmp_trans True by blast
      then show ?thesis using Cons by simp
    qed simp
    then show ?thesis using True by simp
  next
    case False
    then show ?thesis using Cons.IH [OF o] by simp
  qed
qed simp

lemma filter_sort: "filter P (sort_by cmp xs) = sort_by cmp (filter P xs)"
proof (induction xs)
  case (Cons x xs)
  have "ordered (sort_by cmp xs)" by (rule ordered_sort)
  with filter_insert Cons show ?case by (simp add: sort_by_def)
qed (simp add: sort_by_def)

end

end
