(* ===== verification/Zod_Schemas.thy ===== *)
theory Zod_Schemas
  imports Js_Prelude "HOL-Library.Monad_Syntax"
begin

text \<open>
  The combinators of the schema library that the modelled sources use (\<open>z.string().min(..).max(..)\<close>,
  \<open>z.enum\<close>, \<open>z.array(..).max(..)\<close>, \<open>z.union([.., z.null()])\<close>, \<open>.strict()\<close>), with their documented
  meaning: the accepted value, or \<open>None\<close> for a schema error. The list of the issues of an error
  is not represented.
\<close>

section \<open>Combinators\<close>

definition z_text :: "nat \<Rightarrow> nat \<Rightarrow> jsval option \<Rightarrow> string option" where
  "z_text lo hi v =
     (case as_string v of None \<Rightarrow> None | Some s \<Rightarrow> if lo \<le> length s \<and> length s \<le> hi then Some s else None)"

definition z_text_or_null :: "nat \<Rightarrow> nat \<Rightarrow> jsval option \<Rightarrow> string option option" where
  "z_text_or_null lo hi v = (if v = Some JNull then Some None else map_option Some (z_text lo hi v))"

definition z_enum :: "string list \<Rightarrow> jsval option \<Rightarrow> string option" where
  "z_enum cases v = (case as_string v of None \<Rightarrow> None | Some s \<Rightarrow> if s \<in> set cases then Some s else None)"

fun all_some :: "'a option list \<Rightarrow> 'a list option" where
  "all_some [] = Some []"
| "all_some (None # xs) = None"
| "all_some (Some x # xs) = map_option ((#) x) (all_some xs)"

definition z_array :: "nat \<Rightarrow> (jsval \<Rightarrow> 'a option) \<Rightarrow> jsval option \<Rightarrow> 'a list option" where
  "z_array hi item v =
     (case as_array v of None \<Rightarrow> None | Some xs \<Rightarrow> if length xs \<le> hi then all_some (map item xs) else None)"

definition z_strict :: "string list \<Rightarrow> jsval option \<Rightarrow> jsobj option" where
  "z_strict keys v =
     (case v of Some (JObj ob) \<Rightarrow> if list_all (\<lambda>(k, _). k \<in> set keys) ob then Some ob else None | _ \<Rightarrow> None)"

definition filter_option :: "('a \<Rightarrow> bool) \<Rightarrow> 'a option \<Rightarrow> 'a option" where
  "filter_option P v = (case v of None \<Rightarrow> None | Some x \<Rightarrow> if P x then Some x else None)"

fun or_null :: "string option \<Rightarrow> jsval" where
  "or_null None = JNull"
| "or_null (Some s) = JStr s"

definition id_ok :: "nat \<Rightarrow> string option \<Rightarrow> bool" where
  "id_ok n v = (case v of None \<Rightarrow> True | Some i \<Rightarrow> 1 \<le> length i \<and> length i \<le> n)"

section \<open>What they accept\<close>

lemma z_text_Some: "z_text 1 hi v = Some s \<longleftrightarrow> v = Some (JStr s) \<and> id_ok hi (Some s)"
  by (auto simp: z_text_def id_ok_def split: option.splits)

lemma or_null_eq: "or_null r = JNull \<longleftrightarrow> r = None" "or_null r = JStr s \<longleftrightarrow> r = Some s"
  by (cases r; simp)+

lemma z_text_or_null_Some: "z_text_or_null 1 hi v = Some r \<longleftrightarrow> v = Some (or_null r) \<and> id_ok hi r"
  by (cases r) (auto simp: z_text_or_null_def z_text_Some simp del: One_nat_def, simp_all add: id_ok_def)

lemma z_enum_Some: "z_enum cases v = Some s \<longleftrightarrow> v = Some (JStr s) \<and> s \<in> set cases"
  by (auto simp: z_enum_def split: option.splits)

lemma all_some_Some: "all_some xs = Some ys \<longleftrightarrow> xs = map Some ys"
  by (induction xs arbitrary: ys rule: all_some.induct) auto

lemma filter_option_Some: "filter_option P v = Some x \<longleftrightarrow> v = Some x \<and> P x"
  by (auto simp: filter_option_def split: option.splits)

end
