(* ===== verification/Market_Ledger.thy ===== *)
theory Market_Ledger
  imports Ledger_Comments Zod_Schemas
begin

text \<open>
  \<open>src/src/market-ledger.ts\<close>: the checkpoints of the market observation, one per trading date and
  slot, kept as comments of a GitHub issue. The schema is written out with the documented meaning of
  the zod combinators the source uses; the text of a schema error (the list of its issues) is not
  represented. \<open>localeCompare\<close> is the parameter \<open>lc\<close>, GitHub the parameter \<open>fetch\<close>, the samples of the
  jitter the parameter \<open>random\<close>, the legacy date formats the parameter \<open>lp\<close>.
\<close>

section \<open>Data\<close>

definition MARKET_LEDGER_ISSUE_NUMBER :: int where
  "MARKET_LEDGER_ISSUE_NUMBER = 2"

definition MARKET_LEDGER_SLOTS :: "string list" where
  "MARKET_LEDGER_SLOTS = [''09:10'', ''09:50'', ''10:50'', ''11:50'', ''13:50'', ''14:50'', ''16:45'']"

datatype market_code =
    MARKET_LEDGER_UNAVAILABLE | CHECKPOINT_VALIDATION_FAILED | CHECKPOINT_CONFLICT
  | CHECKPOINT_CHAIN_MISMATCH | CHECKPOINT_READBACK_FAILED

type_synonym market_error = "market_code ledger_error"

record universe_transition =
  ut_status :: string
  ut_previous_live_universe_hash :: "string option"
  ut_current_live_universe_hash :: string
  ut_hash_changed :: bool
  ut_membership_changed :: bool
  ut_added_active :: "string list"
  ut_removed_active :: "string list"

record checkpoint =
  cp_schema_version :: string
  cp_prompt_id :: string
  cp_production_ref :: string
  cp_portfolio_version :: string
  cp_event_id :: string
  cp_idempotency_key :: string
  cp_trading_date :: string
  cp_as_of :: string
  cp_scheduled_slot :: string
  cp_producer :: string
  cp_observation_type :: string
  cp_previous_checkpoint_comment_id :: "string option"
  cp_preopen_comment_id :: "string option"
  cp_live_universe_hash :: string
  cp_source_task :: string
  cp_records :: "jsobj list"
  cp_universe_transition :: "universe_transition option"

type_synonym checkpoint_comment = "checkpoint ledger_comment"

record checkpoint_state =
  ms_status :: string
  ms_trading_date :: string
  ms_scheduled_slot :: string
  ms_preopen :: "checkpoint_comment option"
  ms_previous_checkpoint :: "checkpoint_comment option"
  ms_previous_close :: "checkpoint_comment option"
  ms_current_slot :: "checkpoint_comment option"
  ms_current_day_checkpoints :: "checkpoint_comment list"
  ms_conflicts :: "(string \<times> string list) list"

record append_result =
  ar_status :: string
  ar_comment_id :: string
  ar_url :: string
  ar_created_at :: string
  ar_checkpoint :: checkpoint

section \<open>Schemas\<close>

text \<open>\<open>CHECKPOINT_RECORD_SCHEMA\<close>: \<open>z.record(z.string().min(1), z.unknown())\<close>\<close>

definition CHECKPOINT_RECORD_SCHEMA :: "jsval \<Rightarrow> jsobj option" where
  "CHECKPOINT_RECORD_SCHEMA v =
     (case as_record v of None \<Rightarrow> None | Some ob \<Rightarrow> if list_all (\<lambda>(k, _). k \<noteq> '''') ob then Some ob else None)"

definition TRANSITION_STATUSES :: "string list" where
  "TRANSITION_STATUSES = [''BASELINE'', ''UNCHANGED'', ''MEMBERSHIP_CHANGED'', ''METADATA_CHANGED'']"

definition SCHEMA_VERSIONS :: "string list" where
  "SCHEMA_VERSIONS = [''premarket_plan_batch_v1'', ''market_observation_batch_v1'']"

definition OBSERVATION_TYPES :: "string list" where
  "OBSERVATION_TYPES = [''PREMARKET'', ''INTRADAY'', ''CLOSE'']"

definition TRANSITION_KEYS :: "string list" where
  "TRANSITION_KEYS = [''status'', ''previous_live_universe_hash'', ''current_live_universe_hash'', ''hash_changed'',
     ''membership_changed'', ''added_active'', ''removed_active'']"

definition UNIVERSE_TRANSITION_SCHEMA :: "jsval option \<Rightarrow> universe_transition option" where
  "UNIVERSE_TRANSITION_SCHEMA v =
     do { ob \<leftarrow> z_strict TRANSITION_KEYS v;
          status \<leftarrow> z_enum TRANSITION_STATUSES (fld ob ''status'');
          previous \<leftarrow> z_text_or_null 1 256 (fld ob ''previous_live_universe_hash'');
          current \<leftarrow> z_text 1 256 (fld ob ''current_live_universe_hash'');
          hashChanged \<leftarrow> as_bool (fld ob ''hash_changed'');
          membershipChanged \<leftarrow> as_bool (fld ob ''membership_changed'');
          added \<leftarrow> z_array 512 (\<lambda>x. z_text 1 128 (Some x)) (fld ob ''added_active'');
          removed \<leftarrow> z_array 512 (\<lambda>x. z_text 1 128 (Some x)) (fld ob ''removed_active'');
          Some \<lparr>ut_status = status, ut_previous_live_universe_hash = previous,
            ut_current_live_universe_hash = current, ut_hash_changed = hashChanged,
            ut_membership_changed = membershipChanged, ut_added_active = added, ut_removed_active = removed\<rparr> }"

definition BASE_KEYS :: "string list" where
  "BASE_KEYS = [''schema_version'', ''prompt_id'', ''production_ref'', ''portfolio_version'', ''event_id'',
     ''idempotency_key'', ''trading_date'', ''as_of'', ''scheduled_slot'', ''producer'', ''observation_type'',
     ''previous_checkpoint_comment_id'', ''preopen_comment_id'', ''live_universe_hash'', ''source_task'', ''records'']"

text \<open>\<open>/^[0-9a-f]{40}$/i\<close> and \<open>/^\d{4}-\d{2}-\d{2}$/\<close>\<close>

definition is_commit :: "string \<Rightarrow> bool" where
  "is_commit s \<longleftrightarrow> length s = 40 \<and> list_all (\<lambda>c. c \<in> set ''0123456789abcdefABCDEF'') s"

definition is_day_text :: "string \<Rightarrow> bool" where
  "is_day_text s \<longleftrightarrow> length s = 10 \<and> list_all is_digit (take 4 s) \<and> s ! 4 = CHR ''-''
     \<and> list_all is_digit (take 2 (drop 5 s)) \<and> s ! 7 = CHR ''-'' \<and> list_all is_digit (drop 8 s)"

definition MARKET_CHECKPOINT_BASE_SHAPE :: "jsobj \<Rightarrow> checkpoint option" where
  "MARKET_CHECKPOINT_BASE_SHAPE ob =
     do { schema \<leftarrow> z_enum SCHEMA_VERSIONS (fld ob ''schema_version'');
          prompt \<leftarrow> z_enum [''holding-assistant''] (fld ob ''prompt_id'');
          ref \<leftarrow> filter_option is_commit (as_string (fld ob ''production_ref''));
          version \<leftarrow> z_text 1 512 (fld ob ''portfolio_version'');
          event \<leftarrow> z_text 1 512 (fld ob ''event_id'');
          key \<leftarrow> z_text 1 256 (fld ob ''idempotency_key'');
          day \<leftarrow> filter_option is_day_text (as_string (fld ob ''trading_date''));
          asOf \<leftarrow> z_text 1 128 (fld ob ''as_of'');
          slot \<leftarrow> z_enum MARKET_LEDGER_SLOTS (fld ob ''scheduled_slot'');
          producer \<leftarrow> z_enum [''holding-assistant''] (fld ob ''producer'');
          observation \<leftarrow> z_enum OBSERVATION_TYPES (fld ob ''observation_type'');
          previous \<leftarrow> z_text_or_null 1 64 (fld ob ''previous_checkpoint_comment_id'');
          preopen \<leftarrow> z_text_or_null 1 64 (fld ob ''preopen_comment_id'');
          hash \<leftarrow> z_text 1 256 (fld ob ''live_universe_hash'');
          task \<leftarrow> z_text 1 128 (fld ob ''source_task'');
          records \<leftarrow> z_array 512 CHECKPOINT_RECORD_SCHEMA (fld ob ''records'');
          Some \<lparr>cp_schema_version = schema, cp_prompt_id = prompt, cp_production_ref = ref,
            cp_portfolio_version = version, cp_event_id = event, cp_idempotency_key = key,
            cp_trading_date = day, cp_as_of = asOf, cp_scheduled_slot = slot, cp_producer = producer,
            cp_observation_type = observation, cp_previous_checkpoint_comment_id = previous,
            cp_preopen_comment_id = preopen, cp_live_universe_hash = hash, cp_source_task = task,
            cp_records = records, cp_universe_transition = None\<rparr> }"

text \<open>What a caller may submit, and what is stored: the transition is the server's.\<close>

definition MARKET_CHECKPOINT_INPUT_SCHEMA :: "jsval \<Rightarrow> checkpoint option" where
  "MARKET_CHECKPOINT_INPUT_SCHEMA v = Option.bind (z_strict BASE_KEYS (Some v)) MARKET_CHECKPOINT_BASE_SHAPE"

definition MARKET_CHECKPOINT_SCHEMA :: "jsval \<Rightarrow> checkpoint option" where
  "MARKET_CHECKPOINT_SCHEMA v =
     do { ob \<leftarrow> z_strict (BASE_KEYS @ [''universe_transition'']) (Some v);
          cp \<leftarrow> MARKET_CHECKPOINT_BASE_SHAPE ob;
          (if has_key ob ''universe_transition''
           then map_option (\<lambda>t. cp\<lparr>cp_universe_transition := Some t\<rparr>)
                  (UNIVERSE_TRANSITION_SCHEMA (fld ob ''universe_transition''))
           else Some cp) }"

text \<open>A checkpoint as the object it is.\<close>

definition transition_object :: "universe_transition \<Rightarrow> jsval" where
  "transition_object t = JObj
     [(''status'', JStr (ut_status t)),
      (''previous_live_universe_hash'', or_null (ut_previous_live_universe_hash t)),
      (''current_live_universe_hash'', JStr (ut_current_live_universe_hash t)),
      (''hash_changed'', JBool (ut_hash_changed t)),
      (''membership_changed'', JBool (ut_membership_changed t)),
      (''added_active'', JArr (map JStr (ut_added_active t))),
      (''removed_active'', JArr (map JStr (ut_removed_active t)))]"

definition checkpoint_object :: "checkpoint \<Rightarrow> jsval" where
  "checkpoint_object cp = JObj
     ([(''schema_version'', JStr (cp_schema_version cp)), (''prompt_id'', JStr (cp_prompt_id cp)),
       (''production_ref'', JStr (cp_production_ref cp)), (''portfolio_version'', JStr (cp_portfolio_version cp)),
       (''event_id'', JStr (cp_event_id cp)), (''idempotency_key'', JStr (cp_idempotency_key cp)),
       (''trading_date'', JStr (cp_trading_date cp)), (''as_of'', JStr (cp_as_of cp)),
       (''scheduled_slot'', JStr (cp_scheduled_slot cp)), (''producer'', JStr (cp_producer cp)),
       (''observation_type'', JStr (cp_observation_type cp)),
       (''previous_checkpoint_comment_id'', or_null (cp_previous_checkpoint_comment_id cp)),
       (''preopen_comment_id'', or_null (cp_preopen_comment_id cp)),
       (''live_universe_hash'', JStr (cp_live_universe_hash cp)), (''source_task'', JStr (cp_source_task cp)),
       (''records'', JArr (map JObj (cp_records cp)))]
      @ (case cp_universe_transition cp of None \<Rightarrow> [] | Some t \<Rightarrow> [(''universe_transition'', transition_object t)]))"

definition checkpointEquals :: "checkpoint \<Rightarrow> checkpoint \<Rightarrow> bool" where
  "checkpointEquals left right = json_equals (checkpoint_object left) (checkpoint_object right)"

section \<open>Validation\<close>

definition failed :: "string \<Rightarrow> market_error" where
  "failed m = LedgerError CHECKPOINT_VALIDATION_FAILED m None"

definition validateCheckpointRelations :: "(string \<Rightarrow> int option) \<Rightarrow> checkpoint \<Rightarrow> market_error + unit" where
  "validateCheckpointRelations lp cp =
     bindE (throw_if
       [(cp_idempotency_key cp \<noteq> ''holding-assistant:'' @ cp_trading_date cp @ '':'' @ cp_scheduled_slot cp,
         failed ''idempotency_key does not match trading_date and scheduled_slot''),
        (date_parse lp (cp_as_of cp) = None, failed ''as_of is not a valid ISO date-time'')]) (\<lambda>_.
     if cp_scheduled_slot cp = ''09:10'' then
       throw_if
         [(cp_schema_version cp \<noteq> ''premarket_plan_batch_v1'' \<or> cp_observation_type cp \<noteq> ''PREMARKET'',
           failed ''09:10 checkpoint must use PREMARKET contract''),
          (cp_previous_checkpoint_comment_id cp \<noteq> None \<or> cp_preopen_comment_id cp \<noteq> None,
           failed ''PREMARKET checkpoint cannot reference earlier same-day comments'')]
     else
       (let expectedObservation = (if cp_scheduled_slot cp = ''16:45'' then ''CLOSE'' else ''INTRADAY'') in
        throw_if
          [(cp_schema_version cp \<noteq> ''market_observation_batch_v1'',
            failed ''non-PREMARKET checkpoint must use market_observation_batch_v1''),
           (cp_observation_type cp \<noteq> expectedObservation,
            failed (cp_scheduled_slot cp @ '' checkpoint observation_type must be '' @ expectedObservation))]))"

text \<open>A body without a fenced block, or whose block is no valid checkpoint, is no checkpoint.\<close>

definition parseCheckpointPayload :: "(string \<Rightarrow> int option) \<Rightarrow> comment_body \<Rightarrow> checkpoint option" where
  "parseCheckpointPayload lp body =
     (case body of
        Block (JsonText v) \<Rightarrow>
          (case MARKET_CHECKPOINT_SCHEMA v of
             None \<Rightarrow> None
           | Some cp \<Rightarrow> (case validateCheckpointRelations lp cp of Inl _ \<Rightarrow> None | Inr _ \<Rightarrow> Some cp))
      | _ \<Rightarrow> None)"

definition toCheckpointComment :: "(string \<Rightarrow> int option) \<Rightarrow> github_comment \<Rightarrow> checkpoint_comment option" where
  "toCheckpointComment lp comment = to_comment (parseCheckpointPayload lp) comment"

section \<open>The state of a day\<close>

fun index_of :: "'a \<Rightarrow> 'a list \<Rightarrow> int" where
  "index_of x [] = - 1"
| "index_of x (y # ys) = (if x = y then 0 else if index_of x ys < 0 then - 1 else index_of x ys + 1)"

definition slotIndex :: "string \<Rightarrow> int" where
  "slotIndex slot = index_of slot MARKET_LEDGER_SLOTS"

definition compareCheckpointOrder ::
  "(string \<Rightarrow> string \<Rightarrow> int) \<Rightarrow> checkpoint_comment \<Rightarrow> checkpoint_comment \<Rightarrow> int" where
  "compareCheckpointOrder lc =
     chain (\<lambda>a b. lc (cp_trading_date (comment_payload a)) (cp_trading_date (comment_payload b)))
    (chain (\<lambda>a b. slotIndex (cp_scheduled_slot (comment_payload a)) - slotIndex (cp_scheduled_slot (comment_payload b)))
    (chain (\<lambda>a b. lc (created_at a) (created_at b)) (\<lambda>a b. lc (comment_id a) (comment_id b))))"

text \<open>\<open>byKey\<close>: the groups in the order of their first element.\<close>

fun add_to_group :: "string \<Rightarrow> 'a \<Rightarrow> (string \<times> 'a list) list \<Rightarrow> (string \<times> 'a list) list" where
  "add_to_group k x [] = [(k, [x])]"
| "add_to_group k x ((k', xs) # gs) = (if k' = k then (k', xs @ [x]) # gs else (k', xs) # add_to_group k x gs)"

definition group_by_key :: "('a \<Rightarrow> string) \<Rightarrow> 'a list \<Rightarrow> (string \<times> 'a list) list" where
  "group_by_key f xs = foldl (\<lambda>gs x. add_to_group (f x) x gs) [] xs"

definition buildState ::
  "(string \<Rightarrow> int option) \<Rightarrow> (string \<Rightarrow> string \<Rightarrow> int) \<Rightarrow> github_comment list \<Rightarrow> string \<Rightarrow> string \<Rightarrow> checkpoint_state" where
  "buildState lp lc rawComments tradingDate scheduledSlot =
     (let cmp = compareCheckpointOrder lc;
          valid = sort_by cmp (List.map_filter (toCheckpointComment lp) rawComments);
          byKey = group_by_key (\<lambda>c. cp_idempotency_key (comment_payload c)) valid;
          conflicts = map (\<lambda>(k, cs). (k, map comment_id cs)) (filter (\<lambda>(_, cs). 1 < length cs) byKey);
          currentDay = filter (\<lambda>c. cp_trading_date (comment_payload c) = tradingDate) valid;
          previousCandidates = sort_by cmp
            (filter (\<lambda>c. slotIndex (cp_scheduled_slot (comment_payload c)) < slotIndex scheduledSlot) currentDay);
          currentKey = ''holding-assistant:'' @ tradingDate @ '':'' @ scheduledSlot;
          previousCloseCandidates = sort_by cmp
            (filter (\<lambda>c. cp_trading_date (comment_payload c) < tradingDate
                          \<and> cp_observation_type (comment_payload c) = ''CLOSE'') valid)
      in \<lparr>ms_status = (if conflicts \<noteq> [] then ''CHECKPOINT_CONFLICT'' else ''OK''),
          ms_trading_date = tradingDate, ms_scheduled_slot = scheduledSlot,
          ms_preopen = find (\<lambda>c. cp_scheduled_slot (comment_payload c) = ''09:10'') currentDay,
          ms_previous_checkpoint = last_of previousCandidates,
          ms_previous_close = last_of previousCloseCandidates,
          ms_current_slot = (case map_of byKey currentKey of Some (c # _) \<Rightarrow> Some c | _ \<Rightarrow> None),
          ms_current_day_checkpoints = currentDay, ms_conflicts = conflicts\<rparr>)"

section \<open>The universe transition\<close>

definition trimmed_text :: "jsval option \<Rightarrow> string option" where
  "trimmed_text v = (case as_string v of None \<Rightarrow> None | Some s \<Rightarrow> if js_trim s = '''' then None else Some (js_trim s))"

definition active_key :: "jsobj \<Rightarrow> nat \<Rightarrow> market_error + string option" where
  "active_key rec i =
     (if fld rec ''holding_status'' \<noteq> Some (JStr ''ACTIVE'') then Inr None
      else (case (trimmed_text (fld rec ''subject_key''), trimmed_text (fld rec ''instrument_key'')) of
        (Some s, Some k) \<Rightarrow>
          if s \<noteq> k then Inl (failed ''ACTIVE record subject_key conflicts with instrument_key'') else Inr (Some s)
      | (Some s, None) \<Rightarrow> Inr (Some s)
      | (None, Some k) \<Rightarrow> Inr (Some k)
      | (None, None) \<Rightarrow> Inl (failed ''ACTIVE record is missing subject_key/instrument_key'')))"

definition activeInstrumentKeys :: "checkpoint \<Rightarrow> market_error + string list" where
  "activeInstrumentKeys cp =
     bindE (mapE active_key (cp_records cp)) (\<lambda>keys. Inr (sort (js_set (List.map_filter id keys))))"

definition withUniverseTransition :: "checkpoint \<Rightarrow> checkpoint option \<Rightarrow> market_error + checkpoint" where
  "withUniverseTransition cp previous =
     (case (if cp_scheduled_slot cp = ''09:10'' then None else previous) of
        None \<Rightarrow> Inr (cp\<lparr>cp_universe_transition := Some
          \<lparr>ut_status = ''BASELINE'', ut_previous_live_universe_hash = None,
           ut_current_live_universe_hash = cp_live_universe_hash cp, ut_hash_changed = False,
           ut_membership_changed = False, ut_added_active = [], ut_removed_active = []\<rparr>\<rparr>)
      | Some previousCheckpoint \<Rightarrow>
          bindE (activeInstrumentKeys previousCheckpoint) (\<lambda>previousActive.
          bindE (activeInstrumentKeys cp) (\<lambda>currentActive.
          (let addedActive = filter (\<lambda>k. k \<notin> set previousActive) currentActive;
               removedActive = filter (\<lambda>k. k \<notin> set currentActive) previousActive;
               membershipChanged = (addedActive \<noteq> [] \<or> removedActive \<noteq> []);
               hashChanged = (cp_live_universe_hash cp \<noteq> cp_live_universe_hash previousCheckpoint) in
           if membershipChanged \<and> \<not> hashChanged
           then Inl (failed ''ACTIVE membership changed without a corresponding live_universe_hash change'')
           else Inr (cp\<lparr>cp_universe_transition := Some
             \<lparr>ut_status = (if membershipChanged then ''MEMBERSHIP_CHANGED''
                           else if hashChanged then ''METADATA_CHANGED'' else ''UNCHANGED''),
              ut_previous_live_universe_hash = Some (cp_live_universe_hash previousCheckpoint),
              ut_current_live_universe_hash = cp_live_universe_hash cp, ut_hash_changed = hashChanged,
              ut_membership_changed = membershipChanged, ut_added_active = addedActive,
              ut_removed_active = removedActive\<rparr>\<rparr>)))))"

section \<open>Reading and appending\<close>

definition RECENT_LOOKBACK_DAYS :: int where
  "RECENT_LOOKBACK_DAYS = 60"

definition recentSince :: "(string \<Rightarrow> int option) \<Rightarrow> string \<Rightarrow> market_error + string" where
  "recentSince lp tradingDate =
     (case date_parse lp (tradingDate @ ''T00:00:00+08:00'') of
        None \<Rightarrow> Inl (failed ''trading_date is not a valid calendar date'')
      | Some t \<Rightarrow> Inr (to_iso (t - RECENT_LOOKBACK_DAYS * ms_per_day)))"

definition fetchComments ::
  "string option \<Rightarrow> github \<Rightarrow> (nat \<Rightarrow> rat) \<Rightarrow> request list \<Rightarrow> request list \<times> (market_error + github_comment list)" where
  "fetchComments since fetch random trace =
     fetch_comments MARKET_LEDGER_UNAVAILABLE MARKET_LEDGER_ISSUE_NUMBER since fetch random trace"

definition getMarketCheckpoints ::
  "(string \<Rightarrow> int option) \<Rightarrow> (string \<Rightarrow> string \<Rightarrow> int) \<Rightarrow> github \<Rightarrow> (nat \<Rightarrow> rat) \<Rightarrow> string \<Rightarrow> string \<Rightarrow> string
   \<Rightarrow> request list \<Rightarrow> request list \<times> (market_error + checkpoint_state)" where
  "getMarketCheckpoints lp lc fetch random token tradingDate scheduledSlot trace =
     (if token = '''' then
        (trace, Inl (LedgerError MARKET_LEDGER_UNAVAILABLE ''GitHub ledger credential is not configured'' None))
      else (case recentSince lp tradingDate of
        Inl e \<Rightarrow> (trace, Inl e)
      | Inr since \<Rightarrow>
      (case fetchComments (Some since) fetch random trace of
        (t1, Inl e) \<Rightarrow> (t1, Inl e)
      | (t1, Inr recent) \<Rightarrow>
          (let state = buildState lp lc recent tradingDate scheduledSlot in
           if ms_previous_close state \<noteq> None then (t1, Inr state)
           else (case fetchComments None fetch random t1 of
             (t2, Inl e) \<Rightarrow> (t2, Inl e)
           | (t2, Inr allComments) \<Rightarrow> (t2, Inr (buildState lp lc allComments tradingDate scheduledSlot)))))))"

definition market_texts :: "market_code append_texts" where
  "market_texts = \<lparr>at_issue = MARKET_LEDGER_ISSUE_NUMBER, at_unavailable = MARKET_LEDGER_UNAVAILABLE,
     at_readback_failed = CHECKPOINT_READBACK_FAILED, at_readback_subject = ''checkpoint'',
     at_mismatch = ''persisted checkpoint does not match the submitted checkpoint''\<rparr>"

definition result_of :: "string \<Rightarrow> checkpoint_comment \<Rightarrow> append_result" where
  "result_of status c = \<lparr>ar_status = status, ar_comment_id = comment_id c, ar_url = comment_url c,
     ar_created_at = created_at c, ar_checkpoint = comment_payload c\<rparr>"

text \<open>What is decided once the state is read: an error, a replay, or the checkpoint to post.\<close>

definition append_decision ::
  "(string \<Rightarrow> int option) \<Rightarrow> checkpoint \<Rightarrow> checkpoint_state \<Rightarrow> market_error + (append_result + checkpoint)" where
  "append_decision lp submitted state =
     (if ms_status state = ''CHECKPOINT_CONFLICT''
      then Inl (LedgerError CHECKPOINT_CONFLICT ''market ledger already contains duplicate checkpoint keys'' None)
      else
      bindE (withUniverseTransition submitted (map_option comment_payload (ms_previous_checkpoint state))) (\<lambda>cp.
      bindE (validateCheckpointRelations lp cp) (\<lambda>_.
      (case ms_current_slot state of
         Some current \<Rightarrow>
           if checkpointEquals submitted (comment_payload current) \<or> checkpointEquals cp (comment_payload current)
           then Inr (Inl (result_of ''IDEMPOTENT_REPLAY'' current))
           else Inl (LedgerError CHECKPOINT_CONFLICT ''same checkpoint idempotency key already exists with different content'' None)
       | None \<Rightarrow>
           if cp_previous_checkpoint_comment_id cp \<noteq> map_option comment_id (ms_previous_checkpoint state)
           then Inl (LedgerError CHECKPOINT_CHAIN_MISMATCH
             ''previous_checkpoint_comment_id does not match the server-side ledger state'' None)
           else if cp_preopen_comment_id cp
               \<noteq> (if cp_scheduled_slot cp = ''09:10'' then None else map_option comment_id (ms_preopen state))
           then Inl (LedgerError CHECKPOINT_CHAIN_MISMATCH
             ''preopen_comment_id does not match the server-side ledger state'' None)
           else Inr (Inr cp)))))"

definition appendMarketCheckpoint ::
  "(string \<Rightarrow> int option) \<Rightarrow> (string \<Rightarrow> string \<Rightarrow> int) \<Rightarrow> github \<Rightarrow> (nat \<Rightarrow> rat) \<Rightarrow> string \<Rightarrow> jsval
   \<Rightarrow> request list \<Rightarrow> request list \<times> (market_error + append_result)" where
  "appendMarketCheckpoint lp lc fetch random token v trace =
     (case MARKET_CHECKPOINT_INPUT_SCHEMA v of
        None \<Rightarrow> (trace, Inl (failed ''checkpoint does not match the exact market ledger schema''))
      | Some submitted \<Rightarrow>
      (case validateCheckpointRelations lp submitted of
        Inl e \<Rightarrow> (trace, Inl e)
      | Inr _ \<Rightarrow>
      (case getMarketCheckpoints lp lc fetch random token (cp_trading_date submitted) (cp_scheduled_slot submitted) trace of
        (t1, Inl e) \<Rightarrow> (t1, Inl e)
      | (t1, Inr state) \<Rightarrow>
      (case append_decision lp submitted state of
        Inl e \<Rightarrow> (t1, Inl e)
      | Inr (Inl replay) \<Rightarrow> (t1, Inr replay)
      | Inr (Inr cp) \<Rightarrow>
      (case post_and_read_back market_texts (checkpoint_object cp) (parseCheckpointPayload lp)
              (\<lambda>p. checkpointEquals p cp) fetch random t1 of
        (t2, Inl e) \<Rightarrow> (t2, Inl e)
      | (t2, Inr c) \<Rightarrow> (t2, Inr (result_of ''PERSISTED'' c)))))))"

section \<open>Facts: ordering and grouping\<close>

lemma difference_three_way: "three_way (\<lambda>a b. (f a :: int) - f b)"
  by unfold_locales auto

lemma compare_three_way:
  assumes "three_way lc"
  shows "three_way (compareCheckpointOrder lc)"
  unfolding compareCheckpointOrder_def
  by (intro chain_three_way difference_three_way three_way.cmp_image [OF assms])

lemma map_of_add_to_group:
  "map_of (add_to_group k x gs) k' =
     (if k' = k then Some ((case map_of gs k of None \<Rightarrow> [] | Some xs \<Rightarrow> xs) @ [x]) else map_of gs k')"
  by (induction k x gs rule: add_to_group.induct) auto

lemma map_of_group_aux:
  "map_of (foldl (\<lambda>gs x. add_to_group (f x) x gs) gs xs) k =
     (if filter (\<lambda>x. f x = k) xs = [] then map_of gs k
      else Some ((case map_of gs k of None \<Rightarrow> [] | Some ys \<Rightarrow> ys) @ filter (\<lambda>x. f x = k) xs))"
  by (induction xs arbitrary: gs) (auto simp: map_of_add_to_group filter_empty_conv split: option.splits)

lemma map_of_group:
  "map_of (group_by_key f xs) k = (if filter (\<lambda>x. f x = k) xs = [] then None else Some (filter (\<lambda>x. f x = k) xs))"
  by (simp add: group_by_key_def map_of_group_aux)

lemma keys_add_to_group: "fst ` set (add_to_group k x gs) = insert k (fst ` set gs)"
  by (induction k x gs rule: add_to_group.induct) auto

lemma distinct_add_to_group: "distinct (map fst gs) \<Longrightarrow> distinct (map fst (add_to_group k x gs))"
proof (induction k x gs rule: add_to_group.induct)
  case (2 k x k' xs gs)
  then show ?case using keys_add_to_group [of k x gs] by auto
qed simp

lemma distinct_group_aux:
  "distinct (map fst gs) \<Longrightarrow> distinct (map fst (foldl (\<lambda>gs x. add_to_group (f x) x gs) gs xs))"
  by (induction xs arbitrary: gs) (auto intro: distinct_add_to_group)

lemma in_group: "(k, cs) \<in> set (group_by_key f xs) \<longleftrightarrow> cs = filter (\<lambda>x. f x = k) xs \<and> cs \<noteq> []"
proof -
  have "distinct (map fst (group_by_key f xs))" by (simp add: group_by_key_def distinct_group_aux)
  then have "(k, cs) \<in> set (group_by_key f xs) \<longleftrightarrow> map_of (group_by_key f xs) k = Some cs" by simp
  then show ?thesis by (auto simp: map_of_group split: if_splits)
qed

lemma length_filter_count: "length (filter (\<lambda>x. f x = k) xs) = count (mset (map f xs)) k"
  by (induction xs) auto

lemma distinct_filter_length: "distinct (map f xs) \<longleftrightarrow> (\<forall>k. length (filter (\<lambda>x. f x = k) xs) \<le> 1)"
proof -
  have e: "count (mset (map f xs)) k = (if k \<in> set (map f xs) then 1 else 0) \<longleftrightarrow> count (mset (map f xs)) k \<le> 1" for k
    by (cases "k \<in># mset (map f xs)") (auto simp: le_Suc_eq not_in_iff simp del: mset_map set_map)
  show ?thesis unfolding distinct_count_atmost_1 length_filter_count by (simp only: e)
qed

lemma no_conflicts:
  "filter (\<lambda>(_, cs). 1 < length cs) (group_by_key f xs) = [] \<longleftrightarrow> distinct (map f xs)"
proof
  assume L: "filter (\<lambda>(_, cs). 1 < length cs) (group_by_key f xs) = []"
  have "length (filter (\<lambda>x. f x = k) xs) \<le> 1" for k
  proof (cases "filter (\<lambda>x. f x = k) xs = []")
    case False
    then have "(k, filter (\<lambda>x. f x = k) xs) \<in> set (group_by_key f xs)" by (simp only: in_group simp_thms not_False_eq_True)
    then show ?thesis using L unfolding filter_empty_conv by fastforce
  qed simp
  then show "distinct (map f xs)" unfolding distinct_filter_length by blast
next
  assume "distinct (map f xs)"
  then have le: "length cs \<le> 1" if "(k, cs) \<in> set (group_by_key f xs)" for k cs
    using that unfolding distinct_filter_length in_group by blast
  then show "filter (\<lambda>(_, cs). 1 < length cs) (group_by_key f xs) = []"
    unfolding filter_empty_conv by (force simp: not_less dest: le)
qed

text \<open>The last of a sorted list is its greatest element.\<close>

lemma last_sorted:
  assumes "three_way cmp" "last_of (sort_by cmp xs) = Some c"
  shows "c \<in> set xs \<and> (\<forall>x \<in> set xs. cmp x c \<le> 0)"
proof -
  note sorted = comparator.ordered_sort [OF three_way.axioms(1) [OF assms(1)], of xs,
      unfolded comparator.ordered_def [OF three_way.axioms(1) [OF assms(1)]]]
  obtain ys where ys: "sort_by cmp xs = ys @ [c]"
    using assms(2) by (metis append_butlast_last_id last_of_def option.distinct(1) option.inject)
  then have "set xs = insert c (set ys)" by (metis set_sort_by set_append list.simps(15) empty_set Un_insert_right sup_bot_right)
  moreover have "cmp x c \<le> 0" if "x \<in> set ys" for x
    using sorted that unfolding ys by (simp add: sorted_wrt_append)
  moreover have "cmp c c \<le> 0" using three_way.cmp_refl [OF assms(1)] by simp
  ultimately show ?thesis by auto
qed

lemma last_of_None: "last_of (sort_by cmp xs) = None \<longleftrightarrow> xs = []"
proof -
  have "sort_by cmp xs = [] \<longleftrightarrow> xs = []" by (metis length_0_conv length_sort_by)
  then show ?thesis by (simp add: last_of_def)
qed

text \<open>A readable comment satisfies the relations, so its key names its date and its slot.\<close>

lemma relations_key:
  "validateCheckpointRelations lp cp = Inr u \<Longrightarrow>
   cp_idempotency_key cp = ''holding-assistant:'' @ cp_trading_date cp @ '':'' @ cp_scheduled_slot cp"
  by (simp add: validateCheckpointRelations_def bindE_throw_if_Inr del: throw_if.simps)

section \<open>Facts: what the schema accepts\<close>

definition keys_ok :: "string list \<Rightarrow> bool" where
  "keys_ok ks \<longleftrightarrow> length ks \<le> 512 \<and> list_all (\<lambda>k. 1 \<le> length k \<and> length k \<le> 128) ks"

definition records_ok :: "jsobj list \<Rightarrow> bool" where
  "records_ok rs \<longleftrightarrow> length rs \<le> 512 \<and> list_all (list_all (\<lambda>(k, _). k \<noteq> '''')) rs"

definition transition_ok :: "universe_transition \<Rightarrow> bool" where
  "transition_ok t \<longleftrightarrow> ut_status t \<in> set TRANSITION_STATUSES \<and> id_ok 256 (ut_previous_live_universe_hash t)
     \<and> id_ok 256 (Some (ut_current_live_universe_hash t)) \<and> keys_ok (ut_added_active t) \<and> keys_ok (ut_removed_active t)"

definition shape_ok :: "checkpoint \<Rightarrow> bool" where
  "shape_ok cp \<longleftrightarrow>
     cp_schema_version cp \<in> set SCHEMA_VERSIONS
     \<and> cp_prompt_id cp = ''holding-assistant'' \<and> is_commit (cp_production_ref cp)
     \<and> id_ok 512 (Some (cp_portfolio_version cp)) \<and> id_ok 512 (Some (cp_event_id cp))
     \<and> id_ok 256 (Some (cp_idempotency_key cp)) \<and> is_day_text (cp_trading_date cp) \<and> id_ok 128 (Some (cp_as_of cp))
     \<and> cp_scheduled_slot cp \<in> set MARKET_LEDGER_SLOTS \<and> cp_producer cp = ''holding-assistant''
     \<and> cp_observation_type cp \<in> set OBSERVATION_TYPES
     \<and> id_ok 64 (cp_previous_checkpoint_comment_id cp) \<and> id_ok 64 (cp_preopen_comment_id cp)
     \<and> id_ok 256 (Some (cp_live_universe_hash cp)) \<and> id_ok 128 (Some (cp_source_task cp)) \<and> records_ok (cp_records cp)"

lemma record_schema_Some: "CHECKPOINT_RECORD_SCHEMA v = Some ob \<longleftrightarrow> v = JObj ob \<and> list_all (\<lambda>(k, _). k \<noteq> '''') ob"
  by (cases v) (auto simp: CHECKPOINT_RECORD_SCHEMA_def)

lemma record_array: "map CHECKPOINT_RECORD_SCHEMA xs = map Some ys \<longleftrightarrow>
    xs = map JObj ys \<and> list_all (list_all (\<lambda>(k, _). k \<noteq> '''')) ys"
proof (induction ys arbitrary: xs)
  case (Cons y ys)
  show ?case using Cons.IH [of "tl xs"] by (cases xs) (auto simp: record_schema_Some )
qed simp

lemma text_array: "map (\<lambda>x. z_text 1 128 (Some x)) xs = map Some ys \<longleftrightarrow>
    xs = map JStr ys \<and> list_all (\<lambda>k. 1 \<le> length k \<and> length k \<le> 128) ys"
proof (induction ys arbitrary: xs)
  case (Cons y ys)
  show ?case using Cons.IH [of "tl xs"] by (cases xs) (auto simp: z_text_Some id_ok_def simp del: One_nat_def)
qed simp

lemma z_records: "z_array 512 CHECKPOINT_RECORD_SCHEMA v = Some rs \<longleftrightarrow> v = Some (JArr (map JObj rs)) \<and> records_ok rs"
  by (auto simp: z_array_def all_some_Some record_array records_ok_def split: option.splits)

lemma z_keys: "z_array 512 (\<lambda>x. z_text 1 128 (Some x)) v = Some ks \<longleftrightarrow> v = Some (JArr (map JStr ks)) \<and> keys_ok ks"
  by (auto simp: z_array_def all_some_Some text_array keys_ok_def split: option.splits simp del: One_nat_def)

lemmas schema_simps = z_text_Some z_text_or_null_Some z_enum_Some filter_option_Some z_records z_keys
  bind_eq_Some_conv as_string_Some as_bool_Some

lemma schema_eval:
  "id_ok hi (Some s) \<Longrightarrow> z_text 1 hi (Some (JStr s)) = Some s"
  "id_ok hi r \<Longrightarrow> z_text_or_null 1 hi (Some (or_null r)) = Some r"
  "s \<in> set cases \<Longrightarrow> z_enum cases (Some (JStr s)) = Some s"
  "P x \<Longrightarrow> filter_option P (Some x) = Some x"
  "records_ok rs \<Longrightarrow> z_array 512 CHECKPOINT_RECORD_SCHEMA (Some (JArr (map JObj rs))) = Some rs"
  "keys_ok ks \<Longrightarrow> z_array 512 (\<lambda>x. z_text 1 128 (Some x)) (Some (JArr (map JStr ks))) = Some ks"
  by (simp_all only: z_text_Some z_text_or_null_Some z_enum_Some filter_option_Some z_records z_keys simp_thms)

text \<open>An object is accepted exactly when its properties are those of a checkpoint in shape.\<close>

definition shape_fields :: "jsobj \<Rightarrow> checkpoint \<Rightarrow> bool" where
  "shape_fields ob cp \<longleftrightarrow>
     fld ob ''schema_version'' = Some (JStr (cp_schema_version cp)) \<and> fld ob ''prompt_id'' = Some (JStr (cp_prompt_id cp))
     \<and> fld ob ''production_ref'' = Some (JStr (cp_production_ref cp))
     \<and> fld ob ''portfolio_version'' = Some (JStr (cp_portfolio_version cp))
     \<and> fld ob ''event_id'' = Some (JStr (cp_event_id cp))
     \<and> fld ob ''idempotency_key'' = Some (JStr (cp_idempotency_key cp))
     \<and> fld ob ''trading_date'' = Some (JStr (cp_trading_date cp)) \<and> fld ob ''as_of'' = Some (JStr (cp_as_of cp))
     \<and> fld ob ''scheduled_slot'' = Some (JStr (cp_scheduled_slot cp)) \<and> fld ob ''producer'' = Some (JStr (cp_producer cp))
     \<and> fld ob ''observation_type'' = Some (JStr (cp_observation_type cp))
     \<and> fld ob ''previous_checkpoint_comment_id'' = Some (or_null (cp_previous_checkpoint_comment_id cp))
     \<and> fld ob ''preopen_comment_id'' = Some (or_null (cp_preopen_comment_id cp))
     \<and> fld ob ''live_universe_hash'' = Some (JStr (cp_live_universe_hash cp))
     \<and> fld ob ''source_task'' = Some (JStr (cp_source_task cp))
     \<and> fld ob ''records'' = Some (JArr (map JObj (cp_records cp)))"

lemma in_one: "x \<in> set [y] \<longleftrightarrow> x = y"
  by simp

lemma shape_iff:
  "MARKET_CHECKPOINT_BASE_SHAPE ob = Some cp \<longleftrightarrow>
     shape_fields ob cp \<and> shape_ok cp \<and> cp_universe_transition cp = None"
proof
  assume "MARKET_CHECKPOINT_BASE_SHAPE ob = Some cp"
  then show "shape_fields ob cp \<and> shape_ok cp \<and> cp_universe_transition cp = None"
    unfolding MARKET_CHECKPOINT_BASE_SHAPE_def schema_simps in_one option.inject
    apply (elim exE conjE)
    apply hypsubst
    unfolding shape_fields_def shape_ok_def checkpoint.simps
    by (intro conjI; (assumption | rule refl))
next
  assume "shape_fields ob cp \<and> shape_ok cp \<and> cp_universe_transition cp = None"
  then show "MARKET_CHECKPOINT_BASE_SHAPE ob = Some cp"
    unfolding MARKET_CHECKPOINT_BASE_SHAPE_def shape_fields_def shape_ok_def
    by (simp add: schema_eval del: One_nat_def)
qed

lemma transition_iff:
  "UNIVERSE_TRANSITION_SCHEMA v = Some t \<longleftrightarrow> transition_ok t \<and> (\<exists>ob. z_strict TRANSITION_KEYS v = Some ob
     \<and> fld ob ''status'' = Some (JStr (ut_status t))
     \<and> fld ob ''previous_live_universe_hash'' = Some (or_null (ut_previous_live_universe_hash t))
     \<and> fld ob ''current_live_universe_hash'' = Some (JStr (ut_current_live_universe_hash t))
     \<and> fld ob ''hash_changed'' = Some (JBool (ut_hash_changed t))
     \<and> fld ob ''membership_changed'' = Some (JBool (ut_membership_changed t))
     \<and> fld ob ''added_active'' = Some (JArr (map JStr (ut_added_active t)))
     \<and> fld ob ''removed_active'' = Some (JArr (map JStr (ut_removed_active t))))"
  (is "?L = ?R")
proof
  assume ?L
  then show ?R
    unfolding UNIVERSE_TRANSITION_SCHEMA_def schema_simps option.inject
    apply (elim exE conjE)
    apply hypsubst
    unfolding transition_ok_def universe_transition.simps
    by (intro conjI exI; (assumption | rule refl))
next
  assume ?R
  then show ?L
    unfolding UNIVERSE_TRANSITION_SCHEMA_def transition_ok_def
    by (elim exE conjE) (simp add: schema_eval del: One_nat_def)
qed

lemma shape_ok_update [simp]: "shape_ok (cp\<lparr>cp_universe_transition := t\<rparr>) = shape_ok cp"
  by (simp add: shape_ok_def)

lemma schema_accepts:
  assumes "MARKET_CHECKPOINT_SCHEMA v = Some cp"
  shows "shape_ok cp"
  using assms unfolding MARKET_CHECKPOINT_SCHEMA_def
  by (auto simp: bind_eq_Some_conv shape_iff split: if_splits)

lemma input_accepts:
  "MARKET_CHECKPOINT_INPUT_SCHEMA v = Some cp \<Longrightarrow> shape_ok cp \<and> cp_universe_transition cp = None"
  by (auto simp: MARKET_CHECKPOINT_INPUT_SCHEMA_def bind_eq_Some_conv shape_iff)

text \<open>What is stored is read as what was stored, with its numbers as JSON has them.\<close>

definition image_object :: "jsobj \<Rightarrow> jsobj" where
  "image_object ob = map (\<lambda>(k, v). (k, json_image v)) ob"

lemma image_or_null [simp]: "json_image (or_null r) = or_null r"
  by (cases r) simp_all

lemma image_transition [simp]: "json_image (transition_object t) = transition_object t"
  by (simp add: transition_object_def comp_def)

lemma image_checkpoint:
  "json_image (checkpoint_object cp) = checkpoint_object (cp\<lparr>cp_records := map image_object (cp_records cp)\<rparr>)"
  by (simp add: checkpoint_object_def image_object_def comp_def split: option.splits)

lemma records_ok_image: "records_ok rs \<Longrightarrow> records_ok (map image_object rs)"
  by (simp add: records_ok_def image_object_def list_all_iff split_beta)

lemma transition_object_accepted:
  assumes "transition_ok t"
  shows "UNIVERSE_TRANSITION_SCHEMA (Some (transition_object t)) = Some t"
proof -
  have "z_strict TRANSITION_KEYS (Some (transition_object t)) =
      (case transition_object t of JObj ob \<Rightarrow> Some ob | _ \<Rightarrow> None)"
    by (simp add: z_strict_def transition_object_def TRANSITION_KEYS_def)
  then show ?thesis
    unfolding transition_iff using assms
    by (intro conjI exI [of _ "case transition_object t of JObj ob \<Rightarrow> ob | _ \<Rightarrow> []"]) (simp_all add: transition_object_def)
qed

definition base_pairs :: "checkpoint \<Rightarrow> jsobj" where
  "base_pairs cp = (case checkpoint_object (cp\<lparr>cp_universe_transition := None\<rparr>) of JObj ob \<Rightarrow> ob | _ \<Rightarrow> [])"

lemma object_pairs:
  "checkpoint_object cp = JObj (base_pairs cp @ (case cp_universe_transition cp of None \<Rightarrow> []
     | Some t \<Rightarrow> [(''universe_transition'', transition_object t)]))"
  by (simp add: base_pairs_def checkpoint_object_def)

lemma base_fields: "shape_fields (base_pairs cp) cp"
  by (simp add: shape_fields_def base_pairs_def checkpoint_object_def)

lemma base_keys: "map fst (base_pairs cp) = BASE_KEYS"
  by (simp add: base_pairs_def checkpoint_object_def BASE_KEYS_def)

lemma fld_left: "fld a k = Some v \<Longrightarrow> fld (a @ b) k = Some v"
  by (simp add: map_add_def split: option.splits)

lemma fields_append: "shape_fields a cp \<Longrightarrow> shape_fields (a @ b) cp"
  unfolding shape_fields_def by (intro conjI; elim conjE; rule fld_left; assumption)

lemma list_all_keys: "list_all (\<lambda>(k, _). k \<in> S) ob \<longleftrightarrow> set (map fst ob) \<subseteq> S"
  by (induction ob) auto

lemma stored_checkpoint_accepted:
  assumes "shape_ok cp" "cp_universe_transition cp = Some t" "transition_ok t"
  shows "MARKET_CHECKPOINT_SCHEMA (json_image (checkpoint_object cp))
    = Some (cp\<lparr>cp_records := map image_object (cp_records cp)\<rparr>)"
proof -
  define cp' where "cp' = cp\<lparr>cp_records := map image_object (cp_records cp)\<rparr>"
  define ob where "ob = base_pairs cp' @ [(''universe_transition'', transition_object t)]"
  have tr: "cp_universe_transition cp' = Some t" by (simp add: cp'_def assms(2))
  have e: "json_image (checkpoint_object cp) = JObj ob"
    unfolding image_checkpoint by (simp add: cp'_def [symmetric] object_pairs tr ob_def)
  have "shape_ok cp'"
    using assms(1) records_ok_image [of "cp_records cp"] by (simp add: shape_ok_def cp'_def)
  moreover have "shape_fields ob cp'" unfolding ob_def by (rule fields_append [OF base_fields])
  ultimately have s: "MARKET_CHECKPOINT_BASE_SHAPE ob = Some (cp'\<lparr>cp_universe_transition := None\<rparr>)"
    unfolding shape_iff by (simp add: shape_fields_def)
  have "list_all (\<lambda>(k, _). k \<in> set (BASE_KEYS @ [''universe_transition''])) ob"
    unfolding list_all_keys by (simp add: ob_def base_keys)
  then have z: "z_strict (BASE_KEYS @ [''universe_transition'']) (Some (JObj ob)) = Some ob"
    by (simp only: z_strict_def option.case jsval.case if_True)
  have n: "fld (base_pairs cp') ''universe_transition'' = None"
  proof -
    have "''universe_transition'' \<notin> set (map fst (base_pairs cp'))" unfolding base_keys by (simp add: BASE_KEYS_def)
    then show ?thesis by (simp add: map_of_eq_None_iff)
  qed
  have f: "fld ob ''universe_transition'' = Some (transition_object t)"
    using n by (simp add: ob_def map_add_def)
  have "MARKET_CHECKPOINT_SCHEMA (JObj ob) = Some (cp'\<lparr>cp_universe_transition := None, cp_universe_transition := Some t\<rparr>)"
    unfolding MARKET_CHECKPOINT_SCHEMA_def z using s f transition_object_accepted [OF assms(3)]
    by (simp add: has_key_def)
  moreover have "cp'\<lparr>cp_universe_transition := None, cp_universe_transition := Some t\<rparr> = cp'"
    using tr by (cases cp') simp
  ultimately show ?thesis unfolding e cp'_def [symmetric] by simp
qed

lemma relations_image [simp]:
  "validateCheckpointRelations lp (cp\<lparr>cp_records := rs\<rparr>) = validateCheckpointRelations lp cp"
  by (cases cp) (simp only: validateCheckpointRelations_def checkpoint.simps)

lemma equals_image: "checkpointEquals (cp\<lparr>cp_records := map image_object (cp_records cp)\<rparr>) cp"
  unfolding checkpointEquals_def image_checkpoint [symmetric] by (rule json_equals_image)

lemma readable_relations:
  assumes "toCheckpointComment lp g = Some c"
  shows "validateCheckpointRelations lp (comment_payload c) = Inr () \<and> shape_ok (comment_payload c)"
  using assms
  by (auto simp: toCheckpointComment_def to_comment_def parseCheckpointPayload_def Let_def
      split: option.splits comment_body.splits raw_text.splits sum.splits if_splits dest: schema_accepts)

section \<open>Facts: the transition\<close>

lemma active_key_cases:
  "active_key r i = Inr k \<Longrightarrow> k = (if fld r ''holding_status'' \<noteq> Some (JStr ''ACTIVE'') then None
     else (case trimmed_text (fld r ''subject_key'') of Some s \<Rightarrow> Some s | None \<Rightarrow> trimmed_text (fld r ''instrument_key'')))"
  by (auto simp: active_key_def split: if_splits option.splits)

definition key_of_active :: "jsobj \<Rightarrow> string option" where
  "key_of_active r = (if fld r ''holding_status'' \<noteq> Some (JStr ''ACTIVE'') then None
     else (case trimmed_text (fld r ''subject_key'') of Some s \<Rightarrow> Some s | None \<Rightarrow> trimmed_text (fld r ''instrument_key'')))"

lemma mapE_results:
  assumes "mapE f xs = Inr ys" "\<And>x i y. f x i = Inr y \<Longrightarrow> y = g x"
  shows "ys = map g xs"
proof (rule nth_equalityI)
  show "length ys = length (map g xs)" using assms(1) by (simp add: mapE_from_Inr)
  show "ys ! k = map g xs ! k" if "k < length ys" for k
    using assms(1) that assms(2) [of "xs ! k" k "ys ! k"] by (simp add: mapE_from_Inr)
qed

lemma activeInstrumentKeys_exact:
  assumes "activeInstrumentKeys cp = Inr ks"
  shows "sorted ks \<and> distinct ks \<and> set ks = {k. \<exists>r \<in> set (cp_records cp). key_of_active r = Some k}"
proof -
  obtain keys where k: "mapE active_key (cp_records cp) = Inr keys" "ks = sort (js_set (List.map_filter id keys))"
    using assms by (auto simp: activeInstrumentKeys_def bindE_Inr)
  have "keys = map key_of_active (cp_records cp)"
    by (rule mapE_results [OF k(1)]) (auto simp: key_of_active_def dest: active_key_cases)
  then have "set (List.map_filter id keys) = {k. \<exists>r \<in> set (cp_records cp). key_of_active r = Some k}"
    by (force simp: map_filter_def image_iff)
  then show ?thesis by (simp add: k(2))
qed

section \<open>Facts: the state\<close>

text \<open>The key of a readable comment determines its date and its slot.\<close>

definition day_slot :: "checkpoint_comment \<Rightarrow> string \<times> string" where
  "day_slot c = (cp_trading_date (comment_payload c), cp_scheduled_slot (comment_payload c))"

abbreviation readable :: "(string \<Rightarrow> int option) \<Rightarrow> github_comment list \<Rightarrow> checkpoint_comment list" where
  "readable lp raw \<equiv> List.map_filter (toCheckpointComment lp) raw"

lemma readable_facts:
  assumes "c \<in> set (readable lp raw)"
  shows "cp_idempotency_key (comment_payload c) = ''holding-assistant:'' @ fst (day_slot c) @ '':'' @ snd (day_slot c)"
    "length (fst (day_slot c)) = 10" "shape_ok (comment_payload c)"
proof -
  obtain g where "toCheckpointComment lp g = Some c"
    using assms by (auto simp: map_filter_def)
  from readable_relations [OF this] have r: "validateCheckpointRelations lp (comment_payload c) = Inr ()"
    and o: "shape_ok (comment_payload c)" by simp_all
  show "cp_idempotency_key (comment_payload c) = ''holding-assistant:'' @ fst (day_slot c) @ '':'' @ snd (day_slot c)"
    using relations_key [OF r] by (simp add: day_slot_def)
  show "length (fst (day_slot c)) = 10"
    using o by (simp add: day_slot_def shape_ok_def is_day_text_def)
  show "shape_ok (comment_payload c)" by (rule o)
qed

lemma key_iff:
  assumes "c \<in> set (readable lp raw)" "length d = 10"
  shows "cp_idempotency_key (comment_payload c) = ''holding-assistant:'' @ d @ '':'' @ s \<longleftrightarrow> day_slot c = (d, s)"
  using readable_facts [OF assms(1)] assms(2)
  by (simp add: append_eq_append_conv prod_eq_iff)

lemma distinct_map_cong:
  assumes "\<And>x y. x \<in> set xs \<Longrightarrow> y \<in> set xs \<Longrightarrow> f x = f y \<longleftrightarrow> g x = g y"
  shows "distinct (map f xs) \<longleftrightarrow> distinct (map g xs)"
  using assms by (simp add: distinct_map inj_on_def)

lemma distinct_keys:
  "distinct (map (\<lambda>c. cp_idempotency_key (comment_payload c)) (readable lp raw)) \<longleftrightarrow> distinct (map day_slot (readable lp raw))"
proof (rule distinct_map_cong)
  fix a b assume a: "a \<in> set (readable lp raw)" and b: "b \<in> set (readable lp raw)"
  show "cp_idempotency_key (comment_payload a) = cp_idempotency_key (comment_payload b) \<longleftrightarrow> day_slot a = day_slot b"
    unfolding readable_facts(1) [OF b] key_iff [OF a readable_facts(2) [OF b]] by simp
qed

text \<open>The parts of a state, over the readable comments in their order.\<close>

lemma state_parts:
  fixes raw d s lp lc
  defines "valid \<equiv> sort_by (compareCheckpointOrder lc) (readable lp raw)"
    and "st \<equiv> buildState lp lc raw d s"
  shows "ms_status st = (if distinct (map day_slot (readable lp raw)) then ''OK'' else ''CHECKPOINT_CONFLICT'')"
    "length d = 10 \<Longrightarrow> ms_current_slot st = (case filter (\<lambda>c. day_slot c = (d, s)) valid of [] \<Rightarrow> None | c # _ \<Rightarrow> Some c)"
    "ms_previous_checkpoint st = last_of (sort_by (compareCheckpointOrder lc)
       (filter (\<lambda>c. fst (day_slot c) = d \<and> slotIndex (snd (day_slot c)) < slotIndex s) valid))"
    "ms_previous_close st = last_of (sort_by (compareCheckpointOrder lc)
       (filter (\<lambda>c. fst (day_slot c) < d \<and> cp_observation_type (comment_payload c) = ''CLOSE'') valid))"
    "ms_preopen st = find (\<lambda>c. snd (day_slot c) = ''09:10'') (filter (\<lambda>c. fst (day_slot c) = d) valid)"
proof -
  let ?key = "\<lambda>c :: checkpoint_comment. cp_idempotency_key (comment_payload c)"
  have m: "mset (map ?key valid) = mset (map ?key (readable lp raw))" by (simp add: valid_def)
  show "ms_status st = (if distinct (map day_slot (readable lp raw)) then ''OK'' else ''CHECKPOINT_CONFLICT'')"
    using no_conflicts [of ?key valid] mset_eq_imp_distinct_iff [OF m]
    by (simp add: st_def buildState_def Let_def valid_def [symmetric] distinct_keys)
  show "ms_previous_checkpoint st = last_of (sort_by (compareCheckpointOrder lc)
       (filter (\<lambda>c. fst (day_slot c) = d \<and> slotIndex (snd (day_slot c)) < slotIndex s) valid))"
    by (simp add: st_def buildState_def Let_def valid_def [symmetric] day_slot_def conj_commute)
  show "ms_previous_close st = last_of (sort_by (compareCheckpointOrder lc)
       (filter (\<lambda>c. fst (day_slot c) < d \<and> cp_observation_type (comment_payload c) = ''CLOSE'') valid))"
    "ms_preopen st = find (\<lambda>c. snd (day_slot c) = ''09:10'') (filter (\<lambda>c. fst (day_slot c) = d) valid)"
    by (simp_all add: st_def buildState_def Let_def valid_def [symmetric] day_slot_def)
  assume d: "length d = 10"
  have "filter (\<lambda>c. ?key c = ''holding-assistant:'' @ d @ '':'' @ s) valid = filter (\<lambda>c. day_slot c = (d, s)) valid"
  proof (rule filter_cong [OF refl])
    fix c assume "c \<in> set valid"
    then have "c \<in> set (readable lp raw)" by (simp add: valid_def)
    from key_iff [OF this d] show "(?key c = ''holding-assistant:'' @ d @ '':'' @ s) = (day_slot c = (d, s))" .
  qed
  then show "ms_current_slot st = (case filter (\<lambda>c. day_slot c = (d, s)) valid of [] \<Rightarrow> None | c # _ \<Rightarrow> Some c)"
    by (simp only: st_def buildState_def Let_def valid_def [symmetric] map_of_group checkpoint_state.simps)
      (simp split: list.split)
qed

lemma compare_same_day:
  assumes "three_way lc" "fst (day_slot a) = fst (day_slot b)" "compareCheckpointOrder lc a b \<le> 0"
  shows "slotIndex (snd (day_slot a)) \<le> slotIndex (snd (day_slot b))"
  using assms three_way.cmp_refl [OF assms(1)]
  by (auto simp: compareCheckpointOrder_def chain_def day_slot_def split: if_splits)

lemma compare_days:
  assumes "three_way lc" "compareCheckpointOrder lc a b \<le> 0"
  shows "lc (fst (day_slot a)) (fst (day_slot b)) \<le> 0"
  using assms by (auto simp: compareCheckpointOrder_def chain_def day_slot_def split: if_splits)

section \<open>Facts: the append\<close>

lemma fetchComments_trace:
  "fetchComments since fetch random trace = (t, r) \<Longrightarrow> posts t = posts trace \<and> length t \<le> length trace + 300"
  unfolding fetchComments_def by (rule fetch_comments_trace)

lemma getMarketCheckpoints_trace:
  assumes "getMarketCheckpoints lp lc fetch random token d s trace = (t, r)"
  shows "posts t = posts trace \<and> length t \<le> length trace + 600
    \<and> (\<forall>st. r = Inr st \<longrightarrow> (\<exists>raw. st = buildState lp lc raw d s))"
  using assms
  by (auto simp: getMarketCheckpoints_def Let_def split: if_splits sum.splits prod.splits dest!: fetchComments_trace)

lemma append_decision_post:
  assumes "append_decision lp submitted st = Inr (Inr cp)"
  shows "ms_status st \<noteq> ''CHECKPOINT_CONFLICT''" "ms_current_slot st = None"
    "withUniverseTransition submitted (map_option comment_payload (ms_previous_checkpoint st)) = Inr cp"
    "validateCheckpointRelations lp cp = Inr ()"
    "cp_previous_checkpoint_comment_id cp = map_option comment_id (ms_previous_checkpoint st)"
    "cp_preopen_comment_id cp = (if cp_scheduled_slot cp = ''09:10'' then None else map_option comment_id (ms_preopen st))"
  using assms by (auto simp: append_decision_def bindE_Inr split: if_splits option.splits)

lemma transition_only:
  assumes "withUniverseTransition submitted previous = Inr cp"
  shows "\<exists>t. cp = submitted\<lparr>cp_universe_transition := Some t\<rparr>"
  using assms by (auto simp: withUniverseTransition_def bindE_Inr Let_def split: option.splits if_splits)

lemma trimmed_nonempty: "trimmed_text v = Some k \<Longrightarrow> k \<noteq> ''''"
  by (auto simp: trimmed_text_def split: option.splits if_splits)

lemma key_of_active_nonempty: "key_of_active r = Some k \<Longrightarrow> k \<noteq> ''''"
  by (auto simp: key_of_active_def split: if_splits option.splits dest: trimmed_nonempty)

lemma active_keys_bounded:
  assumes "activeInstrumentKeys cp = Inr ks" "shape_ok cp"
  shows "length ks \<le> 512"
proof -
  obtain keys where k: "mapE active_key (cp_records cp) = Inr keys" "ks = sort (js_set (List.map_filter id keys))"
    using assms(1) by (auto simp: activeInstrumentKeys_def bindE_Inr)
  have "length ks \<le> length (List.map_filter id keys)"
    by (simp add: k(2) js_set_def) (metis length_remdups_leq length_rev)
  also have "\<dots> \<le> length keys" by (simp add: map_filter_def)
  also have "\<dots> \<le> 512" using k(1) assms(2) by (simp add: mapE_from_Inr shape_ok_def records_ok_def)
  finally show ?thesis .
qed

lemma transition_cases:
  assumes "withUniverseTransition submitted previous = Inr cp" "cp_universe_transition cp = Some t"
  shows "(cp_scheduled_slot submitted = ''09:10'' \<or> previous = None)
      \<and> t = \<lparr>ut_status = ''BASELINE'', ut_previous_live_universe_hash = None,
           ut_current_live_universe_hash = cp_live_universe_hash submitted, ut_hash_changed = False,
           ut_membership_changed = False, ut_added_active = [], ut_removed_active = []\<rparr>
    \<or> (\<exists>p a b. cp_scheduled_slot submitted \<noteq> ''09:10'' \<and> previous = Some p
        \<and> activeInstrumentKeys p = Inr a \<and> activeInstrumentKeys submitted = Inr b
        \<and> ut_added_active t = filter (\<lambda>k. k \<notin> set a) b \<and> ut_removed_active t = filter (\<lambda>k. k \<notin> set b) a
        \<and> (ut_membership_changed t \<longleftrightarrow> ut_added_active t \<noteq> [] \<or> ut_removed_active t \<noteq> [])
        \<and> (ut_hash_changed t \<longleftrightarrow> cp_live_universe_hash submitted \<noteq> cp_live_universe_hash p)
        \<and> (ut_membership_changed t \<longrightarrow> ut_hash_changed t)
        \<and> ut_previous_live_universe_hash t = Some (cp_live_universe_hash p)
        \<and> ut_current_live_universe_hash t = cp_live_universe_hash submitted
        \<and> ut_status t = (if ut_membership_changed t then ''MEMBERSHIP_CHANGED''
             else if ut_hash_changed t then ''METADATA_CHANGED'' else ''UNCHANGED''))"
proof (cases "if cp_scheduled_slot submitted = ''09:10'' then None else previous")
  case None
  then show ?thesis using assms by (auto simp: withUniverseTransition_def split: if_splits)
next
  case (Some p)
  obtain a b where ab: "activeInstrumentKeys p = Inr a" "activeInstrumentKeys submitted = Inr b"
    using assms(1) by (auto simp: withUniverseTransition_def Some bindE_Inr)
  define added where "added = filter (\<lambda>k. k \<notin> set a) b"
  define removed where "removed = filter (\<lambda>k. k \<notin> set b) a"
  define m where "m = (added \<noteq> [] \<or> removed \<noteq> [])"
  define h where "h = (cp_live_universe_hash submitted \<noteq> cp_live_universe_hash p)"
  define u where "u = \<lparr>ut_status = (if m then ''MEMBERSHIP_CHANGED'' else if h then ''METADATA_CHANGED'' else ''UNCHANGED''),
      ut_previous_live_universe_hash = Some (cp_live_universe_hash p),
      ut_current_live_universe_hash = cp_live_universe_hash submitted, ut_hash_changed = h,
      ut_membership_changed = m, ut_added_active = added, ut_removed_active = removed\<rparr>"
  have "withUniverseTransition submitted previous =
    (if m \<and> \<not> h then Inl (failed ''ACTIVE membership changed without a corresponding live_universe_hash change'')
     else Inr (submitted\<lparr>cp_universe_transition := Some u\<rparr>))"
    unfolding withUniverseTransition_def Some option.case ab bindE.simps Let_def
    by (simp only: added_def [symmetric] removed_def [symmetric] m_def [symmetric] h_def [symmetric] u_def [symmetric])
  then have "\<not> (m \<and> \<not> h)" "t = u" using assms by (auto split: if_splits)
  moreover have "cp_scheduled_slot submitted \<noteq> ''09:10''" "previous = Some p" using Some by (auto split: if_splits)
  ultimately show ?thesis
    using ab
    by - (rule disjI2, rule exI [of _ p], rule exI [of _ a], rule exI [of _ b],
      simp add: u_def m_def added_def [symmetric] removed_def [symmetric] h_def [symmetric], blast)
qed

lemma transition_bounded:
  assumes w: "withUniverseTransition submitted previous = Inr cp" "cp_universe_transition cp = Some t"
    and ok: "shape_ok submitted" "\<And>p. previous = Some p \<Longrightarrow> shape_ok p"
    and len: "list_all (\<lambda>k. length k \<le> 128) (ut_added_active t @ ut_removed_active t)"
  shows "transition_ok t"
proof -
  consider (base) "t = \<lparr>ut_status = ''BASELINE'', ut_previous_live_universe_hash = None,
           ut_current_live_universe_hash = cp_live_universe_hash submitted, ut_hash_changed = False,
           ut_membership_changed = False, ut_added_active = [], ut_removed_active = []\<rparr>"
    | (delta) p a b where "previous = Some p" "activeInstrumentKeys p = Inr a" "activeInstrumentKeys submitted = Inr b"
      "ut_added_active t = filter (\<lambda>k. k \<notin> set a) b" "ut_removed_active t = filter (\<lambda>k. k \<notin> set b) a"
      "ut_previous_live_universe_hash t = Some (cp_live_universe_hash p)"
      "ut_current_live_universe_hash t = cp_live_universe_hash submitted"
      "ut_status t = (if ut_membership_changed t then ''MEMBERSHIP_CHANGED''
             else if ut_hash_changed t then ''METADATA_CHANGED'' else ''UNCHANGED'')"
    using transition_cases [OF w] by blast
  then show ?thesis
  proof cases
    case base
    then show ?thesis
    using ok(1) by (simp add: transition_ok_def TRANSITION_STATUSES_def keys_ok_def shape_ok_def) (simp add: id_ok_def)
  next
  case delta
  note p = delta(1) and a = delta(2) and b = delta(3) and added = delta(4) and removed = delta(5)
    and hashes = delta(6,7) and status = delta(8)
  have n: "[] \<notin> set a" "[] \<notin> set b"
    using activeInstrumentKeys_exact [OF a] activeInstrumentKeys_exact [OF b]
    by (auto dest: key_of_active_nonempty)
  have "length (ut_added_active t) \<le> 512"
    unfolding added by (rule le_trans [OF length_filter_le active_keys_bounded [OF b ok(1)]])
  moreover have "length (ut_removed_active t) \<le> 512"
    unfolding removed by (rule le_trans [OF length_filter_le active_keys_bounded [OF a ok(2) [OF p]]])
  moreover have "list_all (\<lambda>k. 1 \<le> length k \<and> length k \<le> 128) ks"
    if "ks = ut_added_active t \<or> ks = ut_removed_active t" for ks
    using that len n by (auto simp: list_all_iff added removed Suc_le_eq)
  ultimately have "keys_ok (ut_added_active t)" "keys_ok (ut_removed_active t)" by (simp_all add: keys_ok_def)
  moreover have "ut_status t \<in> set TRANSITION_STATUSES" by (simp add: status TRANSITION_STATUSES_def)
  ultimately show ?thesis
    using ok(1) ok(2) [OF p] by (simp add: transition_ok_def hashes shape_ok_def)
  qed
qed

lemma previous_readable:
  assumes "three_way lc" "ms_previous_checkpoint (buildState lp lc raw d s) = Some c"
  shows "c \<in> set (readable lp raw) \<and> fst (day_slot c) = d \<and> slotIndex (snd (day_slot c)) < slotIndex s"
  using last_sorted [OF compare_three_way [OF assms(1)] assms(2) [unfolded state_parts]] by simp

lemma posted_checkpoint_ok:
  assumes "three_way lc" "MARKET_CHECKPOINT_INPUT_SCHEMA v = Some submitted"
    and "append_decision lp submitted (buildState lp lc raw d s) = Inr (Inr cp)"
    and "cp_universe_transition cp = Some t" "list_all (\<lambda>k. length k \<le> 128) (ut_added_active t @ ut_removed_active t)"
  shows "shape_ok cp \<and> transition_ok t"
proof -
  have ok: "shape_ok submitted" using input_accepts [OF assms(2)] by simp
  have w: "withUniverseTransition submitted (map_option comment_payload (ms_previous_checkpoint (buildState lp lc raw d s))) = Inr cp"
    by (rule append_decision_post [OF assms(3)])
  have p: "shape_ok p" if "map_option comment_payload (ms_previous_checkpoint (buildState lp lc raw d s)) = Some p" for p
    using that previous_readable [OF assms(1)] readable_facts(3) by blast
  have "transition_ok t" by (rule transition_bounded [OF w assms(4) ok p assms(5)])
  then show ?thesis using transition_only [OF w] ok by auto
qed

lemma posted_payload:
  assumes "shape_ok cp" "cp_universe_transition cp = Some t" "transition_ok t"
    "validateCheckpointRelations lp cp = Inr ()" "\<not> has_fence (checkpoint_object cp)"
  shows "parseCheckpointPayload lp (rendered_body (checkpoint_object cp)) =
    Some (cp\<lparr>cp_records := map image_object (cp_records cp)\<rparr>)"
  using assms(4,5) stored_checkpoint_accepted [OF assms(1-3)]
  by (simp add: parseCheckpointPayload_def rendered_body_def)

lemma fenced_payload: "has_fence (checkpoint_object cp) \<Longrightarrow> parseCheckpointPayload lp (rendered_body (checkpoint_object cp)) = None"
  by (simp add: parseCheckpointPayload_def rendered_body_def)

text \<open>A new comment on the slot changes nothing of what was decided from the earlier slots.\<close>

lemma state_with_slot:
  assumes lc: "three_way lc" and d: "length d = 10"
    and none: "ms_current_slot (buildState lp lc raw d s) = None"
    and ok: "ms_status (buildState lp lc raw d s) = ''OK''"
    and c: "toCheckpointComment lp g = Some c" "day_slot c = (d, s)"
  shows "ms_status (buildState lp lc (raw @ [g]) d s) = ''OK''"
    "ms_current_slot (buildState lp lc (raw @ [g]) d s) = Some c"
    "ms_previous_checkpoint (buildState lp lc (raw @ [g]) d s) = ms_previous_checkpoint (buildState lp lc raw d s)"
proof -
  let ?cmp = "compareCheckpointOrder lc"
  have cmp: "comparator ?cmp" by (rule three_way.axioms(1) [OF compare_three_way [OF lc]])
  have r: "readable lp (raw @ [g]) = readable lp raw @ [c]" using c(1) by (simp add: map_filter_def)
  have free: "filter (\<lambda>x. day_slot x = (d, s)) (readable lp raw) = []"
  proof -
    have "filter (\<lambda>x. day_slot x = (d, s)) (sort_by ?cmp (readable lp raw)) = []"
      using none unfolding state_parts(2) [OF d] by (simp split: list.splits)
    then show ?thesis by (simp add: filter_empty_conv)
  qed
  have "distinct (map day_slot (readable lp raw))" using ok by (simp add: state_parts split: if_splits)
  then have "distinct (map day_slot (readable lp raw @ [c]))" using free c(2) by (auto simp: filter_empty_conv)
  then show "ms_status (buildState lp lc (raw @ [g]) d s) = ''OK''" by (simp add: state_parts r)
  have "filter (\<lambda>x. day_slot x = (d, s)) (sort_by ?cmp (readable lp (raw @ [g]))) = [c]"
    unfolding r comparator.filter_sort [OF cmp] by (simp add: free c(2) sort_by_def)
  then show "ms_current_slot (buildState lp lc (raw @ [g]) d s) = Some c"
    unfolding state_parts(2) [OF d] by simp
  show "ms_previous_checkpoint (buildState lp lc (raw @ [g]) d s) = ms_previous_checkpoint (buildState lp lc raw d s)"
    unfolding state_parts(3) r comparator.filter_sort [OF cmp] by (simp add: c(2))
qed

lemma input_day:
  assumes "MARKET_CHECKPOINT_INPUT_SCHEMA v = Some submitted"
  shows "length (cp_trading_date submitted) = 10"
  using input_accepts [OF assms] by (simp add: shape_ok_def is_day_text_def)

lemma append_reaches:
  assumes "MARKET_CHECKPOINT_INPUT_SCHEMA v = Some submitted" "validateCheckpointRelations lp submitted = Inr ()"
    and "getMarketCheckpoints lp lc fetch random token (cp_trading_date submitted) (cp_scheduled_slot submitted) trace
      = (t1, Inr st)"
  shows "appendMarketCheckpoint lp lc fetch random token v trace =
    (case append_decision lp submitted st of
        Inl e \<Rightarrow> (t1, Inl e)
      | Inr (Inl replay) \<Rightarrow> (t1, Inr replay)
      | Inr (Inr cp) \<Rightarrow>
      (case post_and_read_back market_texts (checkpoint_object cp) (parseCheckpointPayload lp)
              (\<lambda>p. checkpointEquals p cp) fetch random t1 of
        (t2, Inl e) \<Rightarrow> (t2, Inl e)
      | (t2, Inr c) \<Rightarrow> (t2, Inr (result_of ''PERSISTED'' c))))"
  using assms by (simp add: appendMarketCheckpoint_def)

lemma append_cases:
  assumes "appendMarketCheckpoint lp lc fetch random token v [] = (tr, res)"
  obtains (refused) "posts tr = []" "length tr \<le> 600" "isl res"
  | (replayed) submitted raw r where "MARKET_CHECKPOINT_INPUT_SCHEMA v = Some submitted"
      "append_decision lp submitted (buildState lp lc raw (cp_trading_date submitted) (cp_scheduled_slot submitted)) = Inr (Inl r)"
      "posts tr = []" "length tr \<le> 600" "res = Inr r"
  | (posted) submitted raw cp t1 where "MARKET_CHECKPOINT_INPUT_SCHEMA v = Some submitted"
      "validateCheckpointRelations lp submitted = Inr ()"
      "append_decision lp submitted (buildState lp lc raw (cp_trading_date submitted) (cp_scheduled_slot submitted)) = Inr (Inr cp)"
      "posts t1 = []" "length t1 \<le> 600"
      "(tr, res) = (case post_and_read_back market_texts (checkpoint_object cp) (parseCheckpointPayload lp)
              (\<lambda>p. checkpointEquals p cp) fetch random t1 of
        (t2, Inl e) \<Rightarrow> (t2, Inl e)
      | (t2, Inr c) \<Rightarrow> (t2, Inr (result_of ''PERSISTED'' c)))"
proof (cases "MARKET_CHECKPOINT_INPUT_SCHEMA v")
  case None
  then show ?thesis using assms by (intro refused) (auto simp: appendMarketCheckpoint_def)
next
  case (Some submitted)
  show ?thesis
  proof (cases "validateCheckpointRelations lp submitted")
    case (Inl e)
    then show ?thesis using assms Some by (intro refused) (auto simp: appendMarketCheckpoint_def)
  next
    case (Inr u)
    obtain t1 g where g: "getMarketCheckpoints lp lc fetch random token (cp_trading_date submitted)
        (cp_scheduled_slot submitted) [] = (t1, g)" by fastforce
    from getMarketCheckpoints_trace [OF g] have t: "posts t1 = []" "length t1 \<le> 600"
      and raw: "g = Inr st \<Longrightarrow> \<exists>raw. st = buildState lp lc raw (cp_trading_date submitted) (cp_scheduled_slot submitted)" for st
      by simp_all
    show ?thesis
    proof (cases g)
      case (Inl e)
      then show ?thesis using assms Some Inr g t by (intro refused) (auto simp: appendMarketCheckpoint_def)
    next
      case (Inr st)
      obtain raw where st: "st = buildState lp lc raw (cp_trading_date submitted) (cp_scheduled_slot submitted)"
        using raw [OF Inr] by blast
      have v: "validateCheckpointRelations lp submitted = Inr ()" using \<open>validateCheckpointRelations lp submitted = Inr u\<close> by simp
      note a = append_reaches [OF Some v g [unfolded Inr], unfolded assms]
      show ?thesis
      proof (cases "append_decision lp submitted st")
        case (Inl e)
        then show ?thesis using a t by (intro refused) auto
      next
        case (Inr d)
        show ?thesis
        proof (cases d)
          case (Inl r)
          show ?thesis by (rule replayed [OF Some, of raw r]) (use a t Inr Inl st in auto)
        next
          case cp: (Inr cp)
          show ?thesis by (rule posted [OF Some v, of raw cp t1]) (use a t Inr cp st in auto)
        qed
      qed
    qed
  qed
qed

section \<open>Properties\<close>


text \<open>C14: what a state says of the readable comments, in whatever order GitHub lists them: it is OK
  exactly when no date and slot occurs twice, the current slot is a comment of the asked date and
  slot and is missing only when there is none, the previous checkpoint is one of the latest earlier
  slot of the day, and the previous close one of the latest earlier close.\<close>

theorem market_state_exact:
  assumes "three_way lc" "length d = 10"
  shows "let st = buildState lp lc raw d s; valid = readable lp raw in
    (ms_status st = ''OK'' \<longleftrightarrow> distinct (map day_slot valid))
    \<and> (case ms_current_slot st of None \<Rightarrow> (d, s) \<notin> day_slot ` set valid
       | Some c \<Rightarrow> c \<in> set valid \<and> day_slot c = (d, s))
    \<and> (case ms_previous_checkpoint st of
         None \<Rightarrow> \<forall>c \<in> set valid. fst (day_slot c) = d \<longrightarrow> slotIndex s \<le> slotIndex (snd (day_slot c))
       | Some p \<Rightarrow> p \<in> set valid \<and> fst (day_slot p) = d \<and> slotIndex (snd (day_slot p)) < slotIndex s
         \<and> (\<forall>c \<in> set valid. fst (day_slot c) = d \<and> slotIndex (snd (day_slot c)) < slotIndex s
              \<longrightarrow> slotIndex (snd (day_slot c)) \<le> slotIndex (snd (day_slot p))))
    \<and> (case ms_previous_close st of
         None \<Rightarrow> \<forall>c \<in> set valid. cp_observation_type (comment_payload c) = ''CLOSE'' \<longrightarrow> d \<le> fst (day_slot c)
       | Some p \<Rightarrow> p \<in> set valid \<and> cp_observation_type (comment_payload p) = ''CLOSE'' \<and> fst (day_slot p) < d
         \<and> (\<forall>c \<in> set valid. cp_observation_type (comment_payload c) = ''CLOSE'' \<and> fst (day_slot c) < d
              \<longrightarrow> lc (fst (day_slot c)) (fst (day_slot p)) \<le> 0))"
proof -
  let ?st = "buildState lp lc raw d s" and ?valid = "readable lp raw" and ?cmp = "compareCheckpointOrder lc"
  note cmp = compare_three_way [OF assms(1)]
  have 1: "ms_status ?st = ''OK'' \<longleftrightarrow> distinct (map day_slot ?valid)" by (simp add: state_parts)
  have 2: "case ms_current_slot ?st of None \<Rightarrow> (d, s) \<notin> day_slot ` set ?valid
       | Some c \<Rightarrow> c \<in> set ?valid \<and> day_slot c = (d, s)"
  proof (cases "filter (\<lambda>c. day_slot c = (d, s)) (sort_by ?cmp ?valid)")
    case Nil
    then have "\<forall>c \<in> set ?valid. day_slot c \<noteq> (d, s)" by (simp add: filter_empty_conv)
    then show ?thesis using state_parts(2) [OF assms(2), of lp lc raw s] Nil by force
  next
    case (Cons c cs)
    then have "c \<in> set (filter (\<lambda>c. day_slot c = (d, s)) (sort_by ?cmp ?valid))" by (simp only: list.set insert_iff simp_thms)
    then have "c \<in> set ?valid" "day_slot c = (d, s)" by simp_all
    then show ?thesis using state_parts(2) [OF assms(2), of lp lc raw s] Cons by simp
  qed
  have 3: "case ms_previous_checkpoint ?st of
         None \<Rightarrow> \<forall>c \<in> set ?valid. fst (day_slot c) = d \<longrightarrow> slotIndex s \<le> slotIndex (snd (day_slot c))
       | Some p \<Rightarrow> p \<in> set ?valid \<and> fst (day_slot p) = d \<and> slotIndex (snd (day_slot p)) < slotIndex s
         \<and> (\<forall>c \<in> set ?valid. fst (day_slot c) = d \<and> slotIndex (snd (day_slot c)) < slotIndex s
              \<longrightarrow> slotIndex (snd (day_slot c)) \<le> slotIndex (snd (day_slot p)))"
  proof (cases "ms_previous_checkpoint ?st")
    case None
    note e = None [unfolded state_parts(3) last_of_None filter_empty_conv]
    show ?thesis unfolding None option.case using e by (auto simp: not_less)
  next
    case (Some p)
    note l = last_sorted [OF cmp Some [unfolded state_parts(3)]]
    from l have p: "p \<in> set ?valid" "fst (day_slot p) = d" "slotIndex (snd (day_slot p)) < slotIndex s" by simp_all
    have "slotIndex (snd (day_slot c)) \<le> slotIndex (snd (day_slot p))"
      if "c \<in> set ?valid" "fst (day_slot c) = d" "slotIndex (snd (day_slot c)) < slotIndex s" for c
      by (rule compare_same_day [OF assms(1)]) (use l p that in auto)
    then show ?thesis using p Some by simp
  qed
  have 4: "case ms_previous_close ?st of
         None \<Rightarrow> \<forall>c \<in> set ?valid. cp_observation_type (comment_payload c) = ''CLOSE'' \<longrightarrow> d \<le> fst (day_slot c)
       | Some p \<Rightarrow> p \<in> set ?valid \<and> cp_observation_type (comment_payload p) = ''CLOSE'' \<and> fst (day_slot p) < d
         \<and> (\<forall>c \<in> set ?valid. cp_observation_type (comment_payload c) = ''CLOSE'' \<and> fst (day_slot c) < d
              \<longrightarrow> lc (fst (day_slot c)) (fst (day_slot p)) \<le> 0)"
  proof (cases "ms_previous_close ?st")
    case None
    note e = None [unfolded state_parts(4) last_of_None filter_empty_conv]
    show ?thesis unfolding None option.case using e by (auto simp: not_less)
  next
    case (Some p)
    note l = last_sorted [OF cmp Some [unfolded state_parts(4)]]
    from l have p: "p \<in> set ?valid" "cp_observation_type (comment_payload p) = ''CLOSE''" "fst (day_slot p) < d" by simp_all
    have "lc (fst (day_slot c)) (fst (day_slot p)) \<le> 0"
      if "c \<in> set ?valid" "cp_observation_type (comment_payload c) = ''CLOSE''" "fst (day_slot c) < d" for c
      by (rule compare_days [OF assms(1)]) (use l that in auto)
    then show ?thesis using p Some by simp
  qed
  show ?thesis unfolding Let_def using 1 2 3 4 by blast
qed

text \<open>C15: the transition of a posted checkpoint is exact: applied to the active keys of the previous
  checkpoint, its added and removed keys give the active keys of the new one; both are disjoint,
  sorted and without repetition; membership is reported as changed exactly when the two sets differ,
  and then the universe hash has changed too.\<close>

theorem universe_transition_exact:
  assumes "withUniverseTransition submitted (Some previous) = Inr cp" "cp_scheduled_slot submitted \<noteq> ''09:10''"
  shows "\<exists>t. cp = submitted\<lparr>cp_universe_transition := Some t\<rparr>
    \<and> (let before = {k. \<exists>r \<in> set (cp_records previous). key_of_active r = Some k};
           now = {k. \<exists>r \<in> set (cp_records submitted). key_of_active r = Some k} in
        before - set (ut_removed_active t) \<union> set (ut_added_active t) = now
        \<and> set (ut_added_active t) \<inter> before = {} \<and> set (ut_removed_active t) \<subseteq> before - now
        \<and> sorted (ut_added_active t) \<and> distinct (ut_added_active t)
        \<and> sorted (ut_removed_active t) \<and> distinct (ut_removed_active t)
        \<and> (ut_membership_changed t \<longleftrightarrow> before \<noteq> now)
        \<and> (before \<noteq> now \<longrightarrow> cp_live_universe_hash submitted \<noteq> cp_live_universe_hash previous)
        \<and> (ut_hash_changed t \<longleftrightarrow> ut_previous_live_universe_hash t \<noteq> Some (ut_current_live_universe_hash t))
        \<and> ut_status t = (if before \<noteq> now then ''MEMBERSHIP_CHANGED''
             else if cp_live_universe_hash submitted \<noteq> cp_live_universe_hash previous then ''METADATA_CHANGED''
             else ''UNCHANGED''))"
proof -
  obtain t where t: "cp = submitted\<lparr>cp_universe_transition := Some t\<rparr>" using transition_only [OF assms(1)] by blast
  then have "cp_universe_transition cp = Some t" by simp
  from transition_cases [OF assms(1) this] assms(2)
  obtain a b where a: "activeInstrumentKeys previous = Inr a" and b: "activeInstrumentKeys submitted = Inr b"
    and added: "ut_added_active t = filter (\<lambda>k. k \<notin> set a) b" and removed: "ut_removed_active t = filter (\<lambda>k. k \<notin> set b) a"
    and m: "ut_membership_changed t \<longleftrightarrow> ut_added_active t \<noteq> [] \<or> ut_removed_active t \<noteq> []"
    and h: "ut_hash_changed t \<longleftrightarrow> cp_live_universe_hash submitted \<noteq> cp_live_universe_hash previous"
      "ut_membership_changed t \<longrightarrow> ut_hash_changed t"
      "ut_previous_live_universe_hash t = Some (cp_live_universe_hash previous)"
      "ut_current_live_universe_hash t = cp_live_universe_hash submitted"
    and s: "ut_status t = (if ut_membership_changed t then ''MEMBERSHIP_CHANGED''
             else if ut_hash_changed t then ''METADATA_CHANGED'' else ''UNCHANGED'')"
    by blast
  note ea = activeInstrumentKeys_exact [OF a] and eb = activeInstrumentKeys_exact [OF b]
  have mem: "ut_membership_changed t \<longleftrightarrow> set a \<noteq> set b"
    unfolding m added removed filter_empty_conv by auto
  have sa: "set (ut_added_active t) = set b - set a" "set (ut_removed_active t) = set a - set b"
    unfolding added removed by auto
  have so: "sorted (ut_added_active t)" "distinct (ut_added_active t)" "sorted (ut_removed_active t)" "distinct (ut_removed_active t)"
    unfolding added removed using ea eb by (simp_all add: sorted_wrt_filter)
  have sets: "{k. \<exists>r \<in> set (cp_records previous). key_of_active r = Some k} = set a"
    "{k. \<exists>r \<in> set (cp_records submitted). key_of_active r = Some k} = set b" using ea eb by simp_all
  have c1: "set a - set (ut_removed_active t) \<union> set (ut_added_active t) = set b"
    and c2: "set (ut_added_active t) \<inter> set a = {}" and c3: "set (ut_removed_active t) \<subseteq> set a - set b"
    unfolding sa by blast+
  have c4: "set a \<noteq> set b \<longrightarrow> cp_live_universe_hash submitted \<noteq> cp_live_universe_hash previous"
    using h(1,2) mem by blast
  have c5: "ut_hash_changed t \<longleftrightarrow> ut_previous_live_universe_hash t \<noteq> Some (ut_current_live_universe_hash t)"
    unfolding h(1,3,4) by (auto simp: eq_commute)
  have c6: "ut_status t = (if set a \<noteq> set b then ''MEMBERSHIP_CHANGED''
      else if cp_live_universe_hash submitted \<noteq> cp_live_universe_hash previous then ''METADATA_CHANGED'' else ''UNCHANGED'')"
    using s unfolding mem h(1) .
  show ?thesis
    unfolding Let_def sets
    by (intro exI [of _ t] conjI) (fact t c1 c2 c3 so mem c4 c5 c6)+
qed



section \<open>Witnesses\<close>

text \<open>The premarket plan of a day in an empty ledger, and the same with a fenced text.\<close>

definition sample_input :: "string \<Rightarrow> jsval" where
  "sample_input note = JObj
     [(''schema_version'', JStr ''premarket_plan_batch_v1''), (''prompt_id'', JStr ''holding-assistant''),
      (''production_ref'', JStr ''0123456789abcdef0123456789abcdef01234567''), (''portfolio_version'', JStr ''p1''),
      (''event_id'', JStr ''e1''), (''idempotency_key'', JStr ''holding-assistant:2026-01-05:09:10''),
      (''trading_date'', JStr ''2026-01-05''), (''as_of'', JStr ''2026-01-05T01:10:00Z''),
      (''scheduled_slot'', JStr ''09:10''), (''producer'', JStr ''holding-assistant''),
      (''observation_type'', JStr ''PREMARKET''), (''previous_checkpoint_comment_id'', JNull),
      (''preopen_comment_id'', JNull), (''live_universe_hash'', JStr ''h''), (''source_task'', JStr ''task''),
      (''records'', JArr [JObj [(''note'', JStr note)]])]"

definition sample_checkpoint :: "string \<Rightarrow> checkpoint" where
  "sample_checkpoint note = the (MARKET_CHECKPOINT_INPUT_SCHEMA (sample_input note))"

definition sample_posted :: "string \<Rightarrow> checkpoint" where
  "sample_posted note = projr (withUniverseTransition (sample_checkpoint note) None)"

definition sample_raw :: "string \<Rightarrow> github_comment" where
  "sample_raw note = stored_comment (checkpoint_object (sample_posted note)) ''7'' ''u'' ''t''"

definition sample_github :: "github_comment list \<Rightarrow> string \<Rightarrow> github" where
  "sample_github raw note trace req =
     (case req of
        GetList _ \<Rightarrow> Answered 200 \<lparr>rs_payload = Comments raw, rs_link = None\<rparr>
      | Post _ _ \<Rightarrow> Answered 201 \<lparr>rs_payload = Comment (sample_raw note), rs_link = None\<rparr>
      | GetComment _ \<Rightarrow> Answered 200 \<lparr>rs_payload = Comment (sample_raw note), rs_link = None\<rparr>)"

abbreviation plain :: string where "plain \<equiv> ''plan''"

lemma sample_keys:
  assumes "note = plain \<or> note = fence"
  shows "cp_trading_date (sample_checkpoint note) = ''2026-01-05''" "cp_scheduled_slot (sample_checkpoint note) = ''09:10''"
  using assms by (elim disjE; hypsubst; code_simp)+

lemma sample_checkpoint_accepted:
  assumes "note = plain \<or> note = fence"
  shows "MARKET_CHECKPOINT_INPUT_SCHEMA (sample_input note) = Some (sample_checkpoint note)"
    "validateCheckpointRelations (\<lambda>_. None) (sample_checkpoint note) = Inr ()"
    "append_decision (\<lambda>_. None) (sample_checkpoint note) (buildState (\<lambda>_. None) cu_cmp [] ''2026-01-05'' ''09:10'')
      = Inr (Inr (sample_posted note))"
  using assms by (elim disjE; hypsubst; code_simp)+

lemma sample_no_close:
  "ms_previous_close (buildState (\<lambda>_. None) cu_cmp [] ''2026-01-05'' ''09:10'') = None"
  "ms_previous_close (buildState (\<lambda>_. None) cu_cmp [sample_raw plain] ''2026-01-05'' ''09:10'') = None"
  by code_simp+

lemma sample_read:
  assumes "ms_previous_close (buildState (\<lambda>_. None) cu_cmp raw ''2026-01-05'' ''09:10'') = None"
  shows "\<exists>t. getMarketCheckpoints (\<lambda>_. None) cu_cmp (sample_github raw note) (\<lambda>_. 0) ''token'' ''2026-01-05'' ''09:10'' []
    = (t, Inr (buildState (\<lambda>_. None) cu_cmp raw ''2026-01-05'' ''09:10''))"
proof -
  have since: "recentSince (\<lambda>_. None) ''2026-01-05'' = Inr ''2025-11-05T16:00:00.000Z''" by code_simp
  have l: "fetchComments since (sample_github raw note) (\<lambda>_. 0) trace
      = (trace @ [GetList (list_url MARKET_LEDGER_ISSUE_NUMBER since)], Inr raw)" for since trace
    unfolding fetchComments_def by (rule fetch_comments_single [where status = 200]) (simp_all add: sample_github_def response_ok_def)
  show ?thesis unfolding getMarketCheckpoints_def since by (simp add: l assms Let_def)
qed

lemma sample_checkpoint_kept: "keeps_post (sample_github raw note) 2 (checkpoint_object (sample_posted note)) trace ''7'' ''u'' ''t''"
  by (simp add: keeps_post_def sample_github_def sample_raw_def stored_comment_def response_ok_def Let_def)

lemma sample_transition:
  "cp_universe_transition (sample_posted plain) = Some
     \<lparr>ut_status = ''BASELINE'', ut_previous_live_universe_hash = None, ut_current_live_universe_hash = ''h'',
      ut_hash_changed = False, ut_membership_changed = False, ut_added_active = [], ut_removed_active = []\<rparr>"
  "\<not> has_fence (checkpoint_object (sample_posted plain))" "has_fence (checkpoint_object (sample_posted fence))"
  by code_simp+


theorem market_state_exact_witness:
  "ms_status (buildState (\<lambda>_. None) cu_cmp [sample_raw plain] ''2026-01-05'' ''09:50'') = ''OK''
    \<longleftrightarrow> distinct (map day_slot (readable (\<lambda>_. None) [sample_raw plain]))"
  using market_state_exact [OF cu_three.three_way_axioms, of "''2026-01-05''"] by (simp add: Let_def)

theorem universe_transition_exact_witness:
  "\<exists>t. withUniverseTransition
      ((sample_checkpoint plain)\<lparr>cp_scheduled_slot := ''09:50'', cp_live_universe_hash := ''h2'',
        cp_records := [[(''holding_status'', JStr ''ACTIVE''), (''subject_key'', JStr ''CN:600000'')]]\<rparr>)
      (Some (sample_checkpoint plain))
    = Inr ((sample_checkpoint plain)\<lparr>cp_scheduled_slot := ''09:50'', cp_live_universe_hash := ''h2'',
        cp_records := [[(''holding_status'', JStr ''ACTIVE''), (''subject_key'', JStr ''CN:600000'')]],
        cp_universe_transition := Some t\<rparr>) \<and> ut_status t = ''MEMBERSHIP_CHANGED''"
proof -
  let ?s = "(sample_checkpoint plain)\<lparr>cp_scheduled_slot := ''09:50'', cp_live_universe_hash := ''h2'',
        cp_records := [[(''holding_status'', JStr ''ACTIVE''), (''subject_key'', JStr ''CN:600000'')]]\<rparr>"
  define cp where "cp = projr (withUniverseTransition ?s (Some (sample_checkpoint plain)))"
  have "\<not> isl (withUniverseTransition ?s (Some (sample_checkpoint plain)))" by code_simp
  then have w: "withUniverseTransition ?s (Some (sample_checkpoint plain)) = Inr cp" by (simp add: cp_def)
  have "cp_scheduled_slot ?s \<noteq> ''09:10''" by simp
  from universe_transition_exact [OF w this]
  obtain t where t: "cp = ?s\<lparr>cp_universe_transition := Some t\<rparr>" by blast
  have "map_option ut_status (cp_universe_transition cp) = Some ''MEMBERSHIP_CHANGED''" unfolding cp_def by code_simp
  then show ?thesis using w t by auto
qed



end
