(* ===== verification/Investment_Ledger.thy ===== *)
theory Investment_Ledger
  imports Ledger_Comments Zod_Schemas
begin

text \<open>
  \<open>src/src/investment-ledger.ts\<close>: the batches of state events that three writers (the industry, the
  company and the close role) append as comments of a GitHub issue. Stored batches are read as the
  objects they are, so a batch is an object here; what a writer submits goes through the schema and
  the ownership rules of its role. Texts whose code units exceed 255 are written by their escapes.
\<close>

section \<open>Roles\<close>

definition INVESTMENT_LEDGER_ISSUE_NUMBER :: int where
  "INVESTMENT_LEDGER_ISSUE_NUMBER = 3"

datatype ledger_role = Industry | Company | Close

record role_config =
  rc_producer :: string
  rc_dimension :: string
  rc_source_task :: string
  rc_allowed :: "string list"

fun roleConfig :: "ledger_role \<Rightarrow> role_config" where
  "roleConfig Industry = \<lparr>rc_producer = ''industry_trend'', rc_dimension = ''INDUSTRY'',
     rc_source_task = ''u4ea7 u4e1a u8d8b u52bf u4e0e u7814 u7a76'', rc_allowed = [''R0'', ''R1'']\<rparr>"
| "roleConfig Company = \<lparr>rc_producer = ''company_validation'', rc_dimension = ''COMPANY'',
     rc_source_task = ''u516c u53f8 u4e8b u5b9e u76d1 u63a7'', rc_allowed = [''R2'']\<rparr>"
| "roleConfig Close = \<lparr>rc_producer = ''close_review'', rc_dimension = ''CLOSE'',
     rc_source_task = ''u6301 u4ed3 u52a9 u624b uff5c u6536 u76d8'', rc_allowed = []\<rparr>"

datatype investment_code =
    INVESTMENT_LEDGER_UNAVAILABLE | INVESTMENT_LEDGER_VALIDATION_FAILED
  | INVESTMENT_LEDGER_EVENT_ID_CONFLICT | INVESTMENT_LEDGER_READBACK_FAILED

type_synonym investment_error = "investment_code ledger_error"

definition refused :: "string \<Rightarrow> investment_error" where
  "refused m = LedgerError INVESTMENT_LEDGER_VALIDATION_FAILED m None"

section \<open>Schemas\<close>

text \<open>\<open>/^(?:CN:\d{6}|HK:\d{5})$/\<close>\<close>

definition is_instrument_key :: "string \<Rightarrow> bool" where
  "is_instrument_key s \<longleftrightarrow>
     (take 3 s = ''CN:'' \<and> length s = 9 \<or> take 3 s = ''HK:'' \<and> length s = 8) \<and> list_all is_digit (drop 3 s)"

definition EVIDENCE_TYPES :: "string list" where
  "EVIDENCE_TYPES = [''D'', ''S'', ''M'', ''E'', ''P'', ''C'']"

definition EVENT_TYPES :: "string list" where
  "EVENT_TYPES = [''STATE_SET'', ''STATE_CHANGE'', ''COUNTER_EVIDENCE'', ''CONFIRMATION'', ''EVIDENCE_ADD'',
     ''EVIDENCE_UPDATE'', ''CORRECTION'']"

text \<open>\<open>.optional()\<close> of a union with \<open>z.null()\<close>: absent, null, or accepted.\<close>

definition z_optional :: "(jsval \<Rightarrow> bool) \<Rightarrow> jsval option \<Rightarrow> bool" where
  "z_optional P v = (case v of None \<Rightarrow> True | Some x \<Rightarrow> x = JNull \<or> P x)"

fun is_text :: "int \<Rightarrow> int \<Rightarrow> jsval \<Rightarrow> bool" where
  "is_text lo hi (JStr s) = (lo \<le> int (length s) \<and> int (length s) \<le> hi)"
| "is_text lo hi _ = False"

fun is_one_of :: "string list \<Rightarrow> jsval \<Rightarrow> bool" where
  "is_one_of cases (JStr s) = (s \<in> set cases)"
| "is_one_of cases _ = False"

fun is_flag :: "jsval \<Rightarrow> bool" where
  "is_flag (JBool b) = True"
| "is_flag _ = False"

definition is_array :: "nat \<Rightarrow> nat \<Rightarrow> (jsval \<Rightarrow> bool) \<Rightarrow> jsval option \<Rightarrow> bool" where
  "is_array lo hi P v = (case as_array v of None \<Rightarrow> False | Some xs \<Rightarrow> lo \<le> length xs \<and> length xs \<le> hi \<and> list_all P xs)"

definition EVENT_KEYS :: "string list" where
  "EVENT_KEYS = [''symbol'', ''event_type'', ''research_priority'', ''industry_thesis'', ''company_thesis'',
     ''company_validation'', ''r_proposal'', ''effective_r_state'', ''market_confirmation'', ''r4_candidate'',
     ''close_thesis_view'', ''evidence_types'', ''evidence_keys'', ''counter_evidence'', ''confidence'', ''next_validation'']"

definition OPTIONAL_TEXT :: "jsval option \<Rightarrow> bool" where
  "OPTIONAL_TEXT = z_optional (is_text 0 16000)"

text \<open>What the schema returns has its properties in the order of the schema.\<close>

definition INVESTMENT_LEDGER_EVENT_INPUT_SCHEMA :: "jsval \<Rightarrow> jsobj option" where
  "INVESTMENT_LEDGER_EVENT_INPUT_SCHEMA v =
     (case z_strict EVENT_KEYS (Some v) of None \<Rightarrow> None
      | Some e \<Rightarrow>
        if (case as_string (fld e ''symbol'') of None \<Rightarrow> False | Some s \<Rightarrow> is_instrument_key s)
           \<and> (case fld e ''event_type'' of None \<Rightarrow> False | Some t \<Rightarrow> is_one_of EVENT_TYPES t)
           \<and> z_optional (is_one_of [''P0'', ''P1'', ''P2'']) (fld e ''research_priority'')
           \<and> OPTIONAL_TEXT (fld e ''industry_thesis'') \<and> OPTIONAL_TEXT (fld e ''company_thesis'')
           \<and> OPTIONAL_TEXT (fld e ''company_validation'')
           \<and> z_optional (is_one_of [''R0'', ''R1'', ''R2'']) (fld e ''r_proposal'')
           \<and> z_optional (is_one_of [''R0'', ''R1'', ''R2'', ''R3'', ''R4'']) (fld e ''effective_r_state'')
           \<and> OPTIONAL_TEXT (fld e ''market_confirmation'') \<and> z_optional is_flag (fld e ''r4_candidate'')
           \<and> OPTIONAL_TEXT (fld e ''close_thesis_view'')
           \<and> is_array 0 6 (is_one_of EVIDENCE_TYPES) (fld e ''evidence_types'')
           \<and> is_array 0 100 (is_text 1 512) (fld e ''evidence_keys'')
           \<and> is_array 0 20 (is_text 1 4000) (fld e ''counter_evidence'')
           \<and> (case as_finite (fld e ''confidence'') of None \<Rightarrow> False | Some q \<Rightarrow> 0 \<le> q \<and> q \<le> 1)
           \<and> (case fld e ''next_validation'' of None \<Rightarrow> False | Some x \<Rightarrow> x = JNull \<or> is_text 0 8000 x)
        then Some (pick EVENT_KEYS e) else None)"

definition BATCH_KEYS :: "string list" where
  "BATCH_KEYS = [''schema_version'', ''portfolio_version'', ''event_id'', ''as_of'', ''events'']"

record batch_input =
  bi_portfolio_version :: string
  bi_event_id :: string
  bi_as_of :: string
  bi_events :: "jsobj list"

definition INVESTMENT_LEDGER_BATCH_INPUT_SCHEMA :: "jsval \<Rightarrow> batch_input option" where
  "INVESTMENT_LEDGER_BATCH_INPUT_SCHEMA v =
     do { ob \<leftarrow> z_strict BATCH_KEYS (Some v);
          _ \<leftarrow> z_enum [''investment_state_batch_v1''] (fld ob ''schema_version'');
          version \<leftarrow> z_text 1 512 (fld ob ''portfolio_version'');
          event_id \<leftarrow> z_text 1 512 (fld ob ''event_id'');
          asOf \<leftarrow> z_text 1 128 (fld ob ''as_of'');
          events \<leftarrow> filter_option (\<lambda>es. es \<noteq> []) (z_array 128 INVESTMENT_LEDGER_EVENT_INPUT_SCHEMA (fld ob ''events''));
          Some \<lparr>bi_portfolio_version = version, bi_event_id = event_id, bi_as_of = asOf, bi_events = events\<rparr> }"

definition batch_object :: "batch_input \<Rightarrow> jsobj" where
  "batch_object b =
     [(''schema_version'', JStr ''investment_state_batch_v1''), (''portfolio_version'', JStr (bi_portfolio_version b)),
      (''event_id'', JStr (bi_event_id b)), (''as_of'', JStr (bi_as_of b)), (''events'', JArr (map JObj (bi_events b)))]"

section \<open>Ownership\<close>

text \<open>\<open>event.f != null\<close>\<close>

definition owns :: "jsobj \<Rightarrow> string \<Rightarrow> bool" where
  "owns event f \<longleftrightarrow> fld event f \<noteq> None \<and> fld event f \<noteq> Some JNull"

definition INDUSTRY_FOREIGN :: "string list" where
  "INDUSTRY_FOREIGN = [''company_thesis'', ''company_validation'', ''effective_r_state'', ''market_confirmation'',
     ''r4_candidate'', ''close_thesis_view'']"

definition COMPANY_FOREIGN :: "string list" where
  "COMPANY_FOREIGN = [''industry_thesis'', ''effective_r_state'', ''market_confirmation'', ''r4_candidate'', ''close_thesis_view'']"

definition CLOSE_FOREIGN :: "string list" where
  "CLOSE_FOREIGN = [''research_priority'', ''industry_thesis'', ''company_thesis'', ''company_validation'', ''r_proposal'']"

definition CLOSE_OWNED :: "string list" where
  "CLOSE_OWNED = [''effective_r_state'', ''market_confirmation'', ''r4_candidate'', ''close_thesis_view'', ''next_validation'']"

definition check_event :: "ledger_role \<Rightarrow> jsobj \<Rightarrow> nat \<Rightarrow> investment_error + unit" where
  "check_event role event i =
     bindE (throw_if
       [(owns event ''r_proposal''
         \<and> (case as_string (fld event ''r_proposal'') of None \<Rightarrow> True | Some r \<Rightarrow> r \<notin> set (rc_allowed (roleConfig role))),
         refused ''r_proposal is outside the role write boundary'')]) (\<lambda>_.
     (case role of
        Industry \<Rightarrow> throw_if [(list_ex (owns event) INDUSTRY_FOREIGN, refused ''industry writer cannot persist company or close fields'')]
      | Company \<Rightarrow> throw_if [(list_ex (owns event) COMPANY_FOREIGN, refused ''company writer cannot persist industry or close fields'')]
      | Close \<Rightarrow> throw_if
          [(list_ex (owns event) CLOSE_FOREIGN, refused ''close writer cannot persist industry/company ownership fields''),
           (\<not> list_ex (owns event) CLOSE_OWNED, refused ''close writer must persist at least one close-owned field'')]))"

text \<open>\<open>^\d{8}T\d{6}\+08\|producer\|BATCH$\<close> and \<open>^CMD:[0-9a-f]{64}\|producer\|BATCH$\<close>\<close>

definition legacy_event_id :: "string \<Rightarrow> string \<Rightarrow> bool" where
  "legacy_event_id producer s \<longleftrightarrow>
     list_all is_digit (take 8 s) \<and> take 1 (drop 8 s) = ''T'' \<and> list_all is_digit (take 6 (drop 9 s))
     \<and> drop 15 s = ''+08|'' @ producer @ ''|BATCH''"

definition command_event_id :: "string \<Rightarrow> string \<Rightarrow> bool" where
  "command_event_id producer s \<longleftrightarrow>
     take 4 s = ''CMD:'' \<and> list_all is_hex_lower (take 64 (drop 4 s)) \<and> drop 68 s = ''|'' @ producer @ ''|BATCH''"

definition validateRoleSemantics :: "(string \<Rightarrow> int option) \<Rightarrow> ledger_role \<Rightarrow> batch_input \<Rightarrow> investment_error + unit" where
  "validateRoleSemantics lp role batch =
     (let producer = rc_producer (roleConfig role) in
      bindE (throw_if
        [(date_parse lp (bi_as_of batch) = None, refused ''as_of is not a valid ISO date-time''),
         (\<not> legacy_event_id producer (bi_event_id batch) \<and> \<not> command_event_id producer (bi_event_id batch),
          refused ''event_id does not match the fixed producer contract'')]) (\<lambda>_.
      bindE (mapE (check_event role) (bi_events batch)) (\<lambda>_. Inr ())))"

definition enrichBatch :: "ledger_role \<Rightarrow> batch_input \<Rightarrow> jsobj" where
  "enrichBatch role inp =
     (let config = roleConfig role in
      spread (batch_object inp)
        [(''producer'', JStr (rc_producer config)), (''source_task'', JStr (rc_source_task config)),
         (''events'', JArr (map (\<lambda>e. JObj (spread e [(''dimension'', JStr (rc_dimension config))])) (bi_events inp)))])"

section \<open>Stored batches\<close>

record stored_batch =
  sb_object :: jsobj
  sb_events :: "jsobj list"

text \<open>An event that a reader keeps.\<close>

definition known_event :: "jsval \<Rightarrow> jsobj option" where
  "known_event v =
     (case as_record v of None \<Rightarrow> None
      | Some e \<Rightarrow>
        if as_string (fld e ''symbol'') \<noteq> None
           \<and> (case as_string (fld e ''dimension'') of None \<Rightarrow> False | Some d \<Rightarrow> d \<in> {''INDUSTRY'', ''COMPANY'', ''CLOSE''})
        then Some e else None)"

definition parseExistingValue :: "jsval \<Rightarrow> stored_batch option" where
  "parseExistingValue v =
     (case as_record v of None \<Rightarrow> None
      | Some ob \<Rightarrow>
        if fld ob ''schema_version'' \<noteq> Some (JStr ''investment_state_batch_v1'') then None
        else if (case as_string (fld ob ''producer'') of None \<Rightarrow> True
                 | Some p \<Rightarrow> p \<notin> {''industry_trend'', ''company_validation'', ''close_review''}) then None
        else (case as_array (fld ob ''events'') of None \<Rightarrow> None
          | Some xs \<Rightarrow>
            (let events = List.map_filter known_event xs in
             if events = [] then None
             else Some \<lparr>sb_object = spread ob [(''events'', JArr (map JObj events))], sb_events = events\<rparr>)))"

text \<open>Without a fenced block the whole body is read.\<close>

fun parseExistingPayload :: "comment_body \<Rightarrow> stored_batch option" where
  "parseExistingPayload NoBody = None"
| "parseExistingPayload (Block (JsonText v)) = parseExistingValue v"
| "parseExistingPayload (Plain (JsonText v)) = parseExistingValue v"
| "parseExistingPayload _ = None"

type_synonym batch_comment = "stored_batch ledger_comment"

definition toLedgerComment :: "github_comment \<Rightarrow> batch_comment option" where
  "toLedgerComment comment = to_comment parseExistingPayload comment"

definition fetchAllComments ::
  "github \<Rightarrow> (nat \<Rightarrow> rat) \<Rightarrow> request list \<Rightarrow> request list \<times> (investment_error + github_comment list)" where
  "fetchAllComments fetch random trace =
     fetch_comments INVESTMENT_LEDGER_UNAVAILABLE INVESTMENT_LEDGER_ISSUE_NUMBER None fetch random trace"

definition batchEquals :: "jsobj \<Rightarrow> jsobj \<Rightarrow> bool" where
  "batchEquals left right = json_equals (JObj left) (JObj right)"

text \<open>\<open>String(payload.as_of ?? "")\<close>\<close>

definition as_of_text :: "jsobj \<Rightarrow> string" where
  "as_of_text ob = (case nullish (fld ob ''as_of'') (Some (JStr '''')) of None \<Rightarrow> '''' | Some v \<Rightarrow> js_to_string v)"

definition compare_batches :: "(string \<Rightarrow> string \<Rightarrow> int) \<Rightarrow> batch_comment \<Rightarrow> batch_comment \<Rightarrow> int" where
  "compare_batches lc =
     chain (\<lambda>a b. lc (as_of_text (sb_object (comment_payload a))) (as_of_text (sb_object (comment_payload b))))
    (chain (\<lambda>a b. lc (created_at a) (created_at b)) (\<lambda>a b. lc (comment_id a) (comment_id b)))"

definition validRoleComments ::
  "(string \<Rightarrow> string \<Rightarrow> int) \<Rightarrow> github_comment list \<Rightarrow> ledger_role \<Rightarrow> batch_comment list" where
  "validRoleComments lc comments role =
     sort_by (compare_batches lc)
       (filter (\<lambda>c. fld (sb_object (comment_payload c)) ''producer'' = Some (JStr (rc_producer (roleConfig role))))
         (List.map_filter toLedgerComment comments))"

section \<open>The state by symbol\<close>

record ledger_entry =
  le_comment_id :: string
  le_created_at :: string
  le_as_of :: string
  le_event :: jsobj

text \<open>The objects keyed by symbol; the evidence sets in the order of insertion.\<close>

record ledger_maps =
  lm_latest :: "string \<rightharpoonup> ledger_entry option"
  lm_r_proposal :: "string \<rightharpoonup> string option"
  lm_history :: "string \<rightharpoonup> ledger_entry list"
  lm_evidence :: "string \<rightharpoonup> string list"
  lm_count :: "string \<rightharpoonup> nat"

record ledger_state =
  ls_producer :: string
  ls_dimension :: string
  ls_symbols :: "string list"
  ls_maps :: ledger_maps

definition entry_of :: "batch_comment \<Rightarrow> jsobj \<Rightarrow> ledger_entry" where
  "entry_of c event = \<lparr>le_comment_id = comment_id c, le_created_at = created_at c,
     le_as_of = as_of_text (sb_object (comment_payload c)), le_event = event\<rparr>"

definition symbol_of :: "jsobj \<Rightarrow> string" where
  "symbol_of event = (case as_string (fld event ''symbol'') of None \<Rightarrow> '''' | Some s \<Rightarrow> s)"

definition evidence_of :: "jsobj \<Rightarrow> string list" where
  "evidence_of event =
     (case as_array (fld event ''evidence_keys'') of None \<Rightarrow> []
      | Some xs \<Rightarrow> List.map_filter (\<lambda>x. case as_string (Some x) of None \<Rightarrow> None | Some k \<Rightarrow> if k = '''' then None else Some k) xs)"

definition proposal_of :: "jsobj \<Rightarrow> string option" where
  "proposal_of event = z_enum [''R0'', ''R1'', ''R2''] (fld event ''r_proposal'')"

definition set_add :: "'a \<Rightarrow> 'a list \<Rightarrow> 'a list" where
  "set_add x xs = (if x \<in> set xs then xs else xs @ [x])"

definition add_event :: "string list \<Rightarrow> string \<Rightarrow> batch_comment \<Rightarrow> jsobj \<Rightarrow> ledger_maps \<Rightarrow> ledger_maps" where
  "add_event symbols dimension c event m =
     (let s = symbol_of event in
      if s \<notin> set symbols \<or> fld event ''dimension'' \<noteq> Some (JStr dimension) then m
      else m\<lparr>lm_count := (lm_count m)(s := map_option (\<lambda>n. n + 1) (lm_count m s)),
             lm_evidence := (lm_evidence m)(s := map_option (fold set_add (evidence_of event)) (lm_evidence m s)),
             lm_latest := (lm_latest m)(s \<mapsto> Some (entry_of c event)),
             lm_r_proposal := (if proposal_of event = None then lm_r_proposal m
                               else (lm_r_proposal m)(s \<mapsto> proposal_of event)),
             lm_history := (lm_history m)(s := map_option (\<lambda>h. h @ [entry_of c event]) (lm_history m s))\<rparr>)"

definition initial_maps :: "string list \<Rightarrow> ledger_maps" where
  "initial_maps symbols =
      \<lparr>lm_latest = (\<lambda>s. if s \<in> set symbols then Some None else None),
       lm_r_proposal = (\<lambda>s. if s \<in> set symbols then Some None else None),
       lm_history = (\<lambda>s. if s \<in> set symbols then Some [] else None),
       lm_evidence = (\<lambda>s. if s \<in> set symbols then Some [] else None),
       lm_count = (\<lambda>s. if s \<in> set symbols then Some 0 else None)\<rparr>"

definition slice_last :: "nat \<Rightarrow> 'a list \<Rightarrow> 'a list" where
  "slice_last n xs = drop (length xs - n) xs"

definition getInvestmentLedgerState ::
  "(string \<Rightarrow> string \<Rightarrow> int) \<Rightarrow> github \<Rightarrow> (nat \<Rightarrow> rat) \<Rightarrow> string \<Rightarrow> ledger_role \<Rightarrow> string list \<Rightarrow> int option
   \<Rightarrow> request list \<Rightarrow> request list \<times> (investment_error + ledger_state)" where
  "getInvestmentLedgerState lc fetch random token role inputSymbols limit trace =
     (if token = '''' then
        (trace, Inl (LedgerError INVESTMENT_LEDGER_UNAVAILABLE ''RESEARCH GitHub credential is unavailable'' None))
      else
      (let symbols = js_set inputSymbols; config = roleConfig role in
       if length symbols < 1 \<or> 512 < length symbols \<or> list_ex (\<lambda>s. \<not> is_instrument_key s) symbols
       then (trace, Inl (refused ''symbols must contain 1-512 canonical CN:/HK: instrument keys''))
       else (case fetchAllComments fetch random trace of
         (t1, Inl e) \<Rightarrow> (t1, Inl e)
       | (t1, Inr raw) \<Rightarrow>
         (let comments = validRoleComments lc raw role;
              maps = foldl (\<lambda>m c. foldl (\<lambda>m event. add_event symbols (rc_dimension config) c event m) m
                                     (sb_events (comment_payload c))) (initial_maps symbols) comments;
              historyLimit = max 0 (min 20 (case limit of None \<Rightarrow> 0 | Some n \<Rightarrow> n))
          in (t1, Inr \<lparr>ls_producer = rc_producer config, ls_dimension = rc_dimension config, ls_symbols = symbols,
               ls_maps = maps\<lparr>
                 lm_history := (\<lambda>s. map_option (\<lambda>h. if historyLimit = 0 then [] else slice_last (nat historyLimit) h) (lm_history maps s)),
                 lm_evidence := (\<lambda>s. map_option sort (lm_evidence maps s))\<rparr>\<rparr>)))))"

section \<open>Appending\<close>

record batch_result =
  br_status :: string
  br_comment_id :: string
  br_url :: string
  br_created_at :: string
  br_batch :: jsobj

definition batch_result_of :: "string \<Rightarrow> batch_comment \<Rightarrow> batch_result" where
  "batch_result_of status c = \<lparr>br_status = status, br_comment_id = comment_id c, br_url = comment_url c,
     br_created_at = created_at c, br_batch = sb_object (comment_payload c)\<rparr>"

definition investment_texts :: "investment_code append_texts" where
  "investment_texts = \<lparr>at_issue = INVESTMENT_LEDGER_ISSUE_NUMBER, at_unavailable = INVESTMENT_LEDGER_UNAVAILABLE,
     at_readback_failed = INVESTMENT_LEDGER_READBACK_FAILED, at_readback_subject = ''investment ledger'',
     at_mismatch = ''persisted investment batch does not match the submitted batch''\<rparr>"

text \<open>What the comments with the event id of the batch decide: a replay, a conflict, or nothing.\<close>

definition replay_decision :: "jsobj \<Rightarrow> batch_comment list \<Rightarrow> investment_error + batch_result option" where
  "replay_decision batch comments =
     (let sameEventId = filter (\<lambda>c. strict_eq (fld (sb_object (comment_payload c)) ''event_id'') (fld batch ''event_id'')) comments in
      case sameEventId of
        [] \<Rightarrow> Inr None
      | [existing] \<Rightarrow>
          if batchEquals (sb_object (comment_payload existing)) batch
          then Inr (Some (batch_result_of ''IDEMPOTENT_REPLAY'' existing))
          else Inl (LedgerError INVESTMENT_LEDGER_EVENT_ID_CONFLICT ''event_id already exists with different or duplicate content'' None)
      | _ \<Rightarrow> Inl (LedgerError INVESTMENT_LEDGER_EVENT_ID_CONFLICT ''event_id already exists with different or duplicate content'' None))"

definition appendInvestmentLedgerBatch ::
  "(string \<Rightarrow> int option) \<Rightarrow> (string \<Rightarrow> string \<Rightarrow> int) \<Rightarrow> github \<Rightarrow> (nat \<Rightarrow> rat) \<Rightarrow> string \<Rightarrow> ledger_role \<Rightarrow> jsval
   \<Rightarrow> request list \<Rightarrow> request list \<times> (investment_error + batch_result)" where
  "appendInvestmentLedgerBatch lp lc fetch random token role v trace =
     (case INVESTMENT_LEDGER_BATCH_INPUT_SCHEMA v of
        None \<Rightarrow> (trace, Inl (refused ''batch does not match the exact investment ledger schema''))
      | Some inp \<Rightarrow>
      (case validateRoleSemantics lp role inp of
        Inl e \<Rightarrow> (trace, Inl e)
      | Inr _ \<Rightarrow>
      if token = '''' then
        (trace, Inl (LedgerError INVESTMENT_LEDGER_UNAVAILABLE ''RESEARCH GitHub credential is unavailable'' None))
      else
      (let batch = enrichBatch role inp in
      (case fetchAllComments fetch random trace of
        (t1, Inl e) \<Rightarrow> (t1, Inl e)
      | (t1, Inr raw) \<Rightarrow>
      (case replay_decision batch (validRoleComments lc raw role) of
        Inl e \<Rightarrow> (t1, Inl e)
      | Inr (Some replay) \<Rightarrow> (t1, Inr replay)
      | Inr None \<Rightarrow>
      (case post_and_read_back investment_texts (JObj batch) parseExistingPayload
              (\<lambda>p. batchEquals (sb_object p) batch) fetch random t1 of
        (t2, Inl e) \<Rightarrow> (t2, Inl e)
      | (t2, Inr c) \<Rightarrow> (t2, Inr (batch_result_of ''PERSISTED'' c))))))))"

section \<open>Facts: what the schema and the roles accept\<close>

lemma array_items:
  assumes "z_array hi f v = Some ys" "y \<in> set ys"
  shows "\<exists>x. f x = Some y"
proof -
  obtain xs where "map f xs = map Some ys"
    using assms(1) by (auto simp: z_array_def all_some_Some split: option.splits if_splits)
  then have "Some y \<in> set (map f xs)" using assms(2) by simp
  then show ?thesis by auto
qed

lemma event_symbol:
  assumes "INVESTMENT_LEDGER_EVENT_INPUT_SCHEMA v = Some e"
  shows "\<exists>s. fld e ''symbol'' = Some (JStr s) \<and> is_instrument_key s"
proof -
  obtain e0 where z: "z_strict EVENT_KEYS (Some v) = Some e0" and e: "e = pick EVENT_KEYS e0"
    and s: "case as_string (fld e0 ''symbol'') of None \<Rightarrow> False | Some s \<Rightarrow> is_instrument_key s"
    using assms unfolding INVESTMENT_LEDGER_EVENT_INPUT_SCHEMA_def
    by (auto split: option.splits if_splits)
  have "''symbol'' \<in> set EVENT_KEYS" by (simp add: EVENT_KEYS_def)
  then have "fld e ''symbol'' = fld e0 ''symbol''" by (simp only: e fld_pick if_True)
  then show ?thesis using s by (auto split: option.splits)
qed

lemma input_events:
  assumes "INVESTMENT_LEDGER_BATCH_INPUT_SCHEMA v = Some inp" "e \<in> set (bi_events inp)"
  shows "\<exists>s. fld e ''symbol'' = Some (JStr s) \<and> is_instrument_key s"
  using assms array_items event_symbol
  by (fastforce simp: INVESTMENT_LEDGER_BATCH_INPUT_SCHEMA_def bind_eq_Some_conv filter_option_Some)

lemma input_nonempty: "INVESTMENT_LEDGER_BATCH_INPUT_SCHEMA v = Some inp \<Longrightarrow> bi_events inp \<noteq> []"
  by (auto simp: INVESTMENT_LEDGER_BATCH_INPUT_SCHEMA_def bind_eq_Some_conv filter_option_Some)

lemma checked_events:
  assumes "validateRoleSemantics lp role inp = Inr u" "e \<in> set (bi_events inp)"
  shows "check_event role e k = Inr ()"
proof -
  obtain us where us: "mapE (check_event role) (bi_events inp) = Inr us"
    using assms(1) by (auto simp: validateRoleSemantics_def Let_def bindE_Inr simp del: throw_if.simps)
  obtain i where i: "i < length (bi_events inp)" "bi_events inp ! i = e" using assms(2) by (auto simp: in_set_conv_nth)
  have "check_event role e i = Inr (us ! i)" using us i by (auto simp: mapE_from_Inr)
  then show ?thesis by (simp add: check_event_def del: throw_if.simps)
qed

definition enriched :: "ledger_role \<Rightarrow> jsobj \<Rightarrow> jsobj" where
  "enriched role e = spread e [(''dimension'', JStr (rc_dimension (roleConfig role)))]"

lemma enriched_fld:
  "fld (enriched role e) f = (if f = ''dimension'' then Some (JStr (rc_dimension (roleConfig role))) else fld e f)"
  by (simp add: enriched_def fld_spread)

lemma enriched_owns: "f \<noteq> ''dimension'' \<Longrightarrow> owns (enriched role e) f = owns e f"
  by (simp add: owns_def enriched_fld)

text \<open>The batch that is posted, property by property.\<close>

lemma enrichBatch_object:
  "enrichBatch role inp =
     [(''schema_version'', JStr ''investment_state_batch_v1''), (''portfolio_version'', JStr (bi_portfolio_version inp)),
      (''event_id'', JStr (bi_event_id inp)), (''as_of'', JStr (bi_as_of inp)),
      (''events'', JArr (map (\<lambda>e. JObj (enriched role e)) (bi_events inp))),
      (''producer'', JStr (rc_producer (roleConfig role))), (''source_task'', JStr (rc_source_task (roleConfig role)))]"
  by (simp add: enrichBatch_def Let_def batch_object_def spread_def obj_set_def has_key_def enriched_def)

lemma role_names: "rc_dimension (roleConfig role) \<in> {''INDUSTRY'', ''COMPANY'', ''CLOSE''}"
  "rc_producer (roleConfig role) \<in> {''industry_trend'', ''company_validation'', ''close_review''}"
  by (cases role; simp)+

lemma fld_image: "fld (map (\<lambda>(k, v). (k, json_image v)) ob) f = map_option json_image (fld ob f)"
  by (induction ob) auto

lemma known_enriched:
  assumes "fld e ''symbol'' = Some (JStr s)"
  shows "known_event (json_image (JObj (enriched role e))) = Some (map (\<lambda>(k, v). (k, json_image v)) (enriched role e))"
  using assms role_names(1) [of role] by (simp add: known_event_def fld_image enriched_fld)

definition stored_of :: "ledger_role \<Rightarrow> batch_input \<Rightarrow> stored_batch" where
  "stored_of role inp =
     \<lparr>sb_object = map (\<lambda>(k, v). (k, json_image v)) (enrichBatch role inp),
      sb_events = map (\<lambda>e. map (\<lambda>(k, v). (k, json_image v)) (enriched role e)) (bi_events inp)\<rparr>"

lemma map_filter_all: "(\<And>x. x \<in> set xs \<Longrightarrow> f x = Some (g x)) \<Longrightarrow> List.map_filter f xs = map g xs"
  by (induction xs) (simp_all add: map_filter_simps)

lemma posted_batch_read:
  assumes "INVESTMENT_LEDGER_BATCH_INPUT_SCHEMA v = Some inp"
  shows "parseExistingValue (json_image (JObj (enrichBatch role inp))) = Some (stored_of role inp)"
proof -
  let ?img = "map (\<lambda>(k, v). (k, json_image v))"
  let ?ob = "?img (enrichBatch role inp)"
  have ev: "fld ?ob ''events'' = Some (JArr (map (\<lambda>e. json_image (JObj (enriched role e))) (bi_events inp)))"
    by (simp add: enrichBatch_object)
  have known: "List.map_filter known_event (map (\<lambda>e. json_image (JObj (enriched role e))) (bi_events inp))
      = map (\<lambda>e. ?img (enriched role e)) (bi_events inp)"
  proof -
    have "List.map_filter (known_event \<circ> (\<lambda>e. json_image (JObj (enriched role e)))) (bi_events inp)
        = map (\<lambda>e. ?img (enriched role e)) (bi_events inp)"
      by (rule map_filter_all) (use input_events [OF assms] known_enriched in fastforce)
    then show ?thesis by (simp add: map_filter_def filter_map comp_def)
  qed
  have same: "spread ?ob [(''events'', JArr (map JObj (map (\<lambda>e. ?img (enriched role e)) (bi_events inp))))] = ?ob"
    by (simp add: enrichBatch_object spread_def obj_set_def has_key_def comp_def)
  have w: "json_image (JObj (enrichBatch role inp)) = JObj ?ob" by simp
  have f: "fld ?ob ''schema_version'' = Some (JStr ''investment_state_batch_v1'')"
    "fld ?ob ''producer'' = Some (JStr (rc_producer (roleConfig role)))"
    by (simp_all add: enrichBatch_object)
  have ne: "map (\<lambda>e. ?img (enriched role e)) (bi_events inp) \<noteq> []" using input_nonempty [OF assms] by simp
  have p: "(case as_string (Some (JStr (rc_producer (roleConfig role)))) of None \<Rightarrow> True
      | Some p \<Rightarrow> p \<notin> {''industry_trend'', ''company_validation'', ''close_review''}) = False"
    using role_names(2) [of role] by simp
  show ?thesis
    unfolding w parseExistingValue_def as_record.simps option.case f p ev as_array.simps Let_def known same
    using ne by (simp add: stored_of_def)
qed

lemma stored_equals: "batchEquals (sb_object (stored_of role inp)) (enrichBatch role inp)"
  unfolding batchEquals_def using json_equals_image [of "JObj (enrichBatch role inp)"] by (simp add: stored_of_def)

section \<open>Facts: the state by symbol\<close>

lemma set_fold_add: "set (fold set_add xs ys) = set ys \<union> set xs"
  by (induction xs arbitrary: ys) (auto simp: set_add_def)

lemma distinct_fold_add: "distinct ys \<Longrightarrow> distinct (fold set_add xs ys)"
  by (induction xs arbitrary: ys) (auto simp: set_add_def)

definition concerns :: "string \<Rightarrow> string \<Rightarrow> batch_comment \<times> jsobj \<Rightarrow> bool" where
  "concerns dimension s p \<longleftrightarrow> symbol_of (snd p) = s \<and> fld (snd p) ''dimension'' = Some (JStr dimension)"

definition events_in_order :: "batch_comment list \<Rightarrow> (batch_comment \<times> jsobj) list" where
  "events_in_order cs = concat (map (\<lambda>c. map (Pair c) (sb_events (comment_payload c))) cs)"

abbreviation maps_after :: "string list \<Rightarrow> string \<Rightarrow> (batch_comment \<times> jsobj) list \<Rightarrow> ledger_maps" where
  "maps_after symbols dimension ps \<equiv> foldl (\<lambda>m (c, e). add_event symbols dimension c e m) (initial_maps symbols) ps"

lemma nested_fold:
  "foldl (\<lambda>m c. foldl (\<lambda>m event. add_event symbols dimension c event m) m (sb_events (comment_payload c))) m cs
   = foldl (\<lambda>m (c, e). add_event symbols dimension c e m) m (events_in_order cs)"
proof (induction cs arbitrary: m)
  case (Cons c cs)
  have "foldl (\<lambda>m event. add_event symbols dimension c event m) m es
      = foldl (\<lambda>m (c, e). add_event symbols dimension c e m) m (map (Pair c) es)" for es m
    by (induction es arbitrary: m) auto
  then show ?case using Cons by (simp add: events_in_order_def)
qed (simp add: events_in_order_def)

lemma last_of_snoc [simp]: "last_of (xs @ [x]) = Some x"
  by (simp add: last_of_def)

lemma maps_after_exact:
  fixes dimension :: string
  assumes "s \<in> set symbols"
  defines "es \<equiv> \<lambda>ps. filter (concerns dimension s) ps"
  shows "lm_count (maps_after symbols dimension ps) s = Some (length (es ps))
    \<and> lm_history (maps_after symbols dimension ps) s = Some (map (\<lambda>(c, e). entry_of c e) (es ps))
    \<and> lm_latest (maps_after symbols dimension ps) s = Some (last_of (map (\<lambda>(c, e). entry_of c e) (es ps)))
    \<and> lm_evidence (maps_after symbols dimension ps) s = Some (fold set_add (concat (map (\<lambda>p. evidence_of (snd p)) (es ps))) [])
    \<and> lm_r_proposal (maps_after symbols dimension ps) s = Some (last_of (List.map_filter (\<lambda>p. proposal_of (snd p)) (es ps)))"
proof (induction ps rule: rev_induct)
  case Nil
  then show ?case using assms(1) by (simp add: es_def initial_maps_def last_of_def map_filter_def)
next
  case (snoc p ps)
  obtain c e where p: "p = (c, e)" by fastforce
  show ?case
  proof (cases "concerns dimension s (c, e)")
    case True
    then have s: "symbol_of e = s" "fld e ''dimension'' = Some (JStr dimension)" by (simp_all add: concerns_def)
    then show ?thesis
      using snoc True assms(1)
      by (auto simp: p es_def add_event_def Let_def map_filter_def)
  next
    case False
    then have n: "symbol_of e \<noteq> s \<or> fld e ''dimension'' \<noteq> Some (JStr dimension)" by (auto simp: concerns_def)
    have "lm_count (add_event symbols dimension c e m) s = lm_count m s \<and> lm_history (add_event symbols dimension c e m) s = lm_history m s
      \<and> lm_latest (add_event symbols dimension c e m) s = lm_latest m s \<and> lm_evidence (add_event symbols dimension c e m) s = lm_evidence m s
      \<and> lm_r_proposal (add_event symbols dimension c e m) s = lm_r_proposal m s" for m
      using n by (auto simp: add_event_def Let_def)
    then show ?thesis using snoc False by (simp add: p es_def)
  qed
qed

lemma valid_role_append:
  assumes "three_way lc" "toLedgerComment g = Some c"
    and "fld (sb_object (comment_payload c)) ''producer'' = Some (JStr (rc_producer (roleConfig role)))"
    and "filter P (validRoleComments lc raw role) = []" "P c"
  shows "filter P (validRoleComments lc (raw @ [g]) role) = [c]"
proof -
  have cmp: "comparator (compare_batches lc)"
    unfolding compare_batches_def
    by (intro three_way.axioms(1) chain_three_way three_way.cmp_image [OF assms(1)])
  have "filter P (filter (\<lambda>c. fld (sb_object (comment_payload c)) ''producer'' = Some (JStr (rc_producer (roleConfig role))))
      (List.map_filter toLedgerComment raw)) = []"
    using assms(4) by (simp add: validRoleComments_def filter_empty_conv)
  moreover have "List.map_filter toLedgerComment (raw @ [g]) = List.map_filter toLedgerComment raw @ [c]"
    using assms(2) by (simp add: map_filter_def)
  ultimately have "filter P (filter (\<lambda>c. fld (sb_object (comment_payload c)) ''producer'' = Some (JStr (rc_producer (roleConfig role))))
      (List.map_filter toLedgerComment (raw @ [g]))) = [c]"
    using assms(3,5) by simp
  then show ?thesis unfolding validRoleComments_def comparator.filter_sort [OF cmp] by (simp add: sort_by_def)
qed

lemma fetchAllComments_trace:
  "fetchAllComments fetch random trace = (t, r) \<Longrightarrow> posts t = posts trace \<and> length t \<le> length trace + 300"
  unfolding fetchAllComments_def by (rule fetch_comments_trace)

lemma append_batch_reaches:
  assumes "INVESTMENT_LEDGER_BATCH_INPUT_SCHEMA v = Some inp" "validateRoleSemantics lp role inp = Inr ()"
    "token \<noteq> ''''" "fetchAllComments fetch random trace = (t1, Inr raw)"
  shows "appendInvestmentLedgerBatch lp lc fetch random token role v trace =
    (case replay_decision (enrichBatch role inp) (validRoleComments lc raw role) of
        Inl e \<Rightarrow> (t1, Inl e)
      | Inr (Some replay) \<Rightarrow> (t1, Inr replay)
      | Inr None \<Rightarrow>
      (case post_and_read_back investment_texts (JObj (enrichBatch role inp)) parseExistingPayload
              (\<lambda>p. batchEquals (sb_object p) (enrichBatch role inp)) fetch random t1 of
        (t2, Inl e) \<Rightarrow> (t2, Inl e)
      | (t2, Inr c) \<Rightarrow> (t2, Inr (batch_result_of ''PERSISTED'' c))))"
  using assms by (simp add: appendInvestmentLedgerBatch_def Let_def)

abbreviation same_event :: "string \<Rightarrow> batch_comment \<Rightarrow> bool" where
  "same_event i c \<equiv> fld (sb_object (comment_payload c)) ''event_id'' = Some (JStr i)"

lemma strict_eq_str: "strict_eq v (Some (JStr i)) \<longleftrightarrow> v = Some (JStr i)"
  by (cases "(v, Some (JStr i))" rule: strict_eq.cases) auto

lemma replay_decision_cases:
  "replay_decision (enrichBatch role inp) comments =
    (case filter (same_event (bi_event_id inp)) comments of
       [] \<Rightarrow> Inr None
     | [c] \<Rightarrow> if batchEquals (sb_object (comment_payload c)) (enrichBatch role inp)
         then Inr (Some (batch_result_of ''IDEMPOTENT_REPLAY'' c))
         else Inl (LedgerError INVESTMENT_LEDGER_EVENT_ID_CONFLICT ''event_id already exists with different or duplicate content'' None)
     | _ \<Rightarrow> Inl (LedgerError INVESTMENT_LEDGER_EVENT_ID_CONFLICT ''event_id already exists with different or duplicate content'' None))"
proof -
  have "fld (enrichBatch role inp) ''event_id'' = Some (JStr (bi_event_id inp))" by (simp add: enrichBatch_object)
  then show ?thesis by (simp add: replay_decision_def strict_eq_str)
qed

section \<open>Properties\<close>


text \<open>C16: the state that the single pass over the comments builds is, for every asked symbol, what a
  reader would compute from the events of the symbol in the order of the ledger: their number, the
  last of them, the last proposal, the last ones up to the limit as history, and all their evidence
  keys, sorted and once each.\<close>

theorem ledger_state_equivalent:
  assumes "getInvestmentLedgerState lc fetch random token role inputSymbols limit trace = (t, Inr st)"
    and "s \<in> set inputSymbols"
  shows "\<exists>raw. fetchAllComments fetch random trace = (t, Inr raw)
    \<and> (let es = filter (concerns (rc_dimension (roleConfig role)) s) (events_in_order (validRoleComments lc raw role));
           entries = map (\<lambda>(c, e). entry_of c e) es;
           n = nat (max 0 (min 20 (case limit of None \<Rightarrow> 0 | Some n \<Rightarrow> n))) in
        lm_count (ls_maps st) s = Some (length es)
        \<and> lm_latest (ls_maps st) s = Some (last_of entries)
        \<and> lm_r_proposal (ls_maps st) s = Some (last_of (List.map_filter (\<lambda>p. proposal_of (snd p)) es))
        \<and> lm_history (ls_maps st) s = Some (drop (length entries - n) entries)
        \<and> lm_evidence (ls_maps st) s = Some (sorted_list_of_set (\<Union>p \<in> set es. set (evidence_of (snd p)))))"
proof -
  obtain raw where raw: "fetchAllComments fetch random trace = (t, Inr raw)"
    and st: "ls_maps st = (let maps = maps_after (js_set inputSymbols) (rc_dimension (roleConfig role))
          (events_in_order (validRoleComments lc raw role));
        historyLimit = max 0 (min 20 (case limit of None \<Rightarrow> 0 | Some n \<Rightarrow> n)) in
      maps\<lparr>lm_history := (\<lambda>s. map_option (\<lambda>h. if historyLimit = 0 then [] else slice_last (nat historyLimit) h) (lm_history maps s)),
           lm_evidence := (\<lambda>s. map_option sort (lm_evidence maps s))\<rparr>)"
    using assms(1)
    by (auto simp: getInvestmentLedgerState_def Let_def nested_fold split: if_splits prod.splits sum.splits)
  let ?ps = "events_in_order (validRoleComments lc raw role)"
  let ?es = "filter (concerns (rc_dimension (roleConfig role)) s) ?ps"
  have "s \<in> set (js_set inputSymbols)" using assms(2) by simp
  note m = maps_after_exact [OF this, of "rc_dimension (roleConfig role)" ?ps]
  have ev: "sort (fold set_add (concat (map (\<lambda>p. evidence_of (snd p)) ?es)) [])
      = sorted_list_of_set (\<Union>p \<in> set ?es. set (evidence_of (snd p)))"
    using sorted_list_of_set_sort_remdups [of "fold set_add (concat (map (\<lambda>p. evidence_of (snd p)) ?es)) []"]
    by (simp add: set_fold_add distinct_fold_add distinct_remdups_id)
  show ?thesis
    unfolding Let_def
    by (intro exI [of _ raw] conjI) (use raw m ev in \<open>auto simp: st Let_def slice_last_def\<close>)
qed



section \<open>Witnesses\<close>

text \<open>One industry event, in an empty ledger.\<close>

definition sample_batch :: jsval where
  "sample_batch = JObj
     [(''schema_version'', JStr ''investment_state_batch_v1''), (''portfolio_version'', JStr ''p1''),
      (''event_id'', JStr ''20260105T101500+08|industry_trend|BATCH''), (''as_of'', JStr ''2026-01-05T02:15:00Z''),
      (''events'', JArr [JObj
        [(''symbol'', JStr ''CN:600000''), (''event_type'', JStr ''STATE_SET''), (''r_proposal'', JStr ''R1''),
         (''evidence_types'', JArr []), (''evidence_keys'', JArr [JStr ''k2'', JStr ''k1'', JStr ''k2'']),
         (''counter_evidence'', JArr []), (''confidence'', JInt 1), (''next_validation'', JNull)]])]"

definition sample_inp :: batch_input where
  "sample_inp = the (INVESTMENT_LEDGER_BATCH_INPUT_SCHEMA sample_batch)"

definition sample_comment :: github_comment where
  "sample_comment = stored_comment (JObj (enrichBatch Industry sample_inp)) ''7'' ''u'' ''t''"

definition sample_issue :: "github_comment list \<Rightarrow> github" where
  "sample_issue raw trace req =
     (case req of
        GetList _ \<Rightarrow> Answered 200 \<lparr>rs_payload = Comments raw, rs_link = None\<rparr>
      | Post _ _ \<Rightarrow> Answered 201 \<lparr>rs_payload = Comment sample_comment, rs_link = None\<rparr>
      | GetComment _ \<Rightarrow> Answered 200 \<lparr>rs_payload = Comment sample_comment, rs_link = None\<rparr>)"

lemma sample_accepted:
  "INVESTMENT_LEDGER_BATCH_INPUT_SCHEMA sample_batch = Some sample_inp"
  "validateRoleSemantics (\<lambda>_. None) Industry sample_inp = Inr ()"
  "\<not> has_fence (JObj (enrichBatch Industry sample_inp))"
  by code_simp+

lemma sample_list:
  "fetchAllComments (sample_issue raw) random trace
    = (trace @ [GetList (list_url INVESTMENT_LEDGER_ISSUE_NUMBER None)], Inr raw)"
  unfolding fetchAllComments_def by (rule fetch_comments_single [where status = 200]) (simp_all add: sample_issue_def response_ok_def)

lemma sample_kept: "keeps_post (sample_issue raw) 3 (JObj (enrichBatch Industry sample_inp)) trace ''7'' ''u'' ''t''"
  by (simp add: keeps_post_def sample_issue_def sample_comment_def stored_comment_def response_ok_def Let_def)




theorem ledger_state_equivalent_witness:
  "\<exists>t st. getInvestmentLedgerState cu_cmp (sample_issue [sample_comment]) (\<lambda>_. 0) ''token'' Industry [''CN:600000''] None [] = (t, Inr st)
    \<and> lm_evidence (ls_maps st) ''CN:600000'' \<noteq> None"
proof -
  have "\<exists>t st. getInvestmentLedgerState cu_cmp (sample_issue [sample_comment]) (\<lambda>_. 0) ''token'' Industry [''CN:600000''] None [] = (t, Inr st)"
  proof -
    have c: "(length (js_set [''CN:600000'']) < 1 \<or> 512 < length (js_set [''CN:600000''])
        \<or> list_ex (\<lambda>s. \<not> is_instrument_key s) (js_set [''CN:600000''])) = False"
      "(''token'' = '''') = False" by code_simp+
    show ?thesis unfolding getInvestmentLedgerState_def Let_def c if_False sample_list prod.case sum.case by blast
  qed
  then obtain t st where s: "getInvestmentLedgerState cu_cmp (sample_issue [sample_comment]) (\<lambda>_. 0) ''token'' Industry [''CN:600000''] None [] = (t, Inr st)"
    by blast
  have "''CN:600000'' \<in> set [''CN:600000'']" by simp
  from ledger_state_equivalent [OF s this]
  obtain x where "lm_evidence (ls_maps st) ''CN:600000'' = Some x" unfolding Let_def by blast
  then have "lm_evidence (ls_maps st) ''CN:600000'' \<noteq> None" by simp
  with s show ?thesis by blast
qed

end
