(* ===== verification/State_Gateway.thy ===== *)
theory State_Gateway
  imports Market_Ledger Investment_Ledger State_Receipts
begin

text \<open>
  \<open>src/src/state-gateway.ts\<close>: the one door of the state writes. A batch is validated, for a CLOSE
  batch also against the other ledgers, its write key is reserved in the receipts, the batch is
  appended to its ledger, and the receipt is settled to what came of it. The store of receipts and
  the requests to GitHub are threaded through; what the other workers do to the receipts while the
  append runs is the parameter \<open>meanwhile\<close>, the SHA-256 of a canonical value is the parameter \<open>sha\<close>.
  The request id that an error without one is given at random is \<open>None\<close>.
\<close>

section \<open>Errors\<close>

datatype state_phase = AUTH | VALIDATE | READ | RECONCILE | WRITE | READBACK

datatype state_code =
    STATE_FORBIDDEN | STATE_VALIDATION_FAILED | STATE_CONFLICT | STATE_CHAIN_MISMATCH | STATE_UNAVAILABLE
  | STATE_OUTCOME_UNKNOWN | STATE_READBACK_FAILED

record state_error =
  se_code :: state_code
  se_phase :: state_phase
  se_message :: string
  se_retryable :: bool
  se_request_id :: "string option"
  se_http_status :: "int option"

definition state_error_of :: "state_code \<Rightarrow> state_phase \<Rightarrow> string \<Rightarrow> bool \<Rightarrow> string option \<Rightarrow> int option \<Rightarrow> state_error" where
  "state_error_of code phase m retryable requestId status =
     \<lparr>se_code = code, se_phase = phase, se_message = m, se_retryable = retryable, se_request_id = requestId,
      se_http_status = status\<rparr>"

text \<open>What can be thrown below the gateway.\<close>

datatype domain_error = Gateway state_error | Market market_error | Investment investment_error | Other string

definition normalizeStateGatewayError ::
  "domain_error \<Rightarrow> state_phase \<Rightarrow> bool option \<Rightarrow> string option \<Rightarrow> string option \<Rightarrow> state_error" where
  "normalizeStateGatewayError error phase retryable requestId m =
     (case error of
        Gateway e \<Rightarrow> e
      | _ \<Rightarrow> state_error_of STATE_UNAVAILABLE phase
          (case m of None \<Rightarrow> ''state gateway operation failed'' | Some t \<Rightarrow> t)
          (case retryable of None \<Rightarrow> False | Some b \<Rightarrow> b) requestId None)"

definition mapDomainError :: "domain_error \<Rightarrow> string \<Rightarrow> state_error" where
  "mapDomainError error requestId =
     (let invalid = (\<lambda>code m. state_error_of code VALIDATE m False (Some requestId) None);
          readback = (\<lambda>m h. state_error_of STATE_READBACK_FAILED READBACK m True (Some requestId) h);
          unknown = (\<lambda>m h. state_error_of STATE_OUTCOME_UNKNOWN WRITE m (h \<noteq> Some 401 \<and> h \<noteq> Some 403) (Some requestId) h)
      in case error of
        Gateway e \<Rightarrow> e
      | Market (LedgerError code m h) \<Rightarrow>
          (case code of
             CHECKPOINT_CONFLICT \<Rightarrow> invalid STATE_CONFLICT m
           | CHECKPOINT_CHAIN_MISMATCH \<Rightarrow> invalid STATE_CHAIN_MISMATCH m
           | CHECKPOINT_VALIDATION_FAILED \<Rightarrow> invalid STATE_VALIDATION_FAILED m
           | CHECKPOINT_READBACK_FAILED \<Rightarrow> readback m h
           | MARKET_LEDGER_UNAVAILABLE \<Rightarrow> unknown m h)
      | Investment (LedgerError code m h) \<Rightarrow>
          (case code of
             INVESTMENT_LEDGER_VALIDATION_FAILED \<Rightarrow> invalid STATE_VALIDATION_FAILED m
           | INVESTMENT_LEDGER_EVENT_ID_CONFLICT \<Rightarrow> invalid STATE_CONFLICT m
           | INVESTMENT_LEDGER_READBACK_FAILED \<Rightarrow> readback m h
           | INVESTMENT_LEDGER_UNAVAILABLE \<Rightarrow> unknown m h)
      | _ \<Rightarrow> state_error_of STATE_UNAVAILABLE WRITE ''state gateway operation failed'' True (Some requestId) None)"

section \<open>Validation\<close>

fun roleForChannel :: "write_channel \<Rightarrow> ledger_role option" where
  "roleForChannel INDUSTRY = Some Industry"
| "roleForChannel COMPANY = Some Company"
| "roleForChannel CLOSE = Some Close"
| "roleForChannel MARKET = None"

definition sha256Hex :: "(jsval \<Rightarrow> string) \<Rightarrow> jsval \<Rightarrow> string" where
  "sha256Hex sha v = sha (json_image (canonicalize v))"

record validated_batch =
  vb_channel :: write_channel
  vb_write_key :: string
  vb_payload_sha256 :: string
  vb_schema_version :: string
  vb_normalized :: "checkpoint + batch_input"

text \<open>The task name of the MARKET producer, by the escapes of its code units.\<close>

definition MARKET_SOURCE_TASK :: string where
  "MARKET_SOURCE_TASK = ''u6301 u4ed3 u52a9 u624b''"

definition invalid_batch :: "string \<Rightarrow> domain_error" where
  "invalid_batch m = Gateway (state_error_of STATE_VALIDATION_FAILED VALIDATE m False None None)"

fun market_validation_error :: "market_error \<Rightarrow> domain_error" where
  "market_validation_error (LedgerError code m h) =
     Gateway (state_error_of
       (if code = CHECKPOINT_CHAIN_MISMATCH then STATE_CHAIN_MISMATCH
        else if code = CHECKPOINT_CONFLICT then STATE_CONFLICT else STATE_VALIDATION_FAILED)
       VALIDATE m False None h)"
| "market_validation_error (RawError m) = Other m"

fun investment_validation_error :: "investment_error \<Rightarrow> domain_error" where
  "investment_validation_error (LedgerError code m h) =
     Gateway (state_error_of
       (if code = INVESTMENT_LEDGER_EVENT_ID_CONFLICT then STATE_CONFLICT else STATE_VALIDATION_FAILED)
       VALIDATE m False None h)"
| "investment_validation_error (RawError m) = Other m"

definition validateStateBatch ::
  "(string \<Rightarrow> int option) \<Rightarrow> (jsval \<Rightarrow> string) \<Rightarrow> write_channel \<Rightarrow> jsval \<Rightarrow> domain_error + validated_batch" where
  "validateStateBatch lp sha channel batch =
     (case roleForChannel channel of
        None \<Rightarrow>
          (case MARKET_CHECKPOINT_INPUT_SCHEMA batch of
             None \<Rightarrow> Inl (invalid_batch ''market batch does not match exact schema'')
           | Some cp \<Rightarrow>
           (case validateCheckpointRelations lp cp of
             Inl e \<Rightarrow> Inl (market_validation_error e)
           | Inr _ \<Rightarrow>
             if cp_prompt_id cp \<noteq> ''holding-assistant'' \<or> cp_producer cp \<noteq> ''holding-assistant''
                \<or> cp_source_task cp \<noteq> MARKET_SOURCE_TASK
             then Inl (invalid_batch ''MARKET profile identity fields do not match the fixed producer contract'')
             else Inr \<lparr>vb_channel = channel, vb_write_key = cp_idempotency_key cp,
               vb_payload_sha256 = sha256Hex sha (checkpoint_object cp), vb_schema_version = cp_schema_version cp,
               vb_normalized = Inl cp\<rparr>))
      | Some role \<Rightarrow>
          (case INVESTMENT_LEDGER_BATCH_INPUT_SCHEMA batch of
             None \<Rightarrow> Inl (invalid_batch ''investment batch does not match exact schema'')
           | Some inp \<Rightarrow>
           (case validateRoleSemantics lp role inp of
             Inl e \<Rightarrow> Inl (investment_validation_error e)
           | Inr _ \<Rightarrow> Inr \<lparr>vb_channel = channel, vb_write_key = bi_event_id inp,
               vb_payload_sha256 = sha256Hex sha (JObj (batch_object inp)),
               vb_schema_version = ''investment_state_batch_v1'', vb_normalized = Inr inp\<rparr>)))"

section \<open>The dependencies of a CLOSE batch\<close>

text \<open>\<open>/^(\d{6})\.(?:SZ|SH)$/i\<close> and \<open>/^(\d{1,5})\.HK$/i\<close>\<close>

definition cn_suffix :: "string \<Rightarrow> string option" where
  "cn_suffix s =
     (if length s = 9 \<and> list_all is_digit (take 6 s) \<and> map lower_ascii (drop 6 s) \<in> {''.sz'', ''.sh''}
      then Some (take 6 s) else None)"

definition hk_suffix :: "string \<Rightarrow> string option" where
  "hk_suffix s =
     (let digits = takeWhile is_digit s in
      if 1 \<le> length digits \<and> length digits \<le> 5 \<and> map lower_ascii (dropWhile is_digit s) = ''.hk''
      then Some digits else None)"

definition pad_start5 :: "string \<Rightarrow> string" where
  "pad_start5 s = replicate (5 - length s) CHR ''0'' @ s"

definition marketRecordCanonicalSymbol :: "jsobj \<Rightarrow> string option" where
  "marketRecordCanonicalSymbol rec =
     (let from_raw =
        (let raw = (case as_string (fld rec ''subject_key'') of Some s \<Rightarrow> Some s
                    | None \<Rightarrow> as_string (fld rec ''instrument_key'')) in
         case raw of None \<Rightarrow> None
         | Some r \<Rightarrow>
           if r = '''' then None
           else if is_instrument_key r then Some r
           else (case cn_suffix r of Some c \<Rightarrow> Some (''CN:'' @ c)
             | None \<Rightarrow> (case hk_suffix r of Some h \<Rightarrow> Some (''HK:'' @ pad_start5 h) | None \<Rightarrow> None)))
      in case as_string (fld rec ''symbol'') of
           Some s \<Rightarrow> if is_instrument_key s then Some s else from_raw
         | None \<Rightarrow> from_raw)"

definition marketRecordHasSustainedConfirmation :: "jsobj \<Rightarrow> bool" where
  "marketRecordHasSustainedConfirmation rec \<longleftrightarrow>
     (case Option.bind (fld rec ''continuous_market_structure'') as_record of
        Some c \<Rightarrow> fld c ''status'' = Some (JStr ''CONFIRMED'')
      | None \<Rightarrow> False)
     \<or> fld rec ''r4_candidate'' = Some (JBool True)"

definition checkpointHasConfirmedSymbol :: "jsobj list \<Rightarrow> string \<Rightarrow> bool" where
  "checkpointHasConfirmedSymbol records symbol \<longleftrightarrow>
     list_ex (\<lambda>r. marketRecordCanonicalSymbol r = Some symbol \<and> marketRecordHasSustainedConfirmation r) records"

definition effective :: "jsobj \<Rightarrow> string \<Rightarrow> bool" where
  "effective event r \<longleftrightarrow> fld event ''effective_r_state'' = Some (JStr r)"

definition r4_candidate :: "jsobj \<Rightarrow> bool" where
  "r4_candidate event \<longleftrightarrow> fld event ''r4_candidate'' = Some (JBool True)"

definition chain_error :: "string \<Rightarrow> domain_error" where
  "chain_error m = Gateway (state_error_of STATE_CHAIN_MISMATCH VALIDATE m False None None)"

text \<open>\<open>latest_by_symbol[symbol]?.event.r_proposal\<close>\<close>

definition latest_proposal :: "ledger_state \<Rightarrow> string \<Rightarrow> jsval option" where
  "latest_proposal st symbol =
     (case lm_latest (ls_maps st) symbol of Some (Some entry) \<Rightarrow> fld (le_event entry) ''r_proposal'' | _ \<Rightarrow> None)"

text \<open>One ledger that some of the events need: nothing is read when there are none.\<close>

definition require_proposal ::
  "(string \<Rightarrow> string \<Rightarrow> int) \<Rightarrow> github \<Rightarrow> (nat \<Rightarrow> rat) \<Rightarrow> string \<Rightarrow> ledger_role \<Rightarrow> string \<Rightarrow> (string \<Rightarrow> string)
   \<Rightarrow> jsobj list \<Rightarrow> request list \<Rightarrow> request list \<times> (domain_error + unit)" where
  "require_proposal lc fetch random token role level message events trace =
     (if events = [] then (trace, Inr ())
      else (case getInvestmentLedgerState lc fetch random token role (js_set (map symbol_of events)) None trace of
        (t1, Inl e) \<Rightarrow> (t1, Inl (Investment e))
      | (t1, Inr st) \<Rightarrow>
          (t1, throw_if (map (\<lambda>e. (latest_proposal st (symbol_of e) \<noteq> Some (JStr level), chain_error (message (symbol_of e)))) events))))"

definition market_guards :: "checkpoint_state \<Rightarrow> jsobj list \<Rightarrow> jsobj \<Rightarrow> (bool \<times> domain_error) list" where
  "market_guards market closeRecords event =
     (let s = symbol_of event in
      [(\<not> checkpointHasConfirmedSymbol closeRecords s,
        chain_error (''R4 candidate/confirmation for '' @ s @ '' requires same-day sustained MARKET confirmation'')),
       (effective event ''R4''
        \<and> (case ms_previous_close market of None \<Rightarrow> True
           | Some p \<Rightarrow> \<not> checkpointHasConfirmedSymbol (cp_records (comment_payload p)) s),
        chain_error (''formal R4 for '' @ s @ '' requires sustained MARKET confirmation across two closes''))])"

definition require_market ::
  "(string \<Rightarrow> int option) \<Rightarrow> (string \<Rightarrow> string \<Rightarrow> int) \<Rightarrow> github \<Rightarrow> (nat \<Rightarrow> rat) \<Rightarrow> string \<Rightarrow> string
   \<Rightarrow> jsobj list \<Rightarrow> request list \<Rightarrow> request list \<times> (domain_error + unit)" where
  "require_market lp lc fetch random token asOf events trace =
     (if events = [] then (trace, Inr ())
      else (case getMarketCheckpoints lp lc fetch random token (take 10 asOf) ''16:45'' trace of
        (t1, Inl e) \<Rightarrow> (t1, Inl (Market e))
      | (t1, Inr market) \<Rightarrow>
          (t1, case ms_current_slot market of
             None \<Rightarrow> Inl (chain_error ''R4 candidate/confirmation requires the same-day MARKET close checkpoint'')
           | Some current \<Rightarrow>
               if cp_observation_type (comment_payload current) \<noteq> ''CLOSE''
               then Inl (chain_error ''R4 candidate/confirmation requires the same-day MARKET close checkpoint'')
               else throw_if (concat (map (market_guards market (cp_records (comment_payload current))) events)))))"

definition validateCloseDependencies ::
  "(string \<Rightarrow> int option) \<Rightarrow> (string \<Rightarrow> string \<Rightarrow> int) \<Rightarrow> github \<Rightarrow> (nat \<Rightarrow> rat) \<Rightarrow> string \<Rightarrow> batch_input
   \<Rightarrow> request list \<Rightarrow> request list \<times> (domain_error + unit)" where
  "validateCloseDependencies lp lc fetch random token batch trace =
     (let industryEvents = filter (\<lambda>e. effective e ''R1'') (bi_events batch);
          companyEvents = filter (\<lambda>e. effective e ''R2'' \<or> effective e ''R3'' \<or> effective e ''R4'' \<or> r4_candidate e) (bi_events batch);
          marketEvents = filter (\<lambda>e. effective e ''R4'' \<or> r4_candidate e) (bi_events batch) in
      case require_proposal lc fetch random token Industry ''R1''
             (\<lambda>s. ''CLOSE R1 for '' @ s @ '' requires an existing INDUSTRY R1'') industryEvents trace of
        (t1, Inl e) \<Rightarrow> (t1, Inl e)
      | (t1, Inr _) \<Rightarrow>
      (case require_proposal lc fetch random token Company ''R2''
             (\<lambda>s. ''CLOSE state for '' @ s @ '' requires an existing COMPANY R2'') companyEvents t1 of
        (t2, Inl e) \<Rightarrow> (t2, Inl e)
      | (t2, Inr _) \<Rightarrow> require_market lp lc fetch random token (bi_as_of batch) marketEvents t2))"

section \<open>Snapshot\<close>

datatype channel_state = MarketState checkpoint_state | LedgerState ledger_state

fun snapshot_channels ::
  "(string \<Rightarrow> int option) \<Rightarrow> (string \<Rightarrow> string \<Rightarrow> int) \<Rightarrow> github \<Rightarrow> (nat \<Rightarrow> rat) \<Rightarrow> string \<Rightarrow> string list
   \<Rightarrow> string option \<Rightarrow> string option \<Rightarrow> int option \<Rightarrow> write_channel list \<Rightarrow> request list
   \<Rightarrow> request list \<times> (domain_error + (write_channel \<times> channel_state) list)" where
  "snapshot_channels lp lc fetch random token symbols day slot limit [] trace = (trace, Inr [])"
| "snapshot_channels lp lc fetch random token symbols day slot limit (c # cs) trace =
     (case (case roleForChannel c of
              None \<Rightarrow>
                (case (day, slot) of
                   (Some d, Some s) \<Rightarrow>
                     if d = '''' \<or> s = '''' then (trace, Inl (invalid_batch ''MARKET snapshot requires trading_date and scheduled_slot''))
                     else (case getMarketCheckpoints lp lc fetch random token d s trace of
                       (t, Inl e) \<Rightarrow> (t, Inl (Market e)) | (t, Inr st) \<Rightarrow> (t, Inr (MarketState st)))
                 | _ \<Rightarrow> (trace, Inl (invalid_batch ''MARKET snapshot requires trading_date and scheduled_slot'')))
            | Some role \<Rightarrow>
                (case getInvestmentLedgerState lc fetch random token role symbols limit trace of
                   (t, Inl e) \<Rightarrow> (t, Inl (Investment e)) | (t, Inr st) \<Rightarrow> (t, Inr (LedgerState st)))) of
        (t, Inl e) \<Rightarrow> (t, Inl e)
      | (t, Inr st) \<Rightarrow>
      (case snapshot_channels lp lc fetch random token symbols day slot limit cs t of
        (t', Inl e) \<Rightarrow> (t', Inl e)
      | (t', Inr sts) \<Rightarrow> (t', Inr ((c, st) # sts))))"

definition getStateSnapshot ::
  "(string \<Rightarrow> int option) \<Rightarrow> (string \<Rightarrow> string \<Rightarrow> int) \<Rightarrow> github \<Rightarrow> (nat \<Rightarrow> rat) \<Rightarrow> string \<Rightarrow> string list
   \<Rightarrow> write_channel list \<Rightarrow> string option \<Rightarrow> string option \<Rightarrow> int option \<Rightarrow> request list
   \<Rightarrow> request list \<times> (domain_error + (write_channel \<times> channel_state) list)" where
  "getStateSnapshot lp lc fetch random token symbols channels day slot limit trace =
     (case find (\<lambda>s. \<not> is_instrument_key s) symbols of
        Some s \<Rightarrow> (trace, Inl (invalid_batch (''invalid state symbol: '' @ s)))
      | None \<Rightarrow>
      if (case day of None \<Rightarrow> False | Some d \<Rightarrow> d \<noteq> '''' \<and> \<not> is_day_text d)
      then (trace, Inl (invalid_batch ''trading_date must use YYYY-MM-DD''))
      else if token = ''''
      then (trace, Inl (Gateway (state_error_of STATE_UNAVAILABLE READ ''GitHub ledger credential is not configured'' False None None)))
      else snapshot_channels lp lc fetch random token symbols day slot limit (js_set channels) trace)"

section \<open>The append\<close>

record append_input =
  ai_channel :: write_channel
  ai_batch :: jsval
  ai_now :: string
  ai_request_id :: string
  ai_write_key :: "string option"
  ai_payload_sha256 :: "string option"
  ai_envelope_key :: "string option"
  ai_event_count :: "int option"

record gateway_result =
  gr_status :: string
  gr_channel :: write_channel
  gr_write_key :: string
  gr_payload_sha256 :: string
  gr_comment_id :: string
  gr_url :: string
  gr_receipt :: write_receipt

text \<open>What the append throws: a gateway error, or an exception of the receipts.\<close>

datatype append_error = Refused state_error | Crashed string

text \<open>The append to the ledger of the channel: the status, the comment and its url.\<close>

definition append_to_ledger ::
  "(string \<Rightarrow> int option) \<Rightarrow> (string \<Rightarrow> string \<Rightarrow> int) \<Rightarrow> github \<Rightarrow> (nat \<Rightarrow> rat) \<Rightarrow> string \<Rightarrow> write_channel
   \<Rightarrow> checkpoint + batch_input \<Rightarrow> request list \<Rightarrow> request list \<times> (domain_error + string \<times> string \<times> string)" where
  "append_to_ledger lp lc fetch random token channel normalized trace =
     (case normalized of
        Inl cp \<Rightarrow>
          (case appendMarketCheckpoint lp lc fetch random token (checkpoint_object cp) trace of
             (t, Inl e) \<Rightarrow> (t, Inl (Market e))
           | (t, Inr r) \<Rightarrow> (t, Inr (ar_status r, ar_comment_id r, ar_url r)))
      | Inr inp \<Rightarrow>
          (case appendInvestmentLedgerBatch lp lc fetch random token (the (roleForChannel channel)) (JObj (batch_object inp)) trace of
             (t, Inl e) \<Rightarrow> (t, Inl (Investment e))
           | (t, Inr r) \<Rightarrow> (t, Inr (br_status r, br_comment_id r, br_url r))))"

definition receipt_status_of :: "string \<Rightarrow> receipt_status" where
  "receipt_status_of s = (if s = ''PERSISTED'' then PERSISTED else IDEMPOTENT_REPLAY)"

definition failure_status :: "state_code \<Rightarrow> receipt_status" where
  "failure_status code =
     (if code = STATE_CONFLICT then CONFLICT
      else if code = STATE_OUTCOME_UNKNOWN \<or> code = STATE_READBACK_FAILED then OUTCOME_UNKNOWN else FAILED)"

definition success_of :: "append_input \<Rightarrow> string \<Rightarrow> string \<times> string \<times> string \<Rightarrow> finalization" where
  "success_of inp updatedAt r =
     (case r of (status, commentId, url) \<Rightarrow>
        \<lparr>fz_status = receipt_status_of status, fz_updated_at = updatedAt, fz_comment_id = Some commentId,
         fz_comment_url = Some url, fz_last_error_code = None, fz_last_error_phase = None,
         fz_last_http_status = None, fz_envelope_key = ai_envelope_key inp, fz_event_count = ai_event_count inp\<rparr>)"

definition show_code :: "state_code \<Rightarrow> string" where
  "show_code code =
     (case code of STATE_FORBIDDEN \<Rightarrow> ''STATE_FORBIDDEN'' | STATE_VALIDATION_FAILED \<Rightarrow> ''STATE_VALIDATION_FAILED''
      | STATE_CONFLICT \<Rightarrow> ''STATE_CONFLICT'' | STATE_CHAIN_MISMATCH \<Rightarrow> ''STATE_CHAIN_MISMATCH''
      | STATE_UNAVAILABLE \<Rightarrow> ''STATE_UNAVAILABLE'' | STATE_OUTCOME_UNKNOWN \<Rightarrow> ''STATE_OUTCOME_UNKNOWN''
      | STATE_READBACK_FAILED \<Rightarrow> ''STATE_READBACK_FAILED'')"

definition show_phase :: "state_phase \<Rightarrow> string" where
  "show_phase phase =
     (case phase of AUTH \<Rightarrow> ''AUTH'' | VALIDATE \<Rightarrow> ''VALIDATE'' | READ \<Rightarrow> ''READ'' | RECONCILE \<Rightarrow> ''RECONCILE''
      | WRITE \<Rightarrow> ''WRITE'' | READBACK \<Rightarrow> ''READBACK'')"

definition failure_of :: "append_input \<Rightarrow> string \<Rightarrow> state_error \<Rightarrow> finalization" where
  "failure_of inp updatedAt mapped =
     \<lparr>fz_status = failure_status (se_code mapped), fz_updated_at = updatedAt, fz_comment_id = None,
      fz_comment_url = None, fz_last_error_code = Some (show_code (se_code mapped)),
      fz_last_error_phase = Some (show_phase (se_phase mapped)), fz_last_http_status = se_http_status mapped,
      fz_envelope_key = ai_envelope_key inp, fz_event_count = ai_event_count inp\<rparr>"

text \<open>The \<open>catch\<close> of the append: the receipt is settled to the mapped error, which is thrown.\<close>

definition settle_failure ::
  "append_input \<Rightarrow> string \<Rightarrow> string \<Rightarrow> receipt_db \<Rightarrow> domain_error \<Rightarrow> receipt_db \<times> (append_error + gateway_result)" where
  "settle_failure inp updatedAt writeKey db error =
     (let mapped = mapDomainError error (ai_request_id inp) in
      case finalizeStateWriteReceipt db writeKey (ai_request_id inp) (failure_of inp updatedAt mapped) of
        (db', Inl m) \<Rightarrow> (db', Inl (Crashed m))
      | (db', Inr _) \<Rightarrow> (db', Inl (Refused mapped)))"

definition settle_append ::
  "append_input \<Rightarrow> string \<Rightarrow> string \<Rightarrow> string \<Rightarrow> receipt_db \<Rightarrow> domain_error + string \<times> string \<times> string
   \<Rightarrow> receipt_db \<times> (append_error + gateway_result)" where
  "settle_append inp updatedAt writeKey payloadSha256 db outcome =
     (case outcome of
        Inl e \<Rightarrow> settle_failure inp updatedAt writeKey db e
      | Inr r \<Rightarrow>
          (case finalizeStateWriteReceipt db writeKey (ai_request_id inp) (success_of inp updatedAt r) of
             (db', Inl m) \<Rightarrow> settle_failure inp updatedAt writeKey db' (Other m)
           | (db', Inr receipt) \<Rightarrow> (db', Inr
               \<lparr>gr_status = fst r, gr_channel = ai_channel inp, gr_write_key = writeKey,
                gr_payload_sha256 = payloadSha256, gr_comment_id = fst (snd r), gr_url = snd (snd r),
                gr_receipt = receipt\<rparr>)))"

definition validate_append ::
  "(string \<Rightarrow> int option) \<Rightarrow> (string \<Rightarrow> string \<Rightarrow> int) \<Rightarrow> (jsval \<Rightarrow> string) \<Rightarrow> github \<Rightarrow> (nat \<Rightarrow> rat) \<Rightarrow> string
   \<Rightarrow> append_input \<Rightarrow> request list \<Rightarrow> request list \<times> (domain_error + validated_batch)" where
  "validate_append lp lc sha fetch random token inp trace =
     (case validateStateBatch lp sha (ai_channel inp) (ai_batch inp) of
        Inl e \<Rightarrow> (trace, Inl e)
      | Inr v \<Rightarrow>
          (case (ai_channel inp, vb_normalized v) of
             (CLOSE, Inr batch) \<Rightarrow>
               (case validateCloseDependencies lp lc fetch random token batch trace of
                  (t, Inl e) \<Rightarrow> (t, Inl e) | (t, Inr _) \<Rightarrow> (t, Inr v))
           | _ \<Rightarrow> (trace, Inr v)))"

definition write_key_of :: "append_input \<Rightarrow> validated_batch \<Rightarrow> string" where
  "write_key_of inp v = (case ai_write_key inp of None \<Rightarrow> vb_write_key v | Some k \<Rightarrow> k)"

definition payload_of :: "append_input \<Rightarrow> validated_batch \<Rightarrow> string" where
  "payload_of inp v = (case ai_payload_sha256 inp of None \<Rightarrow> vb_payload_sha256 v | Some h \<Rightarrow> h)"

definition reservation_of :: "append_input \<Rightarrow> string \<Rightarrow> string \<Rightarrow> reservation" where
  "reservation_of inp writeKey payloadSha256 =
     \<lparr>rv_write_key = writeKey, rv_channel = ai_channel inp, rv_payload_sha256 = payloadSha256,
      rv_request_id = ai_request_id inp, rv_now = ai_now inp, rv_lease_seconds = None\<rparr>"

definition appendStateBatch ::
  "(string \<Rightarrow> int option) \<Rightarrow> (string \<Rightarrow> string \<Rightarrow> int) \<Rightarrow> (jsval \<Rightarrow> string) \<Rightarrow> github \<Rightarrow> (nat \<Rightarrow> rat) \<Rightarrow> string
   \<Rightarrow> (receipts \<Rightarrow> receipts) \<Rightarrow> string \<Rightarrow> append_input \<Rightarrow> receipt_db \<Rightarrow> request list
   \<Rightarrow> receipt_db \<times> request list \<times> (append_error + gateway_result)" where
  "appendStateBatch lp lc sha fetch random token meanwhile updatedAt inp db trace =
     (case validate_append lp lc sha fetch random token inp trace of
        (t1, Inl e) \<Rightarrow> (db, t1, Inl (Refused (mapDomainError e (ai_request_id inp))))
      | (t1, Inr v) \<Rightarrow>
        (let writeKey = write_key_of inp v; payloadSha256 = payload_of inp v in
         case reserveStateWrite lp db (reservation_of inp writeKey payloadSha256) of
           (db1, Inl m) \<Rightarrow> (db1, t1, Inl (Crashed m))
         | (db1, Inr (acquired, receipt)) \<Rightarrow>
             if wr_status receipt = CONFLICT then
               (db1, t1, Inl (Refused (state_error_of STATE_CONFLICT RECONCILE
                  ''write_key already exists with different channel or payload'' False (Some (ai_request_id inp)) None)))
             else if \<not> acquired then
               (db1, t1,
                if wr_status receipt = PERSISTED \<or> wr_status receipt = IDEMPOTENT_REPLAY
                then Inr \<lparr>gr_status = ''IDEMPOTENT_REPLAY'', gr_channel = ai_channel inp, gr_write_key = writeKey,
                  gr_payload_sha256 = payloadSha256,
                  gr_comment_id = (case wr_comment_id receipt of None \<Rightarrow> '''' | Some i \<Rightarrow> i),
                  gr_url = (case wr_comment_url receipt of None \<Rightarrow> '''' | Some u \<Rightarrow> u), gr_receipt = receipt\<rparr>
                else Inl (Refused (state_error_of STATE_UNAVAILABLE RECONCILE ''state write is already in progress''
                  True (Some (ai_request_id inp)) None)))
             else
               (case append_to_ledger lp lc fetch random token (ai_channel inp) (vb_normalized v) t1 of
                  (t2, outcome) \<Rightarrow>
                    (case settle_append inp updatedAt writeKey payloadSha256 (map_option meanwhile db1) outcome of
                       (db2, res) \<Rightarrow> (db2, t2, res)))))"

section \<open>Facts\<close>

lemma getInvestmentLedgerState_trace:
  "getInvestmentLedgerState lc fetch random token role symbols limit trace = (t, r) \<Longrightarrow>
   posts t = posts trace \<and> length t \<le> length trace + 300"
  by (auto simp: getInvestmentLedgerState_def Let_def split: if_splits sum.splits prod.splits
      dest!: fetchAllComments_trace)

lemma require_proposal_trace:
  "require_proposal lc fetch random token role level m events trace = (t, r) \<Longrightarrow>
   posts t = posts trace \<and> length t \<le> length trace + 300"
  by (auto simp: require_proposal_def split: if_splits sum.splits prod.splits
      dest!: getInvestmentLedgerState_trace)

lemma require_market_trace:
  "require_market lp lc fetch random token asOf events trace = (t, r) \<Longrightarrow>
   posts t = posts trace \<and> length t \<le> length trace + 600"
  by (auto simp: require_market_def split: if_splits sum.splits prod.splits dest!: getMarketCheckpoints_trace)

lemma validateCloseDependencies_trace:
  assumes "validateCloseDependencies lp lc fetch random token batch trace = (t, r)"
  shows "posts t = posts trace \<and> length t \<le> length trace + 1200"
  using assms
  by (auto simp: validateCloseDependencies_def Let_def split: sum.splits prod.splits
      dest!: require_proposal_trace require_market_trace)

lemma validate_append_cases:
  assumes "validate_append lp lc sha fetch random token inp trace = (t, Inr v)"
  shows "validateStateBatch lp sha (ai_channel inp) (ai_batch inp) = Inr v"
    and "ai_channel inp = CLOSE \<Longrightarrow> \<exists>b. vb_normalized v = Inr b
          \<and> validateCloseDependencies lp lc fetch random token b trace = (t, Inr ())"
proof -
  show 1: "validateStateBatch lp sha (ai_channel inp) (ai_batch inp) = Inr v"
    using assms by (auto simp: validate_append_def split: sum.splits write_channel.splits prod.splits)
  show "\<exists>b. vb_normalized v = Inr b
          \<and> validateCloseDependencies lp lc fetch random token b trace = (t, Inr ())" if "ai_channel inp = CLOSE"
    using assms 1 that
    by (auto simp: validate_append_def validateStateBatch_def split: sum.splits prod.splits option.splits)
qed

lemma validate_append_trace:
  assumes "validate_append lp lc sha fetch random token inp trace = (t, r)"
  shows "posts t = posts trace \<and> length t \<le> length trace + 1200"
  using assms
  by (auto simp: validate_append_def split: sum.splits write_channel.splits prod.splits
      dest!: validateCloseDependencies_trace)

text \<open>One append to a ledger posts at most once, and knows two outcomes.\<close>

definition one_post :: "int \<Rightarrow> request list \<Rightarrow> request list \<Rightarrow> bool" where
  "one_post issue old new \<longleftrightarrow>
     new = old \<or> (\<exists>u. new = old @ [Post (commentsUrl issue) (rendered_body u)])"

lemma appendMarketCheckpoint_posts:
  assumes "appendMarketCheckpoint lp lc fetch random token v trace = (t, r)"
  shows "one_post 2 (posts trace) (posts t)"
    and "r = Inr a \<Longrightarrow> ar_status a = ''PERSISTED'' \<or> ar_status a = ''IDEMPOTENT_REPLAY''"
proof -
  show "one_post 2 (posts trace) (posts t)"
    using assms
    by (auto simp: appendMarketCheckpoint_def one_post_def market_texts_def MARKET_LEDGER_ISSUE_NUMBER_def
        split: option.splits sum.splits prod.splits
        dest!: getMarketCheckpoints_trace post_and_read_back_trace)
  show "ar_status a = ''PERSISTED'' \<or> ar_status a = ''IDEMPOTENT_REPLAY''" if "r = Inr a"
    using assms that
    by (auto simp: appendMarketCheckpoint_def append_decision_def bindE_Inr result_of_def
        split: option.splits sum.splits prod.splits if_splits)
qed

lemma appendInvestmentLedgerBatch_posts:
  assumes "appendInvestmentLedgerBatch lp lc fetch random token role v trace = (t, r)"
  shows "one_post 3 (posts trace) (posts t)"
    and "r = Inr a \<Longrightarrow> br_status a = ''PERSISTED'' \<or> br_status a = ''IDEMPOTENT_REPLAY''"
proof -
  show "one_post 3 (posts trace) (posts t)"
    using assms
    by (auto simp: appendInvestmentLedgerBatch_def one_post_def investment_texts_def INVESTMENT_LEDGER_ISSUE_NUMBER_def
        Let_def split: option.splits sum.splits prod.splits if_splits
        dest!: fetchAllComments_trace post_and_read_back_trace)
  show "br_status a = ''PERSISTED'' \<or> br_status a = ''IDEMPOTENT_REPLAY''" if "r = Inr a"
    using assms that
    by (auto simp: appendInvestmentLedgerBatch_def replay_decision_def batch_result_of_def Let_def
        split: option.splits sum.splits prod.splits if_splits list.splits)
qed

definition issue_of :: "write_channel \<Rightarrow> int" where
  "issue_of channel = (if channel = MARKET then 2 else 3)"

lemma append_to_ledger_posts:
  assumes "validateStateBatch lp sha channel batch = Inr v"
    and "append_to_ledger lp lc fetch random token channel (vb_normalized v) trace = (t, r)"
  shows "one_post (issue_of channel) (posts trace) (posts t)"
    and "r = Inr a \<Longrightarrow> fst a = ''PERSISTED'' \<or> fst a = ''IDEMPOTENT_REPLAY''"
proof -
  have "(channel = MARKET) = isl (vb_normalized v)"
    using assms(1) by (cases channel) (auto simp: validateStateBatch_def split: option.splits sum.splits if_splits)
  then show "one_post (issue_of channel) (posts trace) (posts t)"
    using assms(2)
    by (auto simp: append_to_ledger_def issue_of_def split: sum.splits prod.splits
        dest!: appendMarketCheckpoint_posts(1) appendInvestmentLedgerBatch_posts(1))
  show "fst a = ''PERSISTED'' \<or> fst a = ''IDEMPOTENT_REPLAY''" if "r = Inr a"
    using assms(2) that
    by (auto simp: append_to_ledger_def split: sum.splits prod.splits
        dest: appendMarketCheckpoint_posts(2) appendInvestmentLedgerBatch_posts(2))
qed

text \<open>How the receipt of a granted write is settled: the holder still has its row, whatever the
  others did in between.\<close>

definition settled_as :: "write_receipt \<Rightarrow> append_error + gateway_result \<Rightarrow> bool" where
  "settled_as row res \<longleftrightarrow> wr_lease_owner row = None \<and>
     (case res of
        Inl (Refused e) \<Rightarrow> wr_status row = failure_status (se_code e)
          \<and> wr_last_error_code row = Some (show_code (se_code e)) \<and> wr_comment_id row = None
      | Inl (Crashed m) \<Rightarrow> False
      | Inr g \<Rightarrow> wr_status row = receipt_status_of (gr_status g) \<and> wr_comment_id row = Some (gr_comment_id g)
          \<and> wr_comment_url row = Some (gr_url g) \<and> gr_receipt g = row)"

lemma settle_append_row:
  assumes "row_of v k = Some r" "wr_lease_owner r = Some (ai_request_id inp)"
  shows "\<exists>w row. settle_append inp at_time k h (Some v) outcome = (Some w, snd (settle_append inp at_time k h (Some v) outcome))
    \<and> receipt_run v [Settle k (ai_request_id inp) (case outcome of Inl e \<Rightarrow> failure_of inp at_time (mapDomainError e (ai_request_id inp))
        | Inr a \<Rightarrow> success_of inp at_time a)] w
    \<and> row_of w k = Some row \<and> settled_as row (snd (settle_append inp at_time k h (Some v) outcome))
    \<and> wr_channel row = wr_channel r \<and> wr_payload_sha256 row = wr_payload_sha256 r
    \<and> (isl (snd (settle_append inp at_time k h (Some v) outcome)) \<longleftrightarrow> isl outcome)"
proof -
  define f where "f = (case outcome of Inl e \<Rightarrow> failure_of inp at_time (mapDomainError e (ai_request_id inp))
        | Inr a \<Rightarrow> success_of inp at_time a)"
  have key: "wr_write_key r = k" using row_of_Some [OF assms(1)] by simp
  note fin = finalize_unfold [OF assms, of f]
  have row: "row_of (settle_receipt k (ai_request_id inp) f v) k = Some (hd (settle_receipt k (ai_request_id inp) f [r]))"
    using settle_row [OF assms(1)] by simp
  have run: "receipt_run v [Settle k (ai_request_id inp) f] (settle_receipt k (ai_request_id inp) f v)"
    by (rule run_cons [OF settle_step run_nil])
  have res: "settle_append inp at_time k h (Some v) outcome = (Some (settle_receipt k (ai_request_id inp) f v),
      snd (settle_append inp at_time k h (Some v) outcome))
    \<and> settled_as (hd (settle_receipt k (ai_request_id inp) f [r])) (snd (settle_append inp at_time k h (Some v) outcome))
    \<and> (isl (snd (settle_append inp at_time k h (Some v) outcome)) \<longleftrightarrow> isl outcome)"
    using fin key assms(2)
    by (cases outcome) (auto simp: f_def settle_append_def settle_failure_def settle_receipt_def settled_as_def
        success_of_def failure_of_def Let_def split: prod.splits)
  show ?thesis
    unfolding f_def [symmetric]
    by (intro exI conjI, rule conjunct1 [OF res], rule run, rule row) (use res key assms(2) in \<open>simp_all add: settle_receipt_def\<close>)
qed

lemma reserve_refused:
  assumes ok: "receipts_ok t" and n: "date_parse lp (rv_now inp) = Some n"
    and x: "row_of t (rv_write_key inp) = Some x" and g: "\<not> grantable inp x"
  shows "\<exists>u ss. reserveStateWrite lp (Some t) inp = (Some u, Inr (False,
      if wr_payload_sha256 x = rv_payload_sha256 inp \<and> wr_channel x = rv_channel inp then x
      else x\<lparr>wr_status := CONFLICT\<rparr>))
    \<and> receipt_run t ss u \<and> row_of u (rv_write_key inp) = Some x"
proof -
  let ?k = "rv_write_key inp"
  obtain u r ss where u: "reserveStateWrite lp (Some t) inp = (Some u, Inr (False, r))" "receipt_run t ss u"
      "row_of u ?k = Some x" "r = x \<or> r = x\<lparr>wr_status := CONFLICT\<rparr>"
    using reserve_cases [OF ok n] x g by auto
  have i: "insert_receipt ?k ch sha now t = t" for ch sha now using x by (simp add: insert_receipt_def)
  have a: "row_of (acquire_receipt ?k (rv_request_id inp) till (rv_now inp) (rv_payload_sha256 inp) (rv_channel inp) t) ?k = Some x" for till
    using acquire_row [OF x] g by (auto simp: acquire_receipt_def grantable_def)
  have "r = (if wr_payload_sha256 x = rv_payload_sha256 inp \<and> wr_channel x = rv_channel inp then x
      else x\<lparr>wr_status := CONFLICT\<rparr>)"
    using u(1) x a n by (auto simp: reserveStateWrite_def getStateWriteReceipt_def ensureReceiptTable_def Let_def i split: if_splits)
  then show ?thesis using u by blast
qed

text \<open>An append step by step.\<close>

lemma append_invalid:
  assumes "validate_append lp lc sha fetch random token inp trace = (t1, Inl e)"
  shows "appendStateBatch lp lc sha fetch random token meanwhile updatedAt inp db trace
    = (db, t1, Inl (Refused (mapDomainError e (ai_request_id inp))))"
  using assms by (simp add: appendStateBatch_def)

lemma append_not_reserved:
  assumes "validate_append lp lc sha fetch random token inp trace = (t1, Inr v)"
    and "reserveStateWrite lp db (reservation_of inp (write_key_of inp v) (payload_of inp v)) = (db1, Inr (False, r))"
  shows "appendStateBatch lp lc sha fetch random token meanwhile updatedAt inp db trace =
    (db1, t1, if wr_status r = CONFLICT then Inl (Refused (state_error_of STATE_CONFLICT RECONCILE
         ''write_key already exists with different channel or payload'' False (Some (ai_request_id inp)) None))
      else if wr_status r = PERSISTED \<or> wr_status r = IDEMPOTENT_REPLAY
      then Inr \<lparr>gr_status = ''IDEMPOTENT_REPLAY'', gr_channel = ai_channel inp, gr_write_key = write_key_of inp v,
        gr_payload_sha256 = payload_of inp v,
        gr_comment_id = (case wr_comment_id r of None \<Rightarrow> '''' | Some i \<Rightarrow> i),
        gr_url = (case wr_comment_url r of None \<Rightarrow> '''' | Some u \<Rightarrow> u), gr_receipt = r\<rparr>
      else Inl (Refused (state_error_of STATE_UNAVAILABLE RECONCILE ''state write is already in progress''
        True (Some (ai_request_id inp)) None)))"
  using assms by (simp add: appendStateBatch_def Let_def)

lemma append_reserved:
  assumes "validate_append lp lc sha fetch random token inp trace = (t1, Inr v)"
    and "reserveStateWrite lp db (reservation_of inp (write_key_of inp v) (payload_of inp v)) = (db1, Inr (True, r))"
    and "wr_status r \<noteq> CONFLICT"
    and "append_to_ledger lp lc fetch random token (ai_channel inp) (vb_normalized v) t1 = (t2, outcome)"
    and "settle_append inp updatedAt (write_key_of inp v) (payload_of inp v) (map_option meanwhile db1) outcome = (db2, res)"
  shows "appendStateBatch lp lc sha fetch random token meanwhile updatedAt inp db trace = (db2, t2, res)"
  using assms by (simp add: appendStateBatch_def Let_def)

text \<open>What the other workers do to the receipts while a lease runs.\<close>

definition lease_respected :: "string \<Rightarrow> string \<Rightarrow> string \<Rightarrow> (receipts \<Rightarrow> receipts) \<Rightarrow> bool" where
  "lease_respected key me till f \<longleftrightarrow> (\<forall>u. \<exists>ss. receipt_run u ss (f u) \<and> list_all (foreign key me till) ss)"

lemma lease_respected_idle: "lease_respected key me till (\<lambda>u. u)"
  by (auto simp: lease_respected_def intro: exI [of _ "[]"] run_nil)

lemma foreign_run_row:
  assumes "receipt_run u ss w" "list_all (foreign key me till) ss"
    and "row_of u key = Some r" "wr_lease_owner r = Some me" "wr_lease_until r = Some till"
  shows "row_of w key = Some r"
proof -
  have k: "wr_write_key r = key" using row_of_Some [OF assms(3)] by simp
  have "\<exists>r'. row_of w key = Some r' \<and> r' = r"
  proof (rule run_row [OF assms(1,3), of "\<lambda>x. x = r"])
    show "row_effect s x = r" if "s \<in> set ss" "x = r" for s x
      using effect_foreign [OF assms(4,5), of s] that assms(2) k by (auto simp: list_all_iff)
  qed simp
  then show ?thesis by simp
qed

lemma reservation_simps [simp]:
  "rv_write_key (reservation_of inp k h) = k" "rv_channel (reservation_of inp k h) = ai_channel inp"
  "rv_payload_sha256 (reservation_of inp k h) = h" "rv_request_id (reservation_of inp k h) = ai_request_id inp"
  "rv_now (reservation_of inp k h) = ai_now inp" "lease_seconds (reservation_of inp k h) = 120"
  by (simp_all add: reservation_of_def lease_seconds_def)

lemma append_granted:
  assumes ok: "receipts_ok t" and n: "date_parse lp (ai_now inp) = Some n"
    and v: "validate_append lp lc sha fetch random token inp trace = (t1, Inr v)"
    and g: "reserveStateWrite lp (Some t) (reservation_of inp (write_key_of inp v) (payload_of inp v)) = (Some u, Inr (True, r))"
    and resp: "lease_respected (write_key_of inp v) (ai_request_id inp) (to_iso (n + 120000)) meanwhile"
  shows "\<exists>w tr res row. appendStateBatch lp lc sha fetch random token meanwhile updatedAt inp (Some t) trace = (Some w, tr, res)
    \<and> receipts_ok w \<and> row_of w (write_key_of inp v) = Some row \<and> settled_as row res
    \<and> wr_channel row = ai_channel inp \<and> wr_payload_sha256 row = payload_of inp v"
proof -
  let ?k = "write_key_of inp v" and ?h = "payload_of inp v"
  let ?rv = "reservation_of inp ?k ?h"
  have n': "date_parse lp (rv_now ?rv) = Some n" using n by simp
  have r: "row_of u ?k = Some r \<and> wr_lease_owner r = Some (ai_request_id inp) \<and> wr_status r = PENDING
      \<and> wr_lease_until r = Some (to_iso (n + 120000)) \<and> wr_payload_sha256 r = ?h \<and> wr_channel r = ai_channel inp"
    using reserve_cases [OF ok n'] g by (auto simp: grantable_def)
  have oku: "receipts_ok u" using reserve_cases [OF ok n'] g receipt_run_ok [OF _ ok] by auto
  obtain ss where ss: "receipt_run u ss (meanwhile u)" "list_all (foreign ?k (ai_request_id inp) (to_iso (n + 120000))) ss"
    using resp by (auto simp: lease_respected_def)
  have m: "row_of (meanwhile u) ?k = Some r" using foreign_run_row [OF ss] r by simp
  obtain t2 outcome where a: "append_to_ledger lp lc fetch random token (ai_channel inp) (vb_normalized v) t1 = (t2, outcome)"
    by fastforce
  let ?s = "settle_append inp updatedAt ?k ?h (Some (meanwhile u)) outcome"
  obtain w f row where w: "?s = (Some w, snd ?s)" "receipt_run (meanwhile u) [Settle ?k (ai_request_id inp) f] w"
      "row_of w ?k = Some row" "settled_as row (snd ?s)" "wr_channel row = wr_channel r"
      "wr_payload_sha256 row = wr_payload_sha256 r"
    using settle_append_row [OF m, of inp updatedAt ?h outcome] r by blast
  have "appendStateBatch lp lc sha fetch random token meanwhile updatedAt inp (Some t) trace = (Some w, t2, snd ?s)"
    by (rule append_reserved [OF v g _ a]) (use r w(1) in simp_all)
  moreover have "receipts_ok w" by (rule receipt_run_ok [OF w(2) receipt_run_ok [OF ss(1) oku]])
  ultimately show ?thesis using w(3-6) r by auto
qed

lemma settled_later:
  assumes ok: "receipts_ok t" and n: "date_parse lp (ai_now inp) = Some n"
    and v: "validate_append lp lc sha fetch random token inp trace = (t1, Inr v)"
    and x: "row_of t (write_key_of inp v) = Some x" "wr_status x \<in> {PERSISTED, IDEMPOTENT_REPLAY}"
  shows "\<exists>u ss. appendStateBatch lp lc sha fetch random token meanwhile updatedAt inp (Some t) trace =
    (Some u, t1, if wr_payload_sha256 x = payload_of inp v \<and> wr_channel x = ai_channel inp
      then Inr \<lparr>gr_status = ''IDEMPOTENT_REPLAY'', gr_channel = ai_channel inp, gr_write_key = write_key_of inp v,
        gr_payload_sha256 = payload_of inp v,
        gr_comment_id = (case wr_comment_id x of None \<Rightarrow> '''' | Some i \<Rightarrow> i),
        gr_url = (case wr_comment_url x of None \<Rightarrow> '''' | Some u \<Rightarrow> u), gr_receipt = x\<rparr>
      else Inl (Refused (state_error_of STATE_CONFLICT RECONCILE
         ''write_key already exists with different channel or payload'' False (Some (ai_request_id inp)) None)))
    \<and> receipt_run t ss u \<and> row_of u (write_key_of inp v) = Some x"
proof -
  let ?rv = "reservation_of inp (write_key_of inp v) (payload_of inp v)"
  have g: "\<not> grantable ?rv x" using x(2) by (auto simp: grantable_def)
  obtain u ss where u: "reserveStateWrite lp (Some t) ?rv = (Some u, Inr (False,
      if wr_payload_sha256 x = payload_of inp v \<and> wr_channel x = ai_channel inp then x
      else x\<lparr>wr_status := CONFLICT\<rparr>))" "receipt_run t ss u" "row_of u (write_key_of inp v) = Some x"
    using reserve_refused [OF ok, of lp ?rv n x] n x g by auto
  show ?thesis
    by (intro exI conjI, subst append_not_reserved [OF v u(1)]) (use u x(2) in auto)
qed

text \<open>After a successful append the row of its write key is settled with the returned comment.\<close>

lemma append_returned:
  assumes ok: "receipts_ok t" and n: "date_parse lp (ai_now inp) = Some n"
    and a: "appendStateBatch lp lc sha fetch random token meanwhile updatedAt inp (Some t) trace = (db', tr, Inr g)"
    and resp: "lease_respected (gr_write_key g) (ai_request_id inp) (to_iso (n + 120000)) meanwhile"
  shows "\<exists>w x. db' = Some w \<and> receipts_ok w \<and> row_of w (gr_write_key g) = Some x
    \<and> wr_status x \<in> {PERSISTED, IDEMPOTENT_REPLAY} \<and> wr_channel x = gr_channel g
    \<and> wr_payload_sha256 x = gr_payload_sha256 g
    \<and> (case wr_comment_id x of None \<Rightarrow> '''' | Some i \<Rightarrow> i) = gr_comment_id g
    \<and> (case wr_comment_url x of None \<Rightarrow> '''' | Some u \<Rightarrow> u) = gr_url g"
proof -
  obtain t1 v where v: "validate_append lp lc sha fetch random token inp trace = (t1, Inr v)"
    using a by (auto simp: appendStateBatch_def split: prod.splits sum.splits)
  let ?k = "write_key_of inp v"
  let ?rv = "reservation_of inp ?k (payload_of inp v)"
  have n': "date_parse lp (rv_now ?rv) = Some n" using n by simp
  obtain u b r where u: "reserveStateWrite lp (Some t) ?rv = (Some u, Inr (b, r))" "receipts_ok u"
    using reserve_cases [OF ok n'] receipt_run_ok [OF _ ok] by fastforce
  have key: "gr_write_key g = ?k \<and> gr_channel g = ai_channel inp \<and> gr_payload_sha256 g = payload_of inp v"
    using a v u by (auto simp: appendStateBatch_def settle_append_def settle_failure_def Let_def
      split: prod.splits sum.splits if_splits)
  show ?thesis
  proof (cases b)
    case True
    obtain w tr' res row where w: "appendStateBatch lp lc sha fetch random token meanwhile updatedAt inp (Some t) trace = (Some w, tr', res)"
        "receipts_ok w" "row_of w ?k = Some row" "settled_as row res" "wr_channel row = ai_channel inp"
        "wr_payload_sha256 row = payload_of inp v"
      using append_granted [OF ok n v] u(1) True resp key by (metis (full_types))
    then show ?thesis using a key by (auto simp: settled_as_def receipt_status_of_def split: if_splits)
  next
    case False
    obtain x where x0: "row_of t ?k = Some x" "\<not> grantable ?rv x"
      using reserve_cases [OF ok n'] u(1) False
      by (cases "row_of t ?k") (auto simp: grantable_def new_receipt_def lease_free_def)
    have r: "r = (if wr_payload_sha256 x = payload_of inp v \<and> wr_channel x = ai_channel inp then x
        else x\<lparr>wr_status := CONFLICT\<rparr>)" and x: "row_of u ?k = Some x"
      using reserve_refused [OF ok n', of x] x0 u(1) by auto
    note ar = append_not_reserved [OF v, of "Some t" "Some u" r meanwhile updatedAt, unfolded a]
    have res: "db' = Some u" "wr_status r \<in> {PERSISTED, IDEMPOTENT_REPLAY}"
        "(case wr_comment_id r of None \<Rightarrow> '''' | Some i \<Rightarrow> i) = gr_comment_id g"
        "(case wr_comment_url r of None \<Rightarrow> '''' | Some u \<Rightarrow> u) = gr_url g"
      using ar u(1) False by (auto split: if_splits)
    then have "wr_channel x = ai_channel inp \<and> wr_payload_sha256 x = payload_of inp v" "r = x"
      using r by (auto split: if_splits)
    then show ?thesis using res u(2) x key by auto
  qed
qed

lemma require_proposal_Inr:
  assumes "require_proposal lc fetch random token role level m events trace = (t, Inr ())" "e \<in> set events"
  shows "\<exists>st. getInvestmentLedgerState lc fetch random token role (js_set (map symbol_of events)) None trace = (t, Inr st)
    \<and> latest_proposal st (symbol_of e) = Some (JStr level)"
  using assms by (auto simp: require_proposal_def throw_if_ok list_all_iff split: if_splits sum.splits prod.splits)

lemma require_market_Inr:
  assumes "require_market lp lc fetch random token asOf events trace = (t, Inr ())" "e \<in> set events"
  shows "\<exists>st c. getMarketCheckpoints lp lc fetch random token (take 10 asOf) ''16:45'' trace = (t, Inr st)
    \<and> ms_current_slot st = Some c \<and> cp_observation_type (comment_payload c) = ''CLOSE''
    \<and> checkpointHasConfirmedSymbol (cp_records (comment_payload c)) (symbol_of e)
    \<and> (effective e ''R4'' \<longrightarrow> (\<exists>p. ms_previous_close st = Some p
        \<and> checkpointHasConfirmedSymbol (cp_records (comment_payload p)) (symbol_of e)))"
  using assms
  by (auto simp: require_market_def throw_if_ok list_all_iff market_guards_def Let_def
      split: if_splits sum.splits prod.splits option.splits)

section \<open>Properties\<close>


text \<open>C7: the receipt tells what happened: once the reservation is granted, whatever the ledgers
  answer and whatever the other workers do to the receipts before the lease is over, the append ends
  with its row settled and unleased, and its status, error code and comment are those of the
  returned result or of the thrown error.\<close>

theorem gateway_receipt_matches:
  assumes "receipts_ok t" "date_parse lp (ai_now inp) = Some n"
    and "validate_append lp lc sha fetch random token inp trace = (t1, Inr v)"
    and "reserveStateWrite lp (Some t) (reservation_of inp (write_key_of inp v) (payload_of inp v)) = (Some u, Inr (True, r))"
    and "lease_respected (write_key_of inp v) (ai_request_id inp) (to_iso (n + 120000)) meanwhile"
  shows "\<exists>w tr res row. appendStateBatch lp lc sha fetch random token meanwhile updatedAt inp (Some t) trace = (Some w, tr, res)
    \<and> receipts_ok w \<and> row_of w (write_key_of inp v) = Some row \<and> wr_lease_owner row = None
    \<and> (case res of
        Inl (Crashed m) \<Rightarrow> False
      | Inl (Refused e) \<Rightarrow>
          wr_status row = (if se_code e = STATE_CONFLICT then CONFLICT
            else if se_code e = STATE_OUTCOME_UNKNOWN \<or> se_code e = STATE_READBACK_FAILED then OUTCOME_UNKNOWN else FAILED)
          \<and> wr_last_error_code row = Some (show_code (se_code e)) \<and> wr_comment_id row = None
      | Inr g \<Rightarrow>
          wr_status row = (if gr_status g = ''PERSISTED'' then PERSISTED else IDEMPOTENT_REPLAY)
          \<and> wr_comment_id row = Some (gr_comment_id g) \<and> wr_comment_url row = Some (gr_url g) \<and> gr_receipt g = row)"
  using append_granted [OF assms, of updatedAt]
  unfolding settled_as_def failure_status_def receipt_status_of_def by blast


text \<open>C20: a CLOSE batch is accepted only when the other ledgers bear it out: an R1 needs a latest
  INDUSTRY event that proposes R1, an R2, R3, R4 or R4 candidate a latest COMPANY event that proposes
  R2, an R4 or R4 candidate a confirmation in the MARKET close of the same day, and an R4 also in
  the close before.\<close>

theorem close_dependencies_sound:
  assumes "validateCloseDependencies lp lc fetch random token batch trace = (t, Inr ())"
    and "e \<in> set (bi_events batch)"
  shows "(effective e ''R1'' \<longrightarrow> (\<exists>symbols t0 t1 st.
        getInvestmentLedgerState lc fetch random token Industry symbols None t0 = (t1, Inr st)
        \<and> latest_proposal st (symbol_of e) = Some (JStr ''R1'')))
    \<and> (effective e ''R2'' \<or> effective e ''R3'' \<or> effective e ''R4'' \<or> r4_candidate e \<longrightarrow> (\<exists>symbols t0 t1 st.
        getInvestmentLedgerState lc fetch random token Company symbols None t0 = (t1, Inr st)
        \<and> latest_proposal st (symbol_of e) = Some (JStr ''R2'')))
    \<and> (effective e ''R4'' \<or> r4_candidate e \<longrightarrow> (\<exists>t0 st c.
        getMarketCheckpoints lp lc fetch random token (take 10 (bi_as_of batch)) ''16:45'' t0 = (t, Inr st)
        \<and> ms_current_slot st = Some c \<and> cp_observation_type (comment_payload c) = ''CLOSE''
        \<and> checkpointHasConfirmedSymbol (cp_records (comment_payload c)) (symbol_of e)
        \<and> (effective e ''R4'' \<longrightarrow> (\<exists>p. ms_previous_close st = Some p
             \<and> checkpointHasConfirmedSymbol (cp_records (comment_payload p)) (symbol_of e)))))"
proof -
  obtain t1 t2 where i: "require_proposal lc fetch random token Industry ''R1''
        (\<lambda>s. ''CLOSE R1 for '' @ s @ '' requires an existing INDUSTRY R1'')
        (filter (\<lambda>e. effective e ''R1'') (bi_events batch)) trace = (t1, Inr ())"
    and c: "require_proposal lc fetch random token Company ''R2''
        (\<lambda>s. ''CLOSE state for '' @ s @ '' requires an existing COMPANY R2'')
        (filter (\<lambda>e. effective e ''R2'' \<or> effective e ''R3'' \<or> effective e ''R4'' \<or> r4_candidate e) (bi_events batch)) t1
        = (t2, Inr ())"
    and m: "require_market lp lc fetch random token (bi_as_of batch)
        (filter (\<lambda>e. effective e ''R4'' \<or> r4_candidate e) (bi_events batch)) t2 = (t, Inr ())"
    using assms(1) by (auto simp: validateCloseDependencies_def Let_def split: prod.splits sum.splits)
  show ?thesis
  proof (intro conjI impI)
    assume "effective e ''R1''"
    then show "\<exists>symbols t0 t1 st. getInvestmentLedgerState lc fetch random token Industry symbols None t0 = (t1, Inr st)
        \<and> latest_proposal st (symbol_of e) = Some (JStr ''R1'')"
      using require_proposal_Inr [OF i, of e] assms(2) by auto
  next
    assume "effective e ''R2'' \<or> effective e ''R3'' \<or> effective e ''R4'' \<or> r4_candidate e"
    then show "\<exists>symbols t0 t1 st. getInvestmentLedgerState lc fetch random token Company symbols None t0 = (t1, Inr st)
        \<and> latest_proposal st (symbol_of e) = Some (JStr ''R2'')"
      using require_proposal_Inr [OF c, of e] assms(2) by auto
  next
    assume "effective e ''R4'' \<or> r4_candidate e"
    then have "e \<in> set (filter (\<lambda>e. effective e ''R4'' \<or> r4_candidate e) (bi_events batch))" using assms(2) by simp
    from require_market_Inr [OF m this] show "\<exists>t0 st c.
        getMarketCheckpoints lp lc fetch random token (take 10 (bi_as_of batch)) ''16:45'' t0 = (t, Inr st)
        \<and> ms_current_slot st = Some c \<and> cp_observation_type (comment_payload c) = ''CLOSE''
        \<and> checkpointHasConfirmedSymbol (cp_records (comment_payload c)) (symbol_of e)
        \<and> (effective e ''R4'' \<longrightarrow> (\<exists>p. ms_previous_close st = Some p
             \<and> checkpointHasConfirmedSymbol (cp_records (comment_payload p)) (symbol_of e)))"
      by blast
  qed
qed

section \<open>Witnesses\<close>

text \<open>One industry batch, in an empty ledger and without a receipt.\<close>

definition sample_append :: append_input where
  "sample_append = \<lparr>ai_channel = INDUSTRY, ai_batch = sample_batch, ai_now = ''2026-01-05T10:00:00.000Z'',
     ai_request_id = ''r1'', ai_write_key = Some ''k'', ai_payload_sha256 = None, ai_envelope_key = None,
     ai_event_count = Some 1\<rparr>"

definition sample_valid :: validated_batch where
  "sample_valid = \<lparr>vb_channel = INDUSTRY, vb_write_key = bi_event_id sample_inp, vb_payload_sha256 = ''h'',
     vb_schema_version = ''investment_state_batch_v1'', vb_normalized = Inr sample_inp\<rparr>"

definition sample_row :: write_receipt where
  "sample_row = (new_receipt ''k'' INDUSTRY ''h'' ''2026-01-05T10:00:00.000Z'')
     \<lparr>wr_attempt_count := 1, wr_lease_owner := Some ''r1'', wr_lease_until := Some ''2026-01-05T10:02:00.000Z''\<rparr>"

lemma sample_validates:
  "validate_append (\<lambda>_. None) lc (\<lambda>_. ''h'') fetch random token sample_append trace = (trace, Inr sample_valid)"
  using sample_accepted
  by (simp add: validate_append_def validateStateBatch_def sample_append_def sample_valid_def sha256Hex_def)

lemma sample_key: "write_key_of sample_append sample_valid = ''k''" "payload_of sample_append sample_valid = ''h''"
  by (simp_all add: write_key_of_def payload_of_def sample_append_def sample_valid_def)

lemma sample_now: "date_parse (\<lambda>_. None) (ai_now sample_append) = Some 1767607200000"
  by code_simp

lemma sample_granted: "reserveStateWrite (\<lambda>_. None) (Some [])
    (reservation_of sample_append (write_key_of sample_append sample_valid) (payload_of sample_append sample_valid))
  = (Some [sample_row], Inr (True, sample_row))"
  unfolding sample_key by code_simp

lemma sample_schema: "INVESTMENT_LEDGER_BATCH_INPUT_SCHEMA (JObj (batch_object sample_inp)) = Some sample_inp"
  by code_simp

lemma sample_posts:
  "\<exists>tr. append_to_ledger (\<lambda>_. None) cu_cmp (sample_issue []) (\<lambda>_. 0) ''token'' INDUSTRY (Inr sample_inp) []
    = (tr, Inr (''PERSISTED'', ''7'', ''u'')) \<and> posts tr \<noteq> []"
proof -
  let ?batch = "enrichBatch Industry sample_inp"
  have none: "replay_decision ?batch (validRoleComments cu_cmp [] Industry) = Inr None"
    by (simp add: replay_decision_def validRoleComments_def map_filter_def sort_by_def)
  have "parseExistingPayload (rendered_body (JObj ?batch)) = Some (stored_of Industry sample_inp)"
    using posted_batch_read [OF sample_accepted(1)] sample_accepted(3) by (simp add: rendered_body_def)
  then have "\<exists>tr. post_and_read_back investment_texts (JObj ?batch) parseExistingPayload
      (\<lambda>p. batchEquals (sb_object p) ?batch) (sample_issue []) (\<lambda>_. 0) [GetList (list_url INVESTMENT_LEDGER_ISSUE_NUMBER None)]
      = (tr, Inr \<lparr>comment_id = ''7'', comment_url = ''u'', created_at = ''t'', comment_payload = stored_of Industry sample_inp\<rparr>)"
    using sample_kept [of "[]" "[GetList (list_url INVESTMENT_LEDGER_ISSUE_NUMBER None)]"]
    by (intro post_and_read_back_kept)
      (simp_all add: investment_texts_def INVESTMENT_LEDGER_ISSUE_NUMBER_def stored_equals)
  then obtain tr where p: "post_and_read_back investment_texts (JObj ?batch) parseExistingPayload
      (\<lambda>p. batchEquals (sb_object p) ?batch) (sample_issue []) (\<lambda>_. 0) [GetList (list_url INVESTMENT_LEDGER_ISSUE_NUMBER None)]
      = (tr, Inr \<lparr>comment_id = ''7'', comment_url = ''u'', created_at = ''t'', comment_payload = stored_of Industry sample_inp\<rparr>)"
    by blast
  have "posts tr \<noteq> []" using post_and_read_back_trace [OF p] by simp
  then show ?thesis
    using append_batch_reaches [OF sample_schema sample_accepted(2) _ sample_list, of "''token''" cu_cmp "[]" "\<lambda>_. 0" "[]"] none p
    by (auto simp: append_to_ledger_def batch_result_of_def)
qed

lemma sample_returns:
  "\<exists>w tr g. appendStateBatch (\<lambda>_. None) cu_cmp (\<lambda>_. ''h'') (sample_issue []) (\<lambda>_. 0) ''token'' (\<lambda>u. u)
      ''2026-01-05T10:00:02.000Z'' sample_append (Some []) [] = (Some w, tr, Inr g)
    \<and> posts tr \<noteq> [] \<and> gr_write_key g = ''k'' \<and> gr_comment_id g = ''7'' \<and> gr_channel g = INDUSTRY
    \<and> gr_payload_sha256 g = ''h''"
proof -
  obtain tr where tr: "append_to_ledger (\<lambda>_. None) cu_cmp (sample_issue []) (\<lambda>_. 0) ''token'' INDUSTRY (Inr sample_inp) []
    = (tr, Inr (''PERSISTED'', ''7'', ''u''))" "posts tr \<noteq> []" using sample_posts by blast
  have s: "wr_status sample_row \<noteq> CONFLICT" "ai_channel sample_append = INDUSTRY" "vb_normalized sample_valid = Inr sample_inp"
    by (simp_all add: sample_row_def new_receipt_def sample_append_def sample_valid_def)
  have row: "row_of [sample_row] ''k'' = Some sample_row" "wr_lease_owner sample_row = Some (ai_request_id sample_append)"
    by (simp_all add: row_of_def sample_row_def new_receipt_def sample_append_def)
  note fin = finalize_unfold [OF row, of "success_of sample_append ''2026-01-05T10:00:02.000Z'' (''PERSISTED'', ''7'', ''u'')"]
  show ?thesis
    using append_reserved [OF sample_validates sample_granted s(1), where fetch = "sample_issue []" and lc = cu_cmp and
        token = "''token''" and random = "\<lambda>_. 0" and meanwhile = "\<lambda>u. u" and updatedAt = "''2026-01-05T10:00:02.000Z''",
        unfolded s sample_key, OF tr(1)]
      fin s(2) tr(2) by (auto simp: settle_append_def)
qed

lemma sample_empty_ok: "receipts_ok []"
  by (simp add: receipts_ok_def)


theorem gateway_receipt_matches_witness:
  "\<exists>w tr res row. appendStateBatch (\<lambda>_. None) cu_cmp (\<lambda>_. ''h'') (sample_issue []) (\<lambda>_. 0) ''token'' (\<lambda>u. u)
      ''2026-01-05T10:00:02.000Z'' sample_append (Some []) [] = (Some w, tr, res)
    \<and> row_of w ''k'' = Some row \<and> wr_lease_owner row = None"
  using gateway_receipt_matches [OF sample_empty_ok sample_now sample_validates sample_granted lease_respected_idle]
  unfolding sample_key by blast


text \<open>A CLOSE batch that confirms the R1 of the sample industry event.\<close>

definition sample_close :: batch_input where
  "sample_close = sample_inp\<lparr>bi_events :=
     [[(''symbol'', JStr ''CN:600000''), (''effective_r_state'', JStr ''R1'')]]\<rparr>"

lemma js_set_sample: "js_set [''CN:600000''] = [''CN:600000'']"
  by code_simp

lemma sample_close_ok:
  "\<exists>t. validateCloseDependencies (\<lambda>_. None) cu_cmp (sample_issue [sample_comment]) (\<lambda>_. 0) ''token'' sample_close [] = (t, Inr ())"
proof -
  have c: "(length (js_set [''CN:600000'']) < 1 \<or> 512 < length (js_set [''CN:600000''])
        \<or> list_ex (\<lambda>s. \<not> is_instrument_key s) (js_set [''CN:600000''])) = False"
      "(''token'' = '''') = False" by code_simp+
  have f: "filter (\<lambda>e. effective e ''R1'') (bi_events sample_close) = bi_events sample_close"
    "filter (\<lambda>e. effective e ''R2'' \<or> effective e ''R3'' \<or> effective e ''R4'' \<or> r4_candidate e) (bi_events sample_close) = []"
    "filter (\<lambda>e. effective e ''R4'' \<or> r4_candidate e) (bi_events sample_close) = []"
    "map symbol_of (bi_events sample_close) = [''CN:600000'']" "(bi_events sample_close = []) = False"
    by code_simp+
  have "\<exists>st. getInvestmentLedgerState cu_cmp (sample_issue [sample_comment]) (\<lambda>_. 0) ''token'' Industry [''CN:600000''] None []
      = ([GetList (list_url INVESTMENT_LEDGER_ISSUE_NUMBER None)], Inr st)
    \<and> latest_proposal st ''CN:600000'' = Some (JStr ''R1'')"
    unfolding getInvestmentLedgerState_def Let_def c if_False sample_list prod.case sum.case append_Nil
    by (rule exI, rule conjI, rule refl) code_simp
  then show ?thesis
    unfolding validateCloseDependencies_def require_proposal_def require_market_def f js_set_sample
    by (auto simp: Let_def f sample_close_def symbol_of_def throw_if_ok js_set_sample)
qed

theorem close_dependencies_sound_witness:
  "\<exists>symbols t0 t1 st. getInvestmentLedgerState cu_cmp (sample_issue [sample_comment]) (\<lambda>_. 0) ''token'' Industry symbols None t0
      = (t1, Inr st) \<and> latest_proposal st ''CN:600000'' = Some (JStr ''R1'')"
proof -
  obtain t where t: "validateCloseDependencies (\<lambda>_. None) cu_cmp (sample_issue [sample_comment]) (\<lambda>_. 0) ''token'' sample_close [] = (t, Inr ())"
    using sample_close_ok by blast
  let ?e = "[(''symbol'', JStr ''CN:600000''), (''effective_r_state'', JStr ''R1'')]"
  have e: "?e \<in> set (bi_events sample_close)" by (simp add: sample_close_def)
  have "effective ?e ''R1''" "symbol_of ?e = ''CN:600000''" by code_simp+
  with close_dependencies_sound [OF t e] show ?thesis by auto
qed

end
