(* ===== verification/State_Commands.thy ===== *)
theory State_Commands
  imports State_Gateway
begin

text \<open>
  \<open>src/src/state-commands.ts\<close>: the commands of the four writers. A caller gives the events or the
  records; the batch around them, with its identity, is built here and goes through the gateway. The
  SHA-256 of a canonical value is the parameter \<open>sha\<close>. Unknown properties of a command are dropped.
\<close>

section \<open>Schemas\<close>

text \<open>A valid ISO date-time of at most 128 characters.\<close>

definition AS_OF_SCHEMA :: "(string \<Rightarrow> int option) \<Rightarrow> jsval option \<Rightarrow> string option" where
  "AS_OF_SCHEMA lp v = filter_option (\<lambda>s. date_parse lp s \<noteq> None) (z_text 1 128 v)"

text \<open>\<open>z.string().min(1).max(192).optional()\<close>: the inner option is the value.\<close>

definition RUN_ID_SCHEMA :: "jsval option \<Rightarrow> string option option" where
  "RUN_ID_SCHEMA v = (case v of None \<Rightarrow> Some None | Some _ \<Rightarrow> map_option Some (z_text 1 192 v))"

definition COMMON_EVENT_KEYS :: "string list" where
  "COMMON_EVENT_KEYS = [''symbol'', ''event_type'', ''evidence_types'', ''evidence_keys'', ''counter_evidence'',
     ''confidence'', ''next_validation'']"

definition COMMON_EVENT_SHAPE :: "jsobj \<Rightarrow> bool" where
  "COMMON_EVENT_SHAPE e \<longleftrightarrow>
     (case as_string (fld e ''symbol'') of None \<Rightarrow> False | Some s \<Rightarrow> is_instrument_key s)
     \<and> (case fld e ''event_type'' of None \<Rightarrow> False | Some t \<Rightarrow> is_one_of EVENT_TYPES t)
     \<and> is_array 0 6 (is_one_of EVIDENCE_TYPES) (fld e ''evidence_types'')
     \<and> is_array 0 100 (is_text 1 512) (fld e ''evidence_keys'')
     \<and> is_array 0 20 (is_text 1 4000) (fld e ''counter_evidence'')
     \<and> (case as_finite (fld e ''confidence'') of None \<Rightarrow> False | Some q \<Rightarrow> 0 \<le> q \<and> q \<le> 1)
     \<and> (case fld e ''next_validation'' of None \<Rightarrow> False | Some x \<Rightarrow> x = JNull \<or> is_text 0 8000 x)"

text \<open>The properties of a channel beside the common ones, in the order of its schema.\<close>

fun owned_keys :: "ledger_role \<Rightarrow> string list" where
  "owned_keys Company = [''company_thesis'', ''company_validation'', ''r_proposal'']"
| "owned_keys Industry = [''research_priority'', ''industry_thesis'', ''r_proposal'']"
| "owned_keys Close = [''effective_r_state'', ''market_confirmation'', ''r4_candidate'', ''close_thesis_view'']"

fun owned_shape :: "ledger_role \<Rightarrow> jsobj \<Rightarrow> bool" where
  "owned_shape Company e \<longleftrightarrow>
     OPTIONAL_TEXT (fld e ''company_thesis'') \<and> OPTIONAL_TEXT (fld e ''company_validation'')
     \<and> z_optional (is_one_of [''R2'']) (fld e ''r_proposal'')"
| "owned_shape Industry e \<longleftrightarrow>
     z_optional (is_one_of [''P0'', ''P1'', ''P2'']) (fld e ''research_priority'')
     \<and> OPTIONAL_TEXT (fld e ''industry_thesis'') \<and> z_optional (is_one_of [''R0'', ''R1'']) (fld e ''r_proposal'')"
| "owned_shape Close e \<longleftrightarrow>
     z_optional (is_one_of [''R0'', ''R1'', ''R2'', ''R3'', ''R4'']) (fld e ''effective_r_state'')
     \<and> OPTIONAL_TEXT (fld e ''market_confirmation'') \<and> z_optional is_flag (fld e ''r4_candidate'')
     \<and> OPTIONAL_TEXT (fld e ''close_thesis_view'')"

text \<open>An object schema drops unknown properties, or refuses them when it is strict.\<close>

definition event_keys :: "ledger_role \<Rightarrow> string list" where
  "event_keys role = COMMON_EVENT_KEYS @ owned_keys role"

definition EVENT_COMMAND_SCHEMA :: "bool \<Rightarrow> ledger_role \<Rightarrow> jsval \<Rightarrow> jsobj option" where
  "EVENT_COMMAND_SCHEMA strict role v =
     (case (if strict then z_strict (event_keys role) (Some v) else as_record v) of
        None \<Rightarrow> None
      | Some e \<Rightarrow> if COMMON_EVENT_SHAPE e \<and> owned_shape role e then Some (pick (event_keys role) e) else None)"

record event_command =
  ec_as_of :: string
  ec_events :: "jsobj list"
  ec_run_id :: "string option"

definition investmentCommandSchema ::
  "(string \<Rightarrow> int option) \<Rightarrow> bool \<Rightarrow> ledger_role \<Rightarrow> jsval \<Rightarrow> event_command option" where
  "investmentCommandSchema lp strict role v =
     do { ob \<leftarrow> (if strict then z_strict [''as_of'', ''events'', ''run_id''] (Some v) else as_record v);
          asOf \<leftarrow> AS_OF_SCHEMA lp (fld ob ''as_of'');
          events \<leftarrow> filter_option (\<lambda>es. es \<noteq> []) (z_array 128 (EVENT_COMMAND_SCHEMA strict role) (fld ob ''events''));
          run \<leftarrow> RUN_ID_SCHEMA (fld ob ''run_id'');
          Some \<lparr>ec_as_of = asOf, ec_events = events, ec_run_id = run\<rparr> }"

record observation_command =
  oc_trading_date :: string
  oc_as_of :: string
  oc_scheduled_slot :: string
  oc_production_ref :: string
  oc_records :: "jsobj list"
  oc_run_id :: "string option"

definition OBSERVATION_KEYS :: "string list" where
  "OBSERVATION_KEYS = [''trading_date'', ''as_of'', ''scheduled_slot'', ''production_ref'', ''records'', ''run_id'']"

definition MARKET_OBSERVATION_COMMAND_SCHEMA ::
  "(string \<Rightarrow> int option) \<Rightarrow> bool \<Rightarrow> jsval \<Rightarrow> observation_command option" where
  "MARKET_OBSERVATION_COMMAND_SCHEMA lp strict v =
     do { ob \<leftarrow> (if strict then z_strict OBSERVATION_KEYS (Some v) else as_record v);
          day \<leftarrow> filter_option is_day_text (as_string (fld ob ''trading_date''));
          asOf \<leftarrow> AS_OF_SCHEMA lp (fld ob ''as_of'');
          slot \<leftarrow> z_enum MARKET_LEDGER_SLOTS (fld ob ''scheduled_slot'');
          ref \<leftarrow> filter_option is_commit (as_string (fld ob ''production_ref''));
          records \<leftarrow> z_array 512 CHECKPOINT_RECORD_SCHEMA (fld ob ''records'');
          run \<leftarrow> RUN_ID_SCHEMA (fld ob ''run_id'');
          Some \<lparr>oc_trading_date = day, oc_as_of = asOf, oc_scheduled_slot = slot, oc_production_ref = ref,
            oc_records = records, oc_run_id = run\<rparr> }"

text \<open>The list of the issues of the schema, which the message ends with, is left out.\<close>

definition parseCommand :: "('a option) \<Rightarrow> string \<Rightarrow> domain_error + 'a" where
  "parseCommand parsed label =
     (case parsed of
        None \<Rightarrow> Inl (invalid_batch (label @ '' does not match the owned command schema''))
      | Some x \<Rightarrow> Inr x)"

definition isOwnedStateCommandPayload :: "write_channel \<Rightarrow> jsval \<Rightarrow> bool" where
  "isOwnedStateCommandPayload channel v =
     (case v of JObj ob \<Rightarrow> \<not> has_key ob ''schema_version'' | _ \<Rightarrow> False)"

section \<open>Normal form of the events\<close>

definition normalizeEvidenceTypes :: "string list \<Rightarrow> string list" where
  "normalizeEvidenceTypes vs = filter (\<lambda>t. t \<in> set vs) EVIDENCE_TYPES"

definition normalizeEvidenceKeys :: "string list \<Rightarrow> string list" where
  "normalizeEvidenceKeys vs = sort (js_set vs)"

text \<open>The strings of an array property of a parsed event.\<close>

definition texts_of :: "jsobj \<Rightarrow> string \<Rightarrow> string list" where
  "texts_of e f =
     (case as_array (fld e f) of None \<Rightarrow> [] | Some xs \<Rightarrow> List.map_filter (\<lambda>x. as_string (Some x)) xs)"

definition value_of :: "jsobj \<Rightarrow> string \<Rightarrow> jsval" where
  "value_of e f = (case fld e f of None \<Rightarrow> JNull | Some v \<Rightarrow> v)"

definition commonEvent :: "jsobj \<Rightarrow> jsobj" where
  "commonEvent e =
     [(''symbol'', value_of e ''symbol''), (''event_type'', value_of e ''event_type''),
      (''evidence_types'', JArr (map JStr (normalizeEvidenceTypes (texts_of e ''evidence_types'')))),
      (''evidence_keys'', JArr (map JStr (normalizeEvidenceKeys (texts_of e ''evidence_keys'')))),
      (''counter_evidence'', JArr (map JStr (texts_of e ''counter_evidence''))),
      (''confidence'', value_of e ''confidence''), (''next_validation'', value_of e ''next_validation'')]"

text \<open>\<open>projectCompanyEvent\<close>, \<open>projectIndustryEvent\<close>, \<open>projectCloseEvent\<close>: an owned property that is
  absent stays absent.\<close>

definition projectEvent :: "ledger_role \<Rightarrow> jsobj \<Rightarrow> jsobj" where
  "projectEvent role e = commonEvent e @ pick (owned_keys role) e"

fun show_channel :: "write_channel \<Rightarrow> string" where
  "show_channel MARKET = ''MARKET''"
| "show_channel INDUSTRY = ''INDUSTRY''"
| "show_channel COMPANY = ''COMPANY''"
| "show_channel CLOSE = ''CLOSE''"

fun channel_of :: "ledger_role \<Rightarrow> write_channel" where
  "channel_of Industry = INDUSTRY"
| "channel_of Company = COMPANY"
| "channel_of Close = CLOSE"

definition PRODUCER_BY_CHANNEL :: "ledger_role \<Rightarrow> string" where
  "PRODUCER_BY_CHANNEL role =
     (case role of Industry \<Rightarrow> ''industry_trend'' | Company \<Rightarrow> ''company_validation'' | Close \<Rightarrow> ''close_review'')"

definition projectEvents :: "ledger_role \<Rightarrow> jsobj list \<Rightarrow> domain_error + jsobj list" where
  "projectEvents role events =
     mapE (\<lambda>e i. case parseCommand (EVENT_COMMAND_SCHEMA False role (JObj e)) (show_channel (channel_of role) @ '' event'') of
        Inl err \<Rightarrow> Inl err | Inr e' \<Rightarrow> Inr (projectEvent role e')) events"

section \<open>Investment commands\<close>

record prepared_batch =
  pb_batch :: jsval
  pb_write_key :: string
  pb_payload_sha256 :: string
  pb_run_id :: "string option"

definition normalized_command :: "ledger_role \<Rightarrow> jsobj list \<Rightarrow> jsval" where
  "normalized_command role events = JObj
     [(''contract'', JStr ''owned-state-command-v1''), (''channel'', JStr (show_channel (channel_of role))),
      (''events'', JArr (map JObj events))]"

definition command_batch :: "ledger_role \<Rightarrow> string \<Rightarrow> string \<Rightarrow> string \<Rightarrow> jsobj list \<Rightarrow> jsval" where
  "command_batch role portfolioVersion digest asOf events = JObj
     [(''schema_version'', JStr ''investment_state_batch_v1''), (''portfolio_version'', JStr portfolioVersion),
      (''event_id'', JStr (''CMD:'' @ digest @ ''|'' @ PRODUCER_BY_CHANNEL role @ ''|BATCH'')),
      (''as_of'', JStr asOf), (''events'', JArr (map JObj events))]"

definition buildInvestmentCommandBatch ::
  "(string \<Rightarrow> int option) \<Rightarrow> (jsval \<Rightarrow> string) \<Rightarrow> ledger_role \<Rightarrow> jsval \<Rightarrow> string \<Rightarrow> domain_error + prepared_batch" where
  "buildInvestmentCommandBatch lp sha role command portfolioVersion =
     bindE (parseCommand (investmentCommandSchema lp False role command) (show_channel (channel_of role))) (\<lambda>parsed.
     bindE (projectEvents role (ec_events parsed)) (\<lambda>events.
     (let digest = sha256Hex sha (normalized_command role events) in
      Inr \<lparr>pb_batch = command_batch role portfolioVersion digest (ec_as_of parsed) events,
           pb_write_key = ''CMD:'' @ show_channel (channel_of role) @ '':'' @ digest,
           pb_payload_sha256 = digest, pb_run_id = ec_run_id parsed\<rparr>)))"

text \<open>What a command throws: what building it threw, or what the append threw.\<close>

datatype command_failure = NotBuilt domain_error | NotAppended append_error

text \<open>What the envelope of a run adds to an append.\<close>

record append_context =
  ac_now :: string
  ac_request_id :: string
  ac_envelope_key :: "string option"
  ac_event_count :: "int option"

definition appendInvestmentCommand ::
  "(string \<Rightarrow> int option) \<Rightarrow> (string \<Rightarrow> string \<Rightarrow> int) \<Rightarrow> (jsval \<Rightarrow> string) \<Rightarrow> github \<Rightarrow> (nat \<Rightarrow> rat) \<Rightarrow> string
   \<Rightarrow> (receipts \<Rightarrow> receipts) \<Rightarrow> string \<Rightarrow> ledger_role \<Rightarrow> jsval \<Rightarrow> string \<Rightarrow> append_context \<Rightarrow> receipt_db \<Rightarrow> request list
   \<Rightarrow> receipt_db \<times> request list \<times> (command_failure + gateway_result \<times> string option)" where
  "appendInvestmentCommand lp lc sha fetch random token meanwhile updatedAt role command portfolioVersion ctx db trace =
     (case buildInvestmentCommandBatch lp sha role command portfolioVersion of
        Inl e \<Rightarrow> (db, trace, Inl (NotBuilt e))
      | Inr p \<Rightarrow>
          (case appendStateBatch lp lc sha fetch random token meanwhile updatedAt
                  \<lparr>ai_channel = channel_of role, ai_batch = pb_batch p, ai_now = ac_now ctx,
                   ai_request_id = ac_request_id ctx, ai_write_key = Some (pb_write_key p),
                   ai_payload_sha256 = Some (pb_payload_sha256 p), ai_envelope_key = ac_envelope_key ctx,
                   ai_event_count = ac_event_count ctx\<rparr> db trace of
             (db', t, Inl e) \<Rightarrow> (db', t, Inl (NotAppended e))
           | (db', t, Inr g) \<Rightarrow> (db', t, Inr (g, pb_run_id p))))"

section \<open>Market observations\<close>

definition marketObservationType :: "string \<Rightarrow> string" where
  "marketObservationType slot =
     (if slot = ''09:10'' then ''PREMARKET'' else if slot = ''16:45'' then ''CLOSE'' else ''INTRADAY'')"

text \<open>\<open>replaceAll("-", "")\<close> and \<open>replace(":", "")\<close>, the latter of the first colon only.\<close>

definition marketEventId :: "string \<Rightarrow> string \<Rightarrow> string" where
  "marketEventId tradingDate slot =
     filter (\<lambda>c. c \<noteq> CHR ''-'') tradingDate @ ''T'' @ remove1 CHR '':'' slot @ ''00+08|holding-assistant|BATCH''"

definition observation_batch :: "string \<Rightarrow> string \<Rightarrow> observation_command \<Rightarrow> checkpoint_state \<Rightarrow> jsval" where
  "observation_batch portfolioVersion liveUniverseHash c state =
     (let premarket = (oc_scheduled_slot c = ''09:10'') in JObj
      [(''schema_version'', JStr (if premarket then ''premarket_plan_batch_v1'' else ''market_observation_batch_v1'')),
       (''prompt_id'', JStr ''holding-assistant''), (''production_ref'', JStr (oc_production_ref c)),
       (''portfolio_version'', JStr portfolioVersion),
       (''event_id'', JStr (marketEventId (oc_trading_date c) (oc_scheduled_slot c))),
       (''idempotency_key'', JStr (''holding-assistant:'' @ oc_trading_date c @ '':'' @ oc_scheduled_slot c)),
       (''trading_date'', JStr (oc_trading_date c)), (''as_of'', JStr (oc_as_of c)),
       (''scheduled_slot'', JStr (oc_scheduled_slot c)), (''producer'', JStr ''holding-assistant''),
       (''observation_type'', JStr (marketObservationType (oc_scheduled_slot c))),
       (''previous_checkpoint_comment_id'',
         if premarket then JNull else or_null (map_option comment_id (ms_previous_checkpoint state))),
       (''preopen_comment_id'', if premarket then JNull else or_null (map_option comment_id (ms_preopen state))),
       (''live_universe_hash'', JStr liveUniverseHash), (''source_task'', JStr MARKET_SOURCE_TASK),
       (''records'', JArr (map JObj (oc_records c)))])"

definition buildMarketObservationBatch ::
  "(string \<Rightarrow> int option) \<Rightarrow> (string \<Rightarrow> string \<Rightarrow> int) \<Rightarrow> github \<Rightarrow> (nat \<Rightarrow> rat) \<Rightarrow> string \<Rightarrow> jsval \<Rightarrow> string \<Rightarrow> string
   \<Rightarrow> request list \<Rightarrow> request list \<times> (domain_error + jsval \<times> string option)" where
  "buildMarketObservationBatch lp lc fetch random token command portfolioVersion liveUniverseHash trace =
     (case parseCommand (MARKET_OBSERVATION_COMMAND_SCHEMA lp False command) ''MARKET observation'' of
        Inl e \<Rightarrow> (trace, Inl e)
      | Inr c \<Rightarrow>
      (case getMarketCheckpoints lp lc fetch random token (oc_trading_date c) (oc_scheduled_slot c) trace of
        (t, Inl e) \<Rightarrow> (t, Inl (Market e))
      | (t, Inr state) \<Rightarrow>
          (t, if ms_status state = ''CHECKPOINT_CONFLICT''
              then Inl (Gateway (state_error_of STATE_CONFLICT VALIDATE
                ''market ledger already contains duplicate checkpoint keys'' False None None))
              else Inr (observation_batch portfolioVersion liveUniverseHash c state, oc_run_id c))))"

definition appendMarketObservation ::
  "(string \<Rightarrow> int option) \<Rightarrow> (string \<Rightarrow> string \<Rightarrow> int) \<Rightarrow> (jsval \<Rightarrow> string) \<Rightarrow> github \<Rightarrow> (nat \<Rightarrow> rat) \<Rightarrow> string
   \<Rightarrow> (receipts \<Rightarrow> receipts) \<Rightarrow> string \<Rightarrow> jsval \<Rightarrow> string \<Rightarrow> string \<Rightarrow> append_context \<Rightarrow> receipt_db \<Rightarrow> request list
   \<Rightarrow> receipt_db \<times> request list \<times> (command_failure + gateway_result \<times> string option)" where
  "appendMarketObservation lp lc sha fetch random token meanwhile updatedAt command portfolioVersion liveUniverseHash ctx db trace =
     (case buildMarketObservationBatch lp lc fetch random token command portfolioVersion liveUniverseHash trace of
        (t, Inl e) \<Rightarrow> (db, t, Inl (NotBuilt e))
      | (t, Inr (batch, run)) \<Rightarrow>
          (case appendStateBatch lp lc sha fetch random token meanwhile updatedAt
                  \<lparr>ai_channel = MARKET, ai_batch = batch, ai_now = ac_now ctx, ai_request_id = ac_request_id ctx,
                   ai_write_key = None, ai_payload_sha256 = None, ai_envelope_key = ac_envelope_key ctx,
                   ai_event_count = ac_event_count ctx\<rparr> db t of
             (db', t', Inl e) \<Rightarrow> (db', t', Inl (NotAppended e))
           | (db', t', Inr g) \<Rightarrow> (db', t', Inr (g, run))))"

section \<open>Facts: events\<close>

lemma pick_idem: "pick ks (pick ks ob) = pick ks ob"
  by (rule pick_cong) (simp add: fld_pick)

lemma shape_pick:
  "set COMMON_EVENT_KEYS \<subseteq> set ks \<Longrightarrow> COMMON_EVENT_SHAPE (pick ks ob) = COMMON_EVENT_SHAPE ob"
  unfolding COMMON_EVENT_SHAPE_def by (simp add: fld_pick COMMON_EVENT_KEYS_def)

lemma owned_pick: "set (owned_keys role) \<subseteq> set ks \<Longrightarrow> owned_shape role (pick ks ob) = owned_shape role ob"
  by (cases role) (simp_all add: fld_pick)

lemma event_keys_set: "set COMMON_EVENT_KEYS \<subseteq> set (event_keys role)" "set (owned_keys role) \<subseteq> set (event_keys role)"
  by (simp_all add: event_keys_def)

lemma event_command_Some:
  assumes "EVENT_COMMAND_SCHEMA strict role v = Some e"
  shows "COMMON_EVENT_SHAPE e" "owned_shape role e" "EVENT_COMMAND_SCHEMA False role (JObj e) = Some e"
proof -
  obtain ob where e: "e = pick (event_keys role) ob" and s: "COMMON_EVENT_SHAPE ob" "owned_shape role ob"
    using assms by (auto simp: EVENT_COMMAND_SCHEMA_def split: option.splits if_splits)
  show 1: "COMMON_EVENT_SHAPE e" and 2: "owned_shape role e"
    unfolding e using s event_keys_set by (simp_all add: shape_pick owned_pick)
  show "EVENT_COMMAND_SCHEMA False role (JObj e) = Some e"
    using 1 2 unfolding EVENT_COMMAND_SCHEMA_def by (simp add: e pick_idem)
qed

lemma parsed_events:
  assumes "investmentCommandSchema lp strict role v = Some c" "e \<in> set (ec_events c)"
  shows "COMMON_EVENT_SHAPE e" "owned_shape role e" "EVENT_COMMAND_SCHEMA False role (JObj e) = Some e"
proof -
  have "\<exists>x. EVENT_COMMAND_SCHEMA strict role x = Some e"
    using assms array_items
    by (fastforce simp: investmentCommandSchema_def bind_eq_Some_conv filter_option_Some)
  then obtain x where x: "EVENT_COMMAND_SCHEMA strict role x = Some e" by blast
  show "COMMON_EVENT_SHAPE e" "owned_shape role e" "EVENT_COMMAND_SCHEMA False role (JObj e) = Some e"
    by (rule event_command_Some [OF x])+
qed

lemma z_array_length: "z_array hi f v = Some ys \<Longrightarrow> length ys \<le> hi"
  by (auto simp: z_array_def all_some_Some split: option.splits if_splits dest: arg_cong [of _ _ length])

lemma mapE_total: "(\<And>x i. x \<in> set xs \<Longrightarrow> f x i = Inr (g x)) \<Longrightarrow> mapE_from k f xs = Inr (map g xs)"
  by (simp add: mapE_from_Inr)

lemma parsed_projection:
  assumes "investmentCommandSchema lp strict role v = Some c"
  shows "projectEvents role (ec_events c) = Inr (map (projectEvent role) (ec_events c))"
  unfolding projectEvents_def
  by (rule mapE_total) (simp add: parseCommand_def parsed_events(3) [OF assms])

lemma build_command:
  "buildInvestmentCommandBatch lp sha role command pv =
     (case investmentCommandSchema lp False role command of
        None \<Rightarrow> Inl (invalid_batch (show_channel (channel_of role) @ '' does not match the owned command schema''))
      | Some c \<Rightarrow>
          (let events = map (projectEvent role) (ec_events c); digest = sha256Hex sha (normalized_command role events) in
           Inr \<lparr>pb_batch = command_batch role pv digest (ec_as_of c) events,
             pb_write_key = ''CMD:'' @ show_channel (channel_of role) @ '':'' @ digest,
             pb_payload_sha256 = digest, pb_run_id = ec_run_id c\<rparr>))"
  by (simp add: buildInvestmentCommandBatch_def parseCommand_def parsed_projection Let_def split: option.split)

lemma length_js_set_le: "length (js_set xs) \<le> length xs"
  by (metis card_length distinct_card distinct_js_set set_js_set)

lemma texts_of_all: "fld e f = Some (JArr (map JStr ss)) \<Longrightarrow> texts_of e f = ss"
  by (simp add: texts_of_def map_filter_def comp_def)

lemma text_items:
  assumes "list_all P xs" "\<And>x. P x \<Longrightarrow> \<exists>s. x = JStr s"
  shows "\<exists>ss. xs = map JStr ss"
  using assms
proof (induction xs)
  case (Cons x xs)
  obtain s where x: "x = JStr s" using Cons.prems by auto
  obtain ss where xs: "xs = map JStr ss" using Cons.IH Cons.prems by auto
  show ?case by (rule exI [of _ "s # ss"]) (simp add: x xs)
qed simp

lemma is_text_JStr: "is_text lo hi x \<Longrightarrow> \<exists>s. x = JStr s" "is_one_of cs x \<Longrightarrow> \<exists>s. x = JStr s"
  by (cases x; simp)+

lemma is_array_texts:
  assumes "is_array lo hi P (fld e f)" "\<And>x. P x \<Longrightarrow> \<exists>s. x = JStr s"
  shows "\<exists>ss. fld e f = Some (JArr (map JStr ss)) \<and> texts_of e f = ss \<and> lo \<le> length ss \<and> length ss \<le> hi
    \<and> list_all (\<lambda>s. P (JStr s)) ss"
proof -
  obtain xs where xs: "fld e f = Some (JArr xs)" "lo \<le> length xs" "length xs \<le> hi" "list_all P xs"
    using assms(1) by (auto simp: is_array_def split: option.splits)
  obtain ss where ss: "xs = map JStr ss" using text_items [OF xs(4) assms(2)] by blast
  show ?thesis
    using xs texts_of_all [of e f ss] unfolding ss by (auto simp: list_all_iff)
qed

lemma common_keys: "fst ` set (commonEvent e) = set COMMON_EVENT_KEYS"
  unfolding commonEvent_def COMMON_EVENT_KEYS_def list.set image_insert image_empty fst_conv by (rule refl)

text \<open>A projected event, property by property.\<close>

lemma fld_project:
  "fld (projectEvent role e) k =
     (if k \<in> set COMMON_EVENT_KEYS then fld (commonEvent e) k
      else if k \<in> set (owned_keys role) then fld e k else None)"
proof -
  have n: "fld (commonEvent e) k = None \<longleftrightarrow> k \<notin> set COMMON_EVENT_KEYS" by (simp only: map_of_eq_None_iff common_keys)
  show ?thesis
    using n by (cases "fld (commonEvent e) k") (simp_all add: projectEvent_def map_add_def fld_pick)
qed

lemma common_shape_normal:
  assumes "COMMON_EVENT_SHAPE e"
  shows "COMMON_EVENT_SHAPE (commonEvent e)"
proof -
  have arrays: "is_array 0 6 (is_one_of EVIDENCE_TYPES) (fld e ''evidence_types'')"
      "is_array 0 100 (is_text 1 512) (fld e ''evidence_keys'')" "is_array 0 20 (is_text 1 4000) (fld e ''counter_evidence'')"
    using assms unfolding COMMON_EVENT_SHAPE_def by blast+
  obtain ts where t: "fld e ''evidence_types'' = Some (JArr (map JStr ts))" "texts_of e ''evidence_types'' = ts"
    using is_array_texts [OF arrays(1) is_text_JStr(2) [where cs = EVIDENCE_TYPES]] by blast
  obtain ks where k: "texts_of e ''evidence_keys'' = ks" "length ks \<le> 100" "list_all (\<lambda>s. is_text 1 512 (JStr s)) ks"
    using is_array_texts [OF arrays(2) is_text_JStr(1) [where lo = 1 and hi = 512]] by blast
  obtain cs where c: "texts_of e ''counter_evidence'' = cs" "length cs \<le> 20" "list_all (\<lambda>s. is_text 1 4000 (JStr s)) cs"
    using is_array_texts [OF arrays(3) is_text_JStr(1) [where lo = 1 and hi = 4000]] by blast
  have a: "is_array 0 6 (is_one_of EVIDENCE_TYPES) (Some (JArr (map JStr (normalizeEvidenceTypes ts))))"
    using length_filter_le [of _ EVIDENCE_TYPES]
    by (auto simp: is_array_def normalizeEvidenceTypes_def list_all_iff intro: order_trans) (simp add: EVIDENCE_TYPES_def)
  have b: "is_array 0 100 (is_text 1 512) (Some (JArr (map JStr (normalizeEvidenceKeys ks))))"
    using k(2,3) length_js_set_le [of ks] by (auto simp: is_array_def normalizeEvidenceKeys_def list_all_iff)
  have d: "is_array 0 20 (is_text 1 4000) (Some (JArr (map JStr cs)))"
    using c by (auto simp: is_array_def list_all_iff)
  have v: "fld e f \<noteq> None \<Longrightarrow> Some (value_of e f) = fld e f" for f by (auto simp: value_of_def)
  have n: "fld e ''symbol'' \<noteq> None" "fld e ''event_type'' \<noteq> None" "fld e ''confidence'' \<noteq> None" "fld e ''next_validation'' \<noteq> None"
    using assms unfolding COMMON_EVENT_SHAPE_def by (auto split: option.splits)
  have f: "fld (commonEvent e) ''symbol'' = fld e ''symbol''" "fld (commonEvent e) ''event_type'' = fld e ''event_type''"
    "fld (commonEvent e) ''confidence'' = fld e ''confidence''" "fld (commonEvent e) ''next_validation'' = fld e ''next_validation''"
    "fld (commonEvent e) ''evidence_types'' = Some (JArr (map JStr (normalizeEvidenceTypes ts)))"
    "fld (commonEvent e) ''evidence_keys'' = Some (JArr (map JStr (normalizeEvidenceKeys ks)))"
    "fld (commonEvent e) ''counter_evidence'' = Some (JArr (map JStr cs))"
    using v n t(2) k(1) c(1) by (simp_all add: commonEvent_def)
  show ?thesis
    using assms a b d unfolding COMMON_EVENT_SHAPE_def f by simp
qed

lemma project_shape: "COMMON_EVENT_SHAPE e \<Longrightarrow> COMMON_EVENT_SHAPE (projectEvent role e)"
  using common_shape_normal [of e] unfolding COMMON_EVENT_SHAPE_def by (simp add: fld_project COMMON_EVENT_KEYS_def)

lemma project_owned: "f \<in> set (owned_keys role) \<Longrightarrow> fld (projectEvent role e) f = fld e f"
  by (cases role) (auto simp: fld_project COMMON_EVENT_KEYS_def)

lemma project_absent: "f \<notin> set COMMON_EVENT_KEYS \<Longrightarrow> f \<notin> set (owned_keys role) \<Longrightarrow> fld (projectEvent role e) f = None"
  by (simp add: fld_project)

lemma z_optional_None [simp]: "z_optional P None"
  by (simp add: z_optional_def)

lemma z_optional_mono: "z_optional P v \<Longrightarrow> (\<And>x. P x \<Longrightarrow> Q x) \<Longrightarrow> z_optional Q v"
  by (auto simp: z_optional_def split: option.splits)

lemma one_of_mono: "set cs \<subseteq> set ds \<Longrightarrow> is_one_of cs x \<Longrightarrow> is_one_of ds x"
  by (cases x) auto

lemma proposal_mono:
  "z_optional (is_one_of [''R2'']) v \<Longrightarrow> z_optional (is_one_of [''R0'', ''R1'', ''R2'']) v"
  "z_optional (is_one_of [''R0'', ''R1'']) v \<Longrightarrow> z_optional (is_one_of [''R0'', ''R1'', ''R2'']) v"
  by (erule z_optional_mono, erule one_of_mono [rotated], simp)+

lemma event_schema_eq:
  "INVESTMENT_LEDGER_EVENT_INPUT_SCHEMA v =
     (case z_strict EVENT_KEYS (Some v) of None \<Rightarrow> None
      | Some e \<Rightarrow> if COMMON_EVENT_SHAPE e
           \<and> z_optional (is_one_of [''P0'', ''P1'', ''P2'']) (fld e ''research_priority'')
           \<and> OPTIONAL_TEXT (fld e ''industry_thesis'') \<and> OPTIONAL_TEXT (fld e ''company_thesis'')
           \<and> OPTIONAL_TEXT (fld e ''company_validation'')
           \<and> z_optional (is_one_of [''R0'', ''R1'', ''R2'']) (fld e ''r_proposal'')
           \<and> z_optional (is_one_of [''R0'', ''R1'', ''R2'', ''R3'', ''R4'']) (fld e ''effective_r_state'')
           \<and> OPTIONAL_TEXT (fld e ''market_confirmation'') \<and> z_optional is_flag (fld e ''r4_candidate'')
           \<and> OPTIONAL_TEXT (fld e ''close_thesis_view'')
         then Some (pick EVENT_KEYS e) else None)"
  unfolding INVESTMENT_LEDGER_EVENT_INPUT_SCHEMA_def COMMON_EVENT_SHAPE_def conj_assoc
  by (rule option.case_cong [OF refl refl], rule if_cong [OF _ refl refl]) blast

lemma key_sets: "set COMMON_EVENT_KEYS \<subseteq> set EVENT_KEYS" "set (owned_keys role) \<subseteq> set EVENT_KEYS"
  by (simp add: COMMON_EVENT_KEYS_def EVENT_KEYS_def, cases role, simp_all add: EVENT_KEYS_def)

lemma project_keys: "list_all (\<lambda>(k, _). k \<in> set EVENT_KEYS) (projectEvent role e)"
proof -
  have "fst ` set (projectEvent role e) \<subseteq> set COMMON_EVENT_KEYS \<union> set (owned_keys role)"
    using keys_pick [of "owned_keys role" e] by (auto simp: projectEvent_def image_Un common_keys)
  then have "fst ` set (projectEvent role e) \<subseteq> set EVENT_KEYS" using key_sets by blast
  then show ?thesis by (auto simp: list_all_iff)
qed

lemma projected_event_accepted:
  assumes "COMMON_EVENT_SHAPE e" "owned_shape role e"
  shows "INVESTMENT_LEDGER_EVENT_INPUT_SCHEMA (JObj (projectEvent role e)) = Some (pick EVENT_KEYS (projectEvent role e))"
proof -
  have z: "z_strict EVENT_KEYS (Some (JObj (projectEvent role e))) = Some (projectEvent role e)"
    using project_keys by (simp add: z_strict_def)
  note s = project_shape [OF assms(1), of role]
  show ?thesis
  proof (cases role)
    case Company
    then show ?thesis using z s assms(2) unfolding event_schema_eq
      by (simp add: fld_project COMMON_EVENT_KEYS_def OPTIONAL_TEXT_def proposal_mono)
  next
    case Industry
    then show ?thesis using z s assms(2) unfolding event_schema_eq
      by (simp add: fld_project COMMON_EVENT_KEYS_def OPTIONAL_TEXT_def proposal_mono)
  next
    case Close
    then show ?thesis using z s assms(2) unfolding event_schema_eq
      by (simp add: fld_project COMMON_EVENT_KEYS_def OPTIONAL_TEXT_def)
  qed
qed

section \<open>Facts: batches\<close>

definition is_digest :: "string \<Rightarrow> bool" where
  "is_digest d \<longleftrightarrow> length d = 64 \<and> list_all is_hex_lower d"

definition command_event_id_of :: "ledger_role \<Rightarrow> string \<Rightarrow> string" where
  "command_event_id_of role digest = ''CMD:'' @ digest @ ''|'' @ PRODUCER_BY_CHANNEL role @ ''|BATCH''"

definition command_input :: "ledger_role \<Rightarrow> string \<Rightarrow> string \<Rightarrow> string \<Rightarrow> jsobj list \<Rightarrow> batch_input" where
  "command_input role pv digest asOf events =
     \<lparr>bi_portfolio_version = pv, bi_event_id = command_event_id_of role digest, bi_as_of = asOf,
      bi_events = map (\<lambda>e. pick EVENT_KEYS (projectEvent role e)) events\<rparr>"

lemma producer_role: "PRODUCER_BY_CHANNEL role = rc_producer (roleConfig role)"
  by (cases role) (simp_all add: PRODUCER_BY_CHANNEL_def)

lemma command_event_id_ok:
  assumes "is_digest d"
  shows "command_event_id (rc_producer (roleConfig role)) (command_event_id_of role d)"
    "length (command_event_id_of role d) \<le> 512" "1 \<le> length (command_event_id_of role d)"
  using assms
  by (simp_all add: is_digest_def command_event_id_def command_event_id_of_def producer_role)
    (cases role; simp)

lemma command_parts:
  assumes "investmentCommandSchema lp strict role v = Some c"
  shows "1 \<le> length (ec_as_of c)" "length (ec_as_of c) \<le> 128" "date_parse lp (ec_as_of c) \<noteq> None"
    "ec_events c \<noteq> []" "length (ec_events c) \<le> 128"
proof -
  obtain ob es where a: "AS_OF_SCHEMA lp (fld ob ''as_of'') = Some (ec_as_of c)"
    and e: "z_array 128 (EVENT_COMMAND_SCHEMA strict role) es = Some (ec_events c)" "ec_events c \<noteq> []"
    using assms by (auto simp: investmentCommandSchema_def bind_eq_Some_conv filter_option_Some)
  show "1 \<le> length (ec_as_of c)" "length (ec_as_of c) \<le> 128" "date_parse lp (ec_as_of c) \<noteq> None"
    using a by (auto simp: AS_OF_SCHEMA_def filter_option_Some z_text_def split: option.splits if_splits)
  show "ec_events c \<noteq> []" by fact
  show "length (ec_events c) \<le> 128" by (rule z_array_length [OF e(1)])
qed

lemma command_batch_accepted:
  assumes c: "investmentCommandSchema lp strict role v = Some c" and d: "is_digest d"
    and pv: "1 \<le> length pv" "length pv \<le> 512"
  shows "INVESTMENT_LEDGER_BATCH_INPUT_SCHEMA (command_batch role pv d (ec_as_of c) (map (projectEvent role) (ec_events c)))
    = Some (command_input role pv d (ec_as_of c) (ec_events c))"
proof -
  let ?es = "map (projectEvent role) (ec_events c)"
  have "map (INVESTMENT_LEDGER_EVENT_INPUT_SCHEMA \<circ> JObj) ?es
      = map Some (map (\<lambda>e. pick EVENT_KEYS (projectEvent role e)) (ec_events c))"
    using parsed_events [OF c] by (simp add: projected_event_accepted)
  then have z: "z_array 128 INVESTMENT_LEDGER_EVENT_INPUT_SCHEMA (Some (JArr (map JObj ?es)))
      = Some (map (\<lambda>e. pick EVENT_KEYS (projectEvent role e)) (ec_events c))"
    using command_parts(5) [OF c] by (simp add: z_array_def all_some_Some)
  have keys: "z_strict BATCH_KEYS (Some (command_batch role pv d (ec_as_of c) ?es)) =
      Some [(''schema_version'', JStr ''investment_state_batch_v1''), (''portfolio_version'', JStr pv),
        (''event_id'', JStr (command_event_id_of role d)), (''as_of'', JStr (ec_as_of c)), (''events'', JArr (map JObj ?es))]"
    by (simp add: z_strict_def BATCH_KEYS_def command_batch_def command_event_id_of_def)
  show ?thesis
    unfolding INVESTMENT_LEDGER_BATCH_INPUT_SCHEMA_def keys
    using command_event_id_ok(2,3) [OF d, of role] command_parts(1,2,4) [OF c] pv z
    by (simp add: z_enum_def z_text_def filter_option_def command_input_def del: One_nat_def)
qed

lemma owns_picked: "f \<in> set EVENT_KEYS \<Longrightarrow> owns (pick EVENT_KEYS e) f = owns e f"
  by (simp add: owns_def fld_pick)

lemma any_owned_picked: "set fs \<subseteq> set EVENT_KEYS \<Longrightarrow> list_ex (owns (pick EVENT_KEYS e)) fs = list_ex (owns e) fs"
  by (induction fs) (simp_all add: owns_picked)

lemma check_event_picked: "check_event role (pick EVENT_KEYS e) i = check_event role e i"
proof -
  have r: "''r_proposal'' \<in> set EVENT_KEYS" and
    k: "set INDUSTRY_FOREIGN \<subseteq> set EVENT_KEYS" "set COMPANY_FOREIGN \<subseteq> set EVENT_KEYS"
    "set CLOSE_FOREIGN \<subseteq> set EVENT_KEYS" "set CLOSE_OWNED \<subseteq> set EVENT_KEYS"
    by (simp_all add: EVENT_KEYS_def INDUSTRY_FOREIGN_def COMPANY_FOREIGN_def CLOSE_FOREIGN_def CLOSE_OWNED_def)
  show ?thesis
    unfolding check_event_def k [THEN any_owned_picked] owns_picked [OF r] fld_pick by (simp only: r if_True)
qed

lemma common_next: "COMMON_EVENT_SHAPE e \<Longrightarrow> fld (commonEvent e) ''next_validation'' = fld e ''next_validation''"
  unfolding COMMON_EVENT_SHAPE_def by (auto simp: commonEvent_def value_of_def split: option.splits)

lemma owns_projected:
  assumes "COMMON_EVENT_SHAPE e"
  shows "f \<in> set (owned_keys role) \<Longrightarrow> owns (projectEvent role e) f = owns e f"
    and "owns (projectEvent role e) ''next_validation'' = owns e ''next_validation''"
    and "f \<notin> set COMMON_EVENT_KEYS \<Longrightarrow> f \<notin> set (owned_keys role) \<Longrightarrow> \<not> owns (projectEvent role e) f"
proof -
  show "f \<in> set (owned_keys role) \<Longrightarrow> owns (projectEvent role e) f = owns e f"
    by (simp add: owns_def project_owned)
  have "fld (projectEvent role e) ''next_validation'' = fld e ''next_validation''"
    using common_next [OF assms] by (simp add: fld_project COMMON_EVENT_KEYS_def)
  then show "owns (projectEvent role e) ''next_validation'' = owns e ''next_validation''" by (simp add: owns_def)
  show "f \<notin> set COMMON_EVENT_KEYS \<Longrightarrow> f \<notin> set (owned_keys role) \<Longrightarrow> \<not> owns (projectEvent role e) f"
    by (simp add: owns_def project_absent)
qed

lemma one_of_Some: "owns e f \<Longrightarrow> z_optional (is_one_of cs) (fld e f) \<Longrightarrow> \<exists>s. fld e f = Some (JStr s) \<and> s \<in> set cs"
  by (auto simp: owns_def z_optional_def split: option.splits elim: is_one_of.elims)

lemma projected_event_checked:
  assumes "COMMON_EVENT_SHAPE e" "owned_shape role e"
  shows "check_event role (pick EVENT_KEYS (projectEvent role e)) i =
    (if role = Close \<and> \<not> list_ex (owns e) CLOSE_OWNED
     then Inl (refused ''close writer must persist at least one close-owned field'') else Inr ())"
proof (cases role)
  case Company
  let ?e = "projectEvent role e"
  have "owns ?e ''r_proposal'' \<Longrightarrow> fld ?e ''r_proposal'' = Some (JStr ''R2'')"
    using assms one_of_Some [of e "''r_proposal''" "[''R2'']"] by (auto simp: Company project_owned owns_projected(1))
  moreover have "\<not> list_ex (owns ?e) COMPANY_FOREIGN"
    by (simp add: Company COMPANY_FOREIGN_def owns_projected(3) [OF assms(1)] COMMON_EVENT_KEYS_def)
  ultimately show ?thesis
    unfolding check_event_picked by (auto simp: check_event_def Company)
next
  case Industry
  let ?e = "projectEvent role e"
  have "owns ?e ''r_proposal'' \<Longrightarrow> \<exists>s. fld ?e ''r_proposal'' = Some (JStr s) \<and> s \<in> {''R0'', ''R1''}"
    using assms one_of_Some [of e "''r_proposal''" "[''R0'', ''R1'']"] by (auto simp: Industry project_owned owns_projected(1))
  moreover have "\<not> list_ex (owns ?e) INDUSTRY_FOREIGN"
    by (simp add: Industry INDUSTRY_FOREIGN_def owns_projected(3) [OF assms(1)] COMMON_EVENT_KEYS_def)
  ultimately show ?thesis
    unfolding check_event_picked by (auto simp: check_event_def Industry)
next
  case Close
  let ?e = "projectEvent role e"
  have p: "\<not> owns ?e ''r_proposal''" "\<not> list_ex (owns ?e) CLOSE_FOREIGN"
    by (simp_all add: Close CLOSE_FOREIGN_def owns_projected(3) [OF assms(1)] COMMON_EVENT_KEYS_def)
  have o: "list_ex (owns ?e) CLOSE_OWNED = list_ex (owns e) CLOSE_OWNED"
    by (simp add: Close CLOSE_OWNED_def owns_projected(1,2) [OF assms(1)])
  show ?thesis using p o unfolding check_event_picked by (simp add: check_event_def Close)
qed

lemma mapE_Inl_first:
  assumes "\<And>x i. x \<in> set xs \<Longrightarrow> f x i = (if P x then Inl e else Inr ())"
  shows "mapE_from k f xs = (if list_ex P xs then Inl e else Inr (map (\<lambda>_. ()) xs))"
  using assms
proof (induction xs arbitrary: k)
  case (Cons x xs)
  then show ?case by (auto simp: bindE_Inr)
qed simp

lemma command_roles:
  assumes c: "investmentCommandSchema lp strict role v = Some c" and d: "is_digest d"
  shows "validateRoleSemantics lp role (command_input role pv d (ec_as_of c) (ec_events c)) =
    (if role = Close \<and> list_ex (\<lambda>e. \<not> list_ex (owns e) CLOSE_OWNED) (ec_events c)
     then Inl (refused ''close writer must persist at least one close-owned field'') else Inr ())"
proof -
  let ?g = "\<lambda>e. pick EVENT_KEYS (projectEvent role e)"
  have m: "mapE_from k (check_event role) (map ?g es) = mapE_from k (\<lambda>e. check_event role (?g e)) es" for k es
    by (induction es arbitrary: k) simp_all
  have "mapE_from 0 (\<lambda>e. check_event role (?g e)) (ec_events c) =
      (if list_ex (\<lambda>e. role = Close \<and> \<not> list_ex (owns e) CLOSE_OWNED) (ec_events c)
       then Inl (refused ''close writer must persist at least one close-owned field'') else Inr (map (\<lambda>_. ()) (ec_events c)))"
    by (rule mapE_Inl_first) (simp add: projected_event_checked [OF parsed_events(1,2) [OF c]])
  moreover have "list_ex (\<lambda>e. role = Close \<and> \<not> list_ex (owns e) CLOSE_OWNED) es
      = (role = Close \<and> list_ex (\<lambda>e. \<not> list_ex (owns e) CLOSE_OWNED) es)" for es
    by (induction es) auto
  moreover obtain n where "date_parse lp (ec_as_of c) = Some n" using command_parts(3) [OF c] by blast
  moreover define B where "B \<longleftrightarrow> role = Close \<and> list_ex (\<lambda>e. \<not> list_ex (owns e) CLOSE_OWNED) (ec_events c)"
  ultimately show ?thesis
    using command_event_id_ok(1) [OF d, of role] unfolding B_def [symmetric]
    by (simp add: validateRoleSemantics_def command_input_def m Let_def) (auto simp: B_def)
qed

lemma role_channel: "roleForChannel (channel_of role) = Some role"
  by (cases role) simp_all

section \<open>Properties\<close>


definition same_content :: "jsobj \<Rightarrow> jsobj \<Rightarrow> bool" where
  "same_content e e' \<longleftrightarrow>
     set (texts_of e ''evidence_types'') = set (texts_of e' ''evidence_types'')
     \<and> set (texts_of e ''evidence_keys'') = set (texts_of e' ''evidence_keys'')
     \<and> texts_of e ''counter_evidence'' = texts_of e' ''counter_evidence''
     \<and> list_all (\<lambda>f. fld e f = fld e' f)
         [''symbol'', ''event_type'', ''confidence'', ''next_validation'', ''research_priority'', ''industry_thesis'',
          ''company_thesis'', ''company_validation'', ''r_proposal'', ''effective_r_state'', ''market_confirmation'',
          ''r4_candidate'', ''close_thesis_view'']"

lemma sorted_set_cong: "set xs = set ys \<Longrightarrow> sort (js_set xs) = sort (js_set ys)"
  by (metis distinct_js_set distinct_sort set_js_set set_sort sorted_distinct_set_unique sorted_sort)

lemma same_content_project:
  assumes "same_content e e'"
  shows "projectEvent role e = projectEvent role e'"
proof -
  have "commonEvent e = commonEvent e'"
    using assms sorted_set_cong [of "texts_of e ''evidence_keys''" "texts_of e' ''evidence_keys''"]
    by (simp add: same_content_def commonEvent_def normalizeEvidenceTypes_def normalizeEvidenceKeys_def value_of_def)
  moreover have "pick (owned_keys role) e = pick (owned_keys role) e'"
    by (rule pick_cong) (use assms in \<open>cases role; auto simp: same_content_def\<close>)
  ultimately show ?thesis by (simp add: projectEvent_def)
qed

text \<open>C11: the identity of a command is what it says, not when it says it: two commands of a channel
  whose events agree up to the order and the repetition of evidence types and keys get the same
  write key, payload hash and event id, whatever their timestamp, run and portfolio version.\<close>

theorem command_identity:
  assumes "buildInvestmentCommandBatch lp sha role command pv = Inr p"
    and "buildInvestmentCommandBatch lp sha role command' pv' = Inr p'"
    and "investmentCommandSchema lp False role command = Some c"
    and "investmentCommandSchema lp False role command' = Some c'"
    and "list_all2 same_content (ec_events c) (ec_events c')"
  shows "pb_write_key p' = pb_write_key p \<and> pb_payload_sha256 p' = pb_payload_sha256 p
    \<and> (\<exists>digest events. pb_batch p = command_batch role pv digest (ec_as_of c) events
        \<and> pb_batch p' = command_batch role pv' digest (ec_as_of c') events)"
proof -
  let ?es = "map (projectEvent role) (ec_events c)"
  let ?d = "sha256Hex sha (normalized_command role ?es)"
  have "?es = map (projectEvent role) (ec_events c')"
    using assms(5) by (induction rule: list_all2_induct) (simp_all add: same_content_project)
  then have "map (projectEvent role) (ec_events c') = map (projectEvent role) (ec_events c)" by simp
  then have p: "p = \<lparr>pb_batch = command_batch role pv ?d (ec_as_of c) ?es,
        pb_write_key = ''CMD:'' @ show_channel (channel_of role) @ '':'' @ ?d, pb_payload_sha256 = ?d, pb_run_id = ec_run_id c\<rparr>"
    "p' = \<lparr>pb_batch = command_batch role pv' ?d (ec_as_of c') ?es,
        pb_write_key = ''CMD:'' @ show_channel (channel_of role) @ '':'' @ ?d, pb_payload_sha256 = ?d, pb_run_id = ec_run_id c'\<rparr>"
    using assms(1-4) by (simp_all add: build_command Let_def)
  show ?thesis unfolding p by auto
qed

lemma canonical_fields:
  assumes "distinct (map fst ob)"
  shows "map_of (sort_key fst (map (\<lambda>(k, v). (k, f v)) ob)) k = map_option f (fld ob k)"
proof -
  let ?xs = "map (\<lambda>(k, v). (k, f v)) ob"
  have d: "distinct (map fst ?xs)" using assms by (simp add: comp_def case_prod_beta)
  moreover have "mset (map fst (sort_key fst ?xs)) = mset (map fst ?xs)" by (simp only: mset_map mset_sort)
  ultimately have "distinct (map fst (sort_key fst ?xs))" by (metis mset_eq_imp_distinct_iff)
  then have "map_of (sort_key fst ?xs) = map_of ?xs" using d by (simp only: map_of_inject_set) simp
  moreover have "map_of ?xs k = map_option f (fld ob k)" by (induction ob) auto
  ultimately show ?thesis by simp
qed

lemma json_equals_fields:
  assumes "json_equals (JObj a) (JObj b)" "distinct (map fst a)" "distinct (map fst b)"
  shows "map_option (\<lambda>v. json_image (canonicalize v)) (fld a k) = map_option (\<lambda>v. json_image (canonicalize v)) (fld b k)"
proof -
  let ?c = "\<lambda>v. json_image (canonicalize v)"
  have i: "map (\<lambda>(k, v). (k, json_image v)) (sort_key fst (map (\<lambda>(k, v). (k, canonicalize v)) ob))
      = sort_key fst (map (\<lambda>(k, v). (k, ?c v)) ob)" for ob
  proof -
    have "map (\<lambda>(k, v). (k, json_image v)) (map (\<lambda>(k, v). (k, canonicalize v)) ob) = map (\<lambda>(k, v). (k, ?c v)) ob"
      by auto
    then show ?thesis by (simp only: sort_key_map_values)
  qed
  have "sort_key fst (map (\<lambda>(k, v). (k, ?c v)) a) = sort_key fst (map (\<lambda>(k, v). (k, ?c v)) b)"
    using assms(1) unfolding json_equals_def canonicalize.simps json_image.simps i by (simp only: jsval.inject)
  then show ?thesis using canonical_fields [OF assms(2), of ?c k] canonical_fields [OF assms(3), of ?c k] by simp
qed

lemma other_batch_differs:
  assumes "bi_as_of a \<noteq> bi_as_of b \<or> bi_portfolio_version a \<noteq> bi_portfolio_version b"
  shows "\<not> batchEquals (sb_object (stored_of role a)) (enrichBatch role b)"
proof
  assume "batchEquals (sb_object (stored_of role a)) (enrichBatch role b)"
  then have e: "json_equals (JObj (sb_object (stored_of role a))) (JObj (enrichBatch role b))" by (simp add: batchEquals_def)
  have d: "distinct (map fst (sb_object (stored_of role a)))" "distinct (map fst (enrichBatch role b))"
    by (simp_all add: stored_of_def enrichBatch_object)
  show False
    using assms json_equals_fields [OF e d, of "''as_of''"] json_equals_fields [OF e d, of "''portfolio_version''"]
    by (auto simp: stored_of_def enrichBatch_object)
qed

lemma command_validated:
  assumes v: "validate_append lp lc sha fetch random token inp trace = (t1, Inr b)" and ch: "ai_channel inp = channel_of role"
    and i: "INVESTMENT_LEDGER_BATCH_INPUT_SCHEMA (ai_batch inp) = Some i"
  shows "vb_normalized b = Inr i" "validateRoleSemantics lp role i = Inr ()"
  using validate_append_cases(1) [OF v] role_channel [of role] ch i
  by (auto simp: validateStateBatch_def split: option.splits sum.splits)

lemma conflicting_event:
  assumes i: "INVESTMENT_LEDGER_BATCH_INPUT_SCHEMA (JObj (batch_object i)) = Some i" "validateRoleSemantics lp role i = Inr ()"
    "token \<noteq> ''''" "fetchAllComments fetch random t1 = (t2, Inr raw)"
    and c: "filter (same_event (bi_event_id i)) (validRoleComments lc raw role) = [c]"
      "comment_payload c = stored_of role j" "bi_as_of j \<noteq> bi_as_of i \<or> bi_portfolio_version j \<noteq> bi_portfolio_version i"
  shows "append_to_ledger lp lc fetch random token (channel_of role) (Inr i) t1 =
    (t2, Inl (Investment (LedgerError INVESTMENT_LEDGER_EVENT_ID_CONFLICT
      ''event_id already exists with different or duplicate content'' None)))"
  using append_batch_reaches [OF i, of lc] other_batch_differs [OF c(3)] c(1,2)
  by (simp add: append_to_ledger_def role_channel replay_decision_cases)

lemma schema_idem:
  assumes "INVESTMENT_LEDGER_EVENT_INPUT_SCHEMA v = Some e"
  shows "INVESTMENT_LEDGER_EVENT_INPUT_SCHEMA (JObj e) = Some e"
proof -
  obtain ob where z: "z_strict EVENT_KEYS (Some v) = Some ob" and e: "e = pick EVENT_KEYS ob"
    using assms unfolding event_schema_eq by (auto split: option.splits if_splits)
  have k: "list_all (\<lambda>(k, _). k \<in> set EVENT_KEYS) (pick EVENT_KEYS ob)"
    using keys_pick [of EVENT_KEYS ob] by (auto simp: list_all_iff)
  have f: "f \<in> set EVENT_KEYS \<Longrightarrow> fld (pick EVENT_KEYS ob) f = fld ob f" for f by (simp add: fld_pick)
  have m: "''research_priority'' \<in> set EVENT_KEYS" "''industry_thesis'' \<in> set EVENT_KEYS" "''company_thesis'' \<in> set EVENT_KEYS"
    "''company_validation'' \<in> set EVENT_KEYS" "''r_proposal'' \<in> set EVENT_KEYS" "''effective_r_state'' \<in> set EVENT_KEYS"
    "''market_confirmation'' \<in> set EVENT_KEYS" "''r4_candidate'' \<in> set EVENT_KEYS" "''close_thesis_view'' \<in> set EVENT_KEYS"
    by (simp_all add: EVENT_KEYS_def)
  have "z_strict EVENT_KEYS (Some (JObj (pick EVENT_KEYS ob))) = Some (pick EVENT_KEYS ob)" using k by (simp add: z_strict_def)
  then show ?thesis
    using assms z unfolding event_schema_eq e
    by (simp add: shape_pick [OF key_sets(1)] f [OF m(1)] f [OF m(2)] f [OF m(3)] f [OF m(4)] f [OF m(5)] f [OF m(6)]
        f [OF m(7)] f [OF m(8)] f [OF m(9)] pick_idem split: if_splits)
qed

lemma batch_schema_idem:
  assumes "INVESTMENT_LEDGER_BATCH_INPUT_SCHEMA v = Some i"
  shows "INVESTMENT_LEDGER_BATCH_INPUT_SCHEMA (JObj (batch_object i)) = Some i"
proof -
  obtain ob where z: "z_array 128 INVESTMENT_LEDGER_EVENT_INPUT_SCHEMA (fld ob ''events'') = Some (bi_events i)"
    and ne: "bi_events i \<noteq> []"
    and t: "z_text 1 512 (fld ob ''portfolio_version'') = Some (bi_portfolio_version i)"
      "z_text 1 512 (fld ob ''event_id'') = Some (bi_event_id i)" "z_text 1 128 (fld ob ''as_of'') = Some (bi_as_of i)"
    using assms by (auto simp: INVESTMENT_LEDGER_BATCH_INPUT_SCHEMA_def bind_eq_Some_conv filter_option_Some)
  have len: "length (bi_events i) \<le> 128" by (rule z_array_length [OF z])
  have "map (INVESTMENT_LEDGER_EVENT_INPUT_SCHEMA \<circ> JObj) (bi_events i) = map Some (bi_events i)"
    using array_items [OF z] schema_idem by (auto simp: comp_def)
  then have a: "z_array 128 INVESTMENT_LEDGER_EVENT_INPUT_SCHEMA (Some (JArr (map JObj (bi_events i)))) = Some (bi_events i)"
    using len by (simp add: z_array_def all_some_Some)
  have z2: "z_strict BATCH_KEYS (Some (JObj (batch_object i))) = Some (batch_object i)"
    by (simp add: z_strict_def batch_object_def BATCH_KEYS_def)
  have t2: "z_text 1 512 (Some (JStr (bi_portfolio_version i))) = Some (bi_portfolio_version i)"
    "z_text 1 512 (Some (JStr (bi_event_id i))) = Some (bi_event_id i)" "z_text 1 128 (Some (JStr (bi_as_of i))) = Some (bi_as_of i)"
    using t by (auto simp: z_text_Some simp del: One_nat_def)
  show ?thesis
    unfolding INVESTMENT_LEDGER_BATCH_INPUT_SCHEMA_def z2
    using a t2 ne by (simp add: batch_object_def z_enum_def filter_option_def del: One_nat_def)
qed

lemma unleased_granted:
  assumes ok: "receipts_ok t" and n: "date_parse lp (rv_now rv) = Some n" and x: "row_of t (rv_write_key rv) = Some x"
    and m: "wr_channel x = rv_channel rv" "wr_payload_sha256 x = rv_payload_sha256 rv"
    and s: "wr_status x \<in> {PENDING, OUTCOME_UNKNOWN, FAILED}" "wr_lease_owner x = None"
  shows "\<exists>u r. reserveStateWrite lp (Some t) rv = (Some u, Inr (True, r)) \<and> wr_status r = PENDING
    \<and> row_of u (rv_write_key rv) = Some r \<and> wr_lease_owner r = Some (rv_request_id rv)
    \<and> wr_lease_until r = Some (to_iso (n + lease_seconds rv * 1000))"
proof -
  have g: "grantable rv x" using m s by (auto simp: grantable_def lease_free_def)
  have o: "(case row_of t (rv_write_key rv) of None \<Rightarrow> new_receipt (rv_write_key rv) (rv_channel rv) (rv_payload_sha256 rv) (rv_now rv)
    | Some y \<Rightarrow> y) = x" by (simp add: x)
  obtain u r where u: "reserveStateWrite lp (Some t) rv = (Some u, Inr (grantable rv x, r))"
    and r: "row_of u (rv_write_key rv) = Some r"
      "r = x\<lparr>wr_status := PENDING, wr_attempt_count := wr_attempt_count x + 1, wr_lease_owner := Some (rv_request_id rv),
        wr_lease_until := Some (to_iso (n + lease_seconds rv * 1000)), wr_updated_at := rv_now rv\<rparr>"
    using reserve_cases [OF ok n, unfolded o] g by blast
  have f: "wr_status r = PENDING" "wr_lease_owner r = Some (rv_request_id rv)"
    "wr_lease_until r = Some (to_iso (n + lease_seconds rv * 1000))" by (simp_all add: r(2))
  show ?thesis by (intro exI [of _ u] exI [of _ r]) (use u g r(1) f in simp)
qed

lemma granted_append_outcome:
  assumes ok: "receipts_ok t" and n: "date_parse lp (ai_now inp) = Some n"
    and v: "validate_append lp lc sha fetch random token inp trace = (t1, Inr v)"
    and x: "row_of t (write_key_of inp v) = Some x" "wr_channel x = ai_channel inp" "wr_payload_sha256 x = payload_of inp v"
      "wr_status x \<in> {PENDING, OUTCOME_UNKNOWN, FAILED}" "wr_lease_owner x = None"
    and resp: "lease_respected (write_key_of inp v) (ai_request_id inp) (to_iso (n + 120000)) meanwhile"
    and a: "append_to_ledger lp lc fetch random token (ai_channel inp) (vb_normalized v) t1 = (t2, Inl e)"
  shows "\<exists>w row. appendStateBatch lp lc sha fetch random token meanwhile updatedAt inp (Some t) trace
      = (Some w, t2, Inl (Refused (mapDomainError e (ai_request_id inp))))
    \<and> row_of w (write_key_of inp v) = Some row
    \<and> wr_status row = failure_status (se_code (mapDomainError e (ai_request_id inp)))"
proof -
  let ?k = "write_key_of inp v" and ?h = "payload_of inp v"
  let ?rv = "reservation_of inp ?k ?h"
  have n': "date_parse lp (rv_now ?rv) = Some n" using n by simp
  have x': "row_of t (rv_write_key ?rv) = Some x" "wr_channel x = rv_channel ?rv" "wr_payload_sha256 x = rv_payload_sha256 ?rv"
    using x by simp_all
  obtain u r where u: "reserveStateWrite lp (Some t) ?rv = (Some u, Inr (True, r))" "wr_status r = PENDING"
    and r: "row_of u ?k = Some r" "wr_lease_owner r = Some (ai_request_id inp)" "wr_lease_until r = Some (to_iso (n + 120000))"
    using unleased_granted [OF ok n' x' x(4,5)] by auto
  obtain ss where ss: "receipt_run u ss (meanwhile u)" "list_all (foreign ?k (ai_request_id inp) (to_iso (n + 120000))) ss"
    using resp by (auto simp: lease_respected_def)
  have m: "row_of (meanwhile u) ?k = Some r" by (rule foreign_run_row [OF ss r])
  let ?s = "settle_append inp updatedAt ?k ?h (Some (meanwhile u)) (Inl e)"
  obtain w row where w: "?s = (Some w, snd ?s)" "row_of w ?k = Some row" "settled_as row (snd ?s)"
    using settle_append_row [OF m r(2), of updatedAt ?h "Inl e"] by blast
  have "snd ?s = Inl (Refused (mapDomainError e (ai_request_id inp)))"
    using finalize_unfold [OF m r(2)] by (simp add: settle_append_def settle_failure_def Let_def)
  moreover have "appendStateBatch lp lc sha fetch random token meanwhile updatedAt inp (Some t) trace = (Some w, t2, snd ?s)"
    by (rule append_reserved [OF v u(1) _ a]) (use u(2) w(1) in simp_all)
  ultimately show ?thesis using w by (auto simp: settled_as_def)
qed


section \<open>Facts: observations\<close>

definition observation_checkpoint :: "string \<Rightarrow> string \<Rightarrow> observation_command \<Rightarrow> checkpoint_state \<Rightarrow> checkpoint" where
  "observation_checkpoint portfolioVersion liveUniverseHash c state =
     (let premarket = (oc_scheduled_slot c = ''09:10'') in
      \<lparr>cp_schema_version = (if premarket then ''premarket_plan_batch_v1'' else ''market_observation_batch_v1''),
       cp_prompt_id = ''holding-assistant'', cp_production_ref = oc_production_ref c,
       cp_portfolio_version = portfolioVersion, cp_event_id = marketEventId (oc_trading_date c) (oc_scheduled_slot c),
       cp_idempotency_key = ''holding-assistant:'' @ oc_trading_date c @ '':'' @ oc_scheduled_slot c,
       cp_trading_date = oc_trading_date c, cp_as_of = oc_as_of c, cp_scheduled_slot = oc_scheduled_slot c,
       cp_producer = ''holding-assistant'', cp_observation_type = marketObservationType (oc_scheduled_slot c),
       cp_previous_checkpoint_comment_id =
         (if premarket then None else map_option comment_id (ms_previous_checkpoint state)),
       cp_preopen_comment_id = (if premarket then None else map_option comment_id (ms_preopen state)),
       cp_live_universe_hash = liveUniverseHash, cp_source_task = MARKET_SOURCE_TASK, cp_records = oc_records c,
       cp_universe_transition = None\<rparr>)"

definition links_ok :: "checkpoint_state \<Rightarrow> bool" where
  "links_ok st \<longleftrightarrow> id_ok 64 (map_option comment_id (ms_previous_checkpoint st))
     \<and> id_ok 64 (map_option comment_id (ms_preopen st))"

lemma observation_parts:
  assumes "MARKET_OBSERVATION_COMMAND_SCHEMA lp strict v = Some c"
  shows "is_day_text (oc_trading_date c)" "id_ok 128 (Some (oc_as_of c))" "date_parse lp (oc_as_of c) \<noteq> None"
    "oc_scheduled_slot c \<in> set MARKET_LEDGER_SLOTS" "is_commit (oc_production_ref c)" "records_ok (oc_records c)"
proof -
  obtain ob where ob: "filter_option is_day_text (as_string (fld ob ''trading_date'')) = Some (oc_trading_date c)"
    "AS_OF_SCHEMA lp (fld ob ''as_of'') = Some (oc_as_of c)"
    "z_enum MARKET_LEDGER_SLOTS (fld ob ''scheduled_slot'') = Some (oc_scheduled_slot c)"
    "filter_option is_commit (as_string (fld ob ''production_ref'')) = Some (oc_production_ref c)"
    "z_array 512 CHECKPOINT_RECORD_SCHEMA (fld ob ''records'') = Some (oc_records c)"
    using assms by (auto simp: MARKET_OBSERVATION_COMMAND_SCHEMA_def bind_eq_Some_conv)
  show "is_day_text (oc_trading_date c)" "id_ok 128 (Some (oc_as_of c))" "date_parse lp (oc_as_of c) \<noteq> None"
    "oc_scheduled_slot c \<in> set MARKET_LEDGER_SLOTS" "is_commit (oc_production_ref c)" "records_ok (oc_records c)"
    using ob by (auto simp: schema_simps AS_OF_SCHEMA_def id_ok_def simp del: One_nat_def)
qed

lemma slot_length: "slot \<in> set MARKET_LEDGER_SLOTS \<Longrightarrow> length slot = 5"
  by (auto simp: MARKET_LEDGER_SLOTS_def)

lemma observation_shape_ok:
  assumes c: "MARKET_OBSERVATION_COMMAND_SCHEMA lp strict v = Some c" and st: "links_ok st"
    and pv: "id_ok 512 (Some pv)" "id_ok 256 (Some hash)"
  shows "shape_ok (observation_checkpoint pv hash c st)"
proof -
  note p = observation_parts [OF c]
  have d: "length (oc_trading_date c) = 10" using p(1) by (simp add: is_day_text_def)
  have s: "length (oc_scheduled_slot c) = 5" by (rule slot_length [OF p(4)])
  have f: "length (filter (\<lambda>a. a \<noteq> CHR ''-'') (oc_trading_date c)) \<le> 10" using d by (metis length_filter_le)
  have r: "length (remove1 CHR '':'' (oc_scheduled_slot c)) \<le> 5" using s by (simp add: length_remove1)
  have e: "id_ok 512 (Some (marketEventId (oc_trading_date c) (oc_scheduled_slot c)))"
    using f r by (simp add: id_ok_def marketEventId_def)
  have k: "id_ok 256 (Some (''holding-assistant:'' @ oc_trading_date c @ '':'' @ oc_scheduled_slot c))"
    using d s by (simp add: id_ok_def)
  have o: "marketObservationType slot \<in> set OBSERVATION_TYPES" for slot
    by (simp add: marketObservationType_def OBSERVATION_TYPES_def)
  have t: "id_ok 128 (Some MARKET_SOURCE_TASK)" by (simp add: id_ok_def MARKET_SOURCE_TASK_def)
  have n: "id_ok 64 None" by (simp add: id_ok_def)
  show ?thesis
    using p e k o t n st pv by (simp add: shape_ok_def observation_checkpoint_def Let_def SCHEMA_VERSIONS_def links_ok_def)
qed

lemma observation_accepted:
  assumes c: "MARKET_OBSERVATION_COMMAND_SCHEMA lp strict v = Some c" and st: "links_ok st"
    and pv: "id_ok 512 (Some pv)" "id_ok 256 (Some hash)"
  shows "MARKET_CHECKPOINT_INPUT_SCHEMA (observation_batch pv hash c st) = Some (observation_checkpoint pv hash c st)"
    and "validateCheckpointRelations lp (observation_checkpoint pv hash c st) = Inr ()"
proof -
  let ?cp = "observation_checkpoint pv hash c st"
  obtain ob where ob: "observation_batch pv hash c st = JObj ob" and k: "map fst ob = BASE_KEYS" and s: "shape_fields ob ?cp"
    by (simp add: observation_batch_def observation_checkpoint_def Let_def BASE_KEYS_def shape_fields_def)
  have "z_strict BASE_KEYS (Some (JObj ob)) = Some ob" by (simp add: z_strict_def list_all_keys k)
  moreover have "MARKET_CHECKPOINT_BASE_SHAPE ob = Some ?cp"
    using s observation_shape_ok [OF assms] by (simp add: shape_iff) (simp add: observation_checkpoint_def Let_def)
  ultimately show "MARKET_CHECKPOINT_INPUT_SCHEMA (observation_batch pv hash c st) = Some ?cp"
    by (simp add: MARKET_CHECKPOINT_INPUT_SCHEMA_def ob)
  show "validateCheckpointRelations lp ?cp = Inr ()"
    using observation_parts(3) [OF c]
    by (auto simp: validateCheckpointRelations_def observation_checkpoint_def Let_def marketObservationType_def)
qed

lemma relations_transition:
  "validateCheckpointRelations lp (cp\<lparr>cp_universe_transition := t\<rparr>) = validateCheckpointRelations lp cp"
  by (simp add: validateCheckpointRelations_def)

lemma premarket_first:
  assumes "three_way lc"
  shows "ms_previous_checkpoint (buildState lp lc raw d ''09:10'') = None"
proof (rule ccontr)
  assume "ms_previous_checkpoint (buildState lp lc raw d ''09:10'') \<noteq> None"
  then obtain k where "ms_previous_checkpoint (buildState lp lc raw d ''09:10'') = Some k" by blast
  then have k: "k \<in> set (readable lp raw)" "slotIndex (snd (day_slot k)) < slotIndex ''09:10''"
    using previous_readable [OF assms] by blast+
  have "snd (day_slot k) \<in> set MARKET_LEDGER_SLOTS"
    using readable_facts(3) [OF k(1)] by (simp add: shape_ok_def day_slot_def)
  then have "0 \<le> slotIndex (snd (day_slot k))" by (auto simp: slotIndex_def MARKET_LEDGER_SLOTS_def)
  moreover have "slotIndex ''09:10'' = 0" by (simp add: slotIndex_def MARKET_LEDGER_SLOTS_def)
  ultimately show False using k(2) by simp
qed



section \<open>Witnesses\<close>

definition sample_event :: "jsval list \<Rightarrow> jsval" where
  "sample_event keys = JObj
     [(''symbol'', JStr ''CN:600000''), (''event_type'', JStr ''STATE_SET''), (''r_proposal'', JStr ''R1''),
      (''evidence_types'', JArr []), (''evidence_keys'', JArr keys), (''counter_evidence'', JArr []),
      (''confidence'', JInt 1), (''next_validation'', JNull)]"

definition sample_command :: "string \<Rightarrow> jsval list \<Rightarrow> jsval" where
  "sample_command asOf keys = JObj [(''as_of'', JStr asOf), (''events'', JArr [sample_event keys])]"

abbreviation first_stamp :: string where "first_stamp \<equiv> ''2026-01-05T02:15:00Z''"
abbreviation second_stamp :: string where "second_stamp \<equiv> ''2026-01-05T02:20:00Z''"

definition first_keys :: "jsval list" where "first_keys = [JStr ''k2'', JStr ''k1'', JStr ''k2'']"
definition second_keys :: "jsval list" where "second_keys = [JStr ''k1'', JStr ''k2'']"

definition sample_hash :: "jsval \<Rightarrow> string" where
  "sample_hash v = replicate 64 CHR ''a''"

definition first_command :: event_command where
  "first_command = the (investmentCommandSchema (\<lambda>_. None) False Industry (sample_command first_stamp first_keys))"

definition second_command :: event_command where
  "second_command = the (investmentCommandSchema (\<lambda>_. None) False Industry (sample_command second_stamp second_keys))"

lemma sample_commands:
  "investmentCommandSchema (\<lambda>_. None) False Industry (sample_command first_stamp first_keys) = Some first_command"
  "investmentCommandSchema (\<lambda>_. None) False Industry (sample_command second_stamp second_keys) = Some second_command"
  "list_all2 same_content (ec_events first_command) (ec_events second_command)"
  "ec_as_of second_command \<noteq> ec_as_of first_command"
  by code_simp+

lemma sample_digest: "length (sample_hash v) = 64 \<and> list_all is_hex_lower (sample_hash v)"
  "is_digest (sample_hash v)"
proof -
  show 1: "length (sample_hash v) = 64 \<and> list_all is_hex_lower (sample_hash v)" unfolding sample_hash_def by code_simp
  then show "is_digest (sample_hash v)" by (simp add: is_digest_def)
qed

lemma sample_built:
  "\<exists>p. buildInvestmentCommandBatch (\<lambda>_. None) sample_hash Industry (sample_command first_stamp first_keys) ''p1'' = Inr p
    \<and> pb_payload_sha256 p = sample_hash JNull"
  by (simp add: build_command sample_commands(1) Let_def sha256Hex_def sample_hash_def)


theorem command_identity_witness:
  "\<exists>p p'. buildInvestmentCommandBatch (\<lambda>_. None) sample_hash Industry (sample_command first_stamp first_keys) ''p1'' = Inr p
    \<and> buildInvestmentCommandBatch (\<lambda>_. None) sample_hash Industry (sample_command second_stamp second_keys) ''p2'' = Inr p'
    \<and> pb_write_key p' = pb_write_key p"
proof -
  obtain p p' where p: "buildInvestmentCommandBatch (\<lambda>_. None) sample_hash Industry (sample_command first_stamp first_keys) ''p1'' = Inr p"
    "buildInvestmentCommandBatch (\<lambda>_. None) sample_hash Industry (sample_command second_stamp second_keys) ''p2'' = Inr p'"
    by (auto simp: build_command sample_commands Let_def)
  then show ?thesis using command_identity [OF p sample_commands(1-3)] by blast
qed

definition first_input :: batch_input where
  "first_input = command_input Industry ''p1'' (sample_hash JNull) (ec_as_of first_command) (ec_events first_command)"

definition first_comment :: github_comment where
  "first_comment = stored_comment (JObj (enrichBatch Industry first_input)) ''7'' ''u'' ''t''"

definition unknown_row :: "string \<Rightarrow> write_receipt" where
  "unknown_row k = (new_receipt k INDUSTRY (sample_hash JNull) ''2026-01-05T10:00:00.000Z'')\<lparr>wr_status := OUTCOME_UNKNOWN\<rparr>"

definition retry_context :: append_context where
  "retry_context = \<lparr>ac_now = ''2026-01-05T10:00:00.000Z'', ac_request_id = ''r2'', ac_envelope_key = None, ac_event_count = None\<rparr>"

lemma first_comment_read:
  "\<exists>k. filter (same_event (command_event_id_of Industry (sample_hash JNull))) (validRoleComments cu_cmp [first_comment] Industry) = [k]
    \<and> comment_payload k = stored_of Industry first_input"
proof -
  have f: "\<not> has_fence (JObj (enrichBatch Industry first_input))" by code_simp
  have a: "INVESTMENT_LEDGER_BATCH_INPUT_SCHEMA (command_batch Industry ''p1'' (sample_hash JNull) (ec_as_of first_command)
      (map (projectEvent Industry) (ec_events first_command))) = Some first_input"
    unfolding first_input_def by (rule command_batch_accepted [OF sample_commands(1) sample_digest(2)]) simp_all
  have "parseExistingPayload (rendered_body (JObj (enrichBatch Industry first_input))) = Some (stored_of Industry first_input)"
    using posted_batch_read [OF a] f by (simp add: rendered_body_def)
  then have "toLedgerComment first_comment = Some \<lparr>comment_id = ''7'', comment_url = ''u'', created_at = ''t'',
      comment_payload = stored_of Industry first_input\<rparr>"
    unfolding toLedgerComment_def first_comment_def by (rule stored_comment_read) simp_all
  moreover have "fld (sb_object (stored_of Industry first_input)) ''producer'' = Some (JStr (rc_producer (roleConfig Industry)))"
    "same_event (command_event_id_of Industry (sample_hash JNull)) \<lparr>comment_id = ''7'', comment_url = ''u'', created_at = ''t'',
      comment_payload = stored_of Industry first_input\<rparr>"
    by code_simp+
  ultimately show ?thesis by (simp add: validRoleComments_def map_filter_def sort_by_def)
qed


definition sample_observation :: jsval where
  "sample_observation = JObj
     [(''trading_date'', JStr ''2026-01-05''), (''as_of'', JStr ''2026-01-05T01:10:00Z''), (''scheduled_slot'', JStr ''09:10''),
      (''production_ref'', JStr ''0123456789abcdef0123456789abcdef01234567''), (''records'', JArr [])]"

definition sample_observed :: observation_command where
  "sample_observed = the (MARKET_OBSERVATION_COMMAND_SCHEMA (\<lambda>_. None) False sample_observation)"


end
