(* ===== verification/Run_Envelope.thy ===== *)
theory Run_Envelope
  imports State_Commands
begin

text \<open>
  \<open>src/src/run-envelope.ts\<close>, with the table \<open>automation_runs_v3\<close> and \<open>computeTimeliness\<close> of
  \<open>src/src/automation-run-ledger.ts\<close>: one call registers a run of a task and appends what it says
  to the ledger of its channel. The table is the list of its rows; every SQL statement is one function
  on it, and other workers run statements between those of a call (\<open>others\<close>). The clock, the new run
  id and the owner context are inputs; the SHA-256 of a canonical value is the parameter \<open>sha\<close>.
\<close>

section \<open>The table\<close>

datatype run_outcome = COMPLETED | SILENT | BLOCKED | RUN_FAILED | UNKNOWN

record run_row =
  rr_task_name :: string
  rr_run_id :: string
  rr_envelope_key :: string
  rr_channel :: "write_channel option"
  rr_write_key :: "string option"
  rr_as_of :: "string option"
  rr_received_at :: string
  rr_slot :: "string option"
  rr_slot_date :: "string option"
  rr_fresh_delta_count :: "int option"
  rr_event_count :: "int option"
  rr_outcome :: run_outcome
  rr_blocker_code :: "string option"
  rr_summary :: "string option"
  rr_prompt_version :: "string option"
  rr_collector_build_sha :: "string option"
  rr_cloudflare_version_id :: "string option"
  rr_created_at :: string
  rr_updated_at :: string

type_synonym runs = "run_row list"

definition ensureRunEnvelopeTables :: "runs option \<Rightarrow> runs" where
  "ensureRunEnvelopeTables db = (case db of None \<Rightarrow> [] | Some t \<Rightarrow> t)"

definition readRunV3 :: "runs \<Rightarrow> string \<Rightarrow> string \<Rightarrow> run_row option" where
  "readRunV3 t task key = find (\<lambda>r. rr_task_name r = task \<and> rr_envelope_key r = key) t"

text \<open>\<open>INSERT ... ON CONFLICT(task_name, envelope_key) DO NOTHING\<close>: the rows after it and whether the
  row is new. The conflict target is checked first; a second row of the task with the run id violates
  the primary key, and the statement fails.\<close>

definition insert_run :: "run_row \<Rightarrow> runs \<Rightarrow> (runs \<times> bool) option" where
  "insert_run row t =
     (if readRunV3 t (rr_task_name row) (rr_envelope_key row) \<noteq> None then Some (t, False)
      else if list_ex (\<lambda>r. rr_task_name r = rr_task_name row \<and> rr_run_id r = rr_run_id row) t then None
      else Some (t @ [row], True))"

record run_update =
  ru_channel :: "write_channel option"
  ru_write_key :: "string option"
  ru_as_of :: "string option"
  ru_fresh_delta_count :: "int option"
  ru_event_count :: "int option"
  ru_outcome :: run_outcome
  ru_blocker_code :: "string option"
  ru_summary :: "string option"
  ru_collector_build_sha :: "string option"
  ru_cloudflare_version_id :: "string option"
  ru_updated_at :: string

definition coalesce :: "'a option \<Rightarrow> 'a option \<Rightarrow> 'a option" where
  "coalesce a b = (case a of None \<Rightarrow> b | Some x \<Rightarrow> Some x)"

definition set_run :: "run_update \<Rightarrow> run_row \<Rightarrow> run_row" where
  "set_run u r =
     r\<lparr>rr_channel := ru_channel u, rr_write_key := ru_write_key u, rr_as_of := ru_as_of u, rr_slot := None,
       rr_slot_date := None, rr_fresh_delta_count := ru_fresh_delta_count u, rr_event_count := ru_event_count u,
       rr_outcome := ru_outcome u, rr_blocker_code := ru_blocker_code u, rr_summary := ru_summary u,
       rr_collector_build_sha := coalesce (ru_collector_build_sha u) (rr_collector_build_sha r),
       rr_cloudflare_version_id := coalesce (ru_cloudflare_version_id u) (rr_cloudflare_version_id r),
       rr_updated_at := ru_updated_at u\<rparr>"

definition updateRunV3Row :: "string \<Rightarrow> string \<Rightarrow> run_update \<Rightarrow> runs \<Rightarrow> runs" where
  "updateRunV3Row task runId u t =
     map (\<lambda>r. if rr_task_name r = task \<and> rr_run_id r = runId \<and> rr_outcome r = UNKNOWN then set_run u r else r) t"

section \<open>The envelope\<close>

definition AUTOMATION_REGISTRY_KEYS :: "string list" where
  "AUTOMATION_REGISTRY_KEYS = [''holding-assistant-intraday'', ''holding-assistant-preclose'', ''industry-research'',
     ''company-facts'', ''central-policy'', ''ai-financing-rates'']"

definition READ_ONLY_TASKS :: "string list" where
  "READ_ONLY_TASKS = [''central-policy'', ''ai-financing-rates'']"

definition PRE_WRITE_BLOCKERS :: "string list" where
  "PRE_WRITE_BLOCKERS = [''PORTFOLIO_NOT_CONFIRMED'', ''DATA_UNAVAILABLE'', ''UPSTREAM_UNAVAILABLE'']"

datatype channel_payload =
    Investment_Payload ledger_role string "jsobj list"
  | Market_Payload string string string string "jsobj list"

record envelope =
  en_task_name :: string
  en_summary :: string
  en_blocked_by :: "string option"
  en_observations :: "int option"
  en_channel_payload :: "channel_payload option"

definition z_maybe :: "(jsval option \<Rightarrow> 'a option) \<Rightarrow> jsval option \<Rightarrow> 'a option option" where
  "z_maybe schema v = (case v of None \<Rightarrow> Some None | Some _ \<Rightarrow> map_option Some (schema v))"

definition OBSERVATIONS_SCHEMA :: "jsval option \<Rightarrow> int option" where
  "OBSERVATIONS_SCHEMA v =
     do { ob \<leftarrow> z_strict [''fresh_count''] v;
          q \<leftarrow> filter_option (\<lambda>q. is_integer q \<and> 0 \<le> q \<and> q \<le> 512) (as_finite (fld ob ''fresh_count''));
          Some \<lfloor>q\<rfloor> }"

definition INVESTMENT_MEMBER :: "(string \<Rightarrow> int option) \<Rightarrow> ledger_role \<Rightarrow> jsval option \<Rightarrow> channel_payload option" where
  "INVESTMENT_MEMBER lp role v =
     do { ob \<leftarrow> z_strict [''channel'', ''as_of'', ''events''] v;
          asOf \<leftarrow> AS_OF_SCHEMA lp (fld ob ''as_of'');
          events \<leftarrow> filter_option (\<lambda>es. es \<noteq> []) (z_array 128 (EVENT_COMMAND_SCHEMA True role) (fld ob ''events''));
          Some (Investment_Payload role asOf events) }"

definition MARKET_MEMBER :: "(string \<Rightarrow> int option) \<Rightarrow> jsval option \<Rightarrow> channel_payload option" where
  "MARKET_MEMBER lp v =
     do { ob \<leftarrow> z_strict [''channel'', ''trading_date'', ''as_of'', ''scheduled_slot'', ''production_ref'', ''records''] v;
          day \<leftarrow> filter_option is_day_text (as_string (fld ob ''trading_date''));
          asOf \<leftarrow> AS_OF_SCHEMA lp (fld ob ''as_of'');
          slot \<leftarrow> z_enum MARKET_LEDGER_SLOTS (fld ob ''scheduled_slot'');
          ref \<leftarrow> filter_option is_commit (as_string (fld ob ''production_ref''));
          records \<leftarrow> z_array 512 CHECKPOINT_RECORD_SCHEMA (fld ob ''records'');
          Some (Market_Payload day asOf slot ref records) }"

text \<open>\<open>z.discriminatedUnion("channel", ...)\<close>\<close>

definition CHANNEL_PAYLOAD_SCHEMA :: "(string \<Rightarrow> int option) \<Rightarrow> jsval option \<Rightarrow> channel_payload option" where
  "CHANNEL_PAYLOAD_SCHEMA lp v =
     do { x \<leftarrow> v;
          ob \<leftarrow> as_record x;
          channel \<leftarrow> as_string (fld ob ''channel'');
          (if channel = ''INDUSTRY'' then INVESTMENT_MEMBER lp Industry v
           else if channel = ''COMPANY'' then INVESTMENT_MEMBER lp Company v
           else if channel = ''CLOSE'' then INVESTMENT_MEMBER lp Close v
           else if channel = ''MARKET'' then MARKET_MEMBER lp v else None) }"

definition SUBMIT_RUN_ENVELOPE_INPUT_SCHEMA :: "(string \<Rightarrow> int option) \<Rightarrow> jsval \<Rightarrow> envelope option" where
  "SUBMIT_RUN_ENVELOPE_INPUT_SCHEMA lp v =
     do { ob \<leftarrow> z_strict [''task_name'', ''summary'', ''blocked_by'', ''observations'', ''channel_payload''] (Some v);
          task \<leftarrow> z_enum AUTOMATION_REGISTRY_KEYS (fld ob ''task_name'');
          summary \<leftarrow> z_text 1 1200 (fld ob ''summary'');
          blocked \<leftarrow> z_maybe (z_enum PRE_WRITE_BLOCKERS) (fld ob ''blocked_by'');
          observed \<leftarrow> z_maybe OBSERVATIONS_SCHEMA (fld ob ''observations'');
          payload \<leftarrow> z_maybe (CHANNEL_PAYLOAD_SCHEMA lp) (fld ob ''channel_payload'');
          Some \<lparr>en_task_name = task, en_summary = summary, en_blocked_by = blocked, en_observations = observed,
            en_channel_payload = payload\<rparr> }"

definition comboViolation :: "envelope \<Rightarrow> string option" where
  "comboViolation env =
     (if en_channel_payload env \<noteq> None \<and> (en_blocked_by env \<noteq> None \<or> en_observations env \<noteq> None)
      then Some ''blocked_by/observations are mutually exclusive with channel_payload''
      else if en_blocked_by env \<noteq> None \<and> en_observations env \<noteq> None
      then Some ''blocked_by is mutually exclusive with observations''
      else if en_observations env \<noteq> None \<and> en_task_name env \<notin> set READ_ONLY_TASKS
      then Some ''observations is restricted to READ_ONLY tasks (central-policy, ai-financing-rates)''
      else None)"

section \<open>Results\<close>

text \<open>Data age: 40 minutes back, 5 minutes ahead; an unreadable date is stale.\<close>

datatype timeliness = FRESH | STALE

definition computeTimeliness :: "(string \<Rightarrow> int option) \<Rightarrow> string option \<Rightarrow> int option \<Rightarrow> timeliness" where
  "computeTimeliness lp asOf receivedAtMs =
     (case asOf of
        None \<Rightarrow> FRESH
      | Some s \<Rightarrow>
          if s = '''' then FRESH
          else (case (date_parse lp s, receivedAtMs) of
             (Some asOfMs, Some now) \<Rightarrow>
               if now - asOfMs > 40 * 60 * 1000 \<or> - (now - asOfMs) > 5 * 60 * 1000 then STALE else FRESH
           | _ \<Rightarrow> STALE))"

record envelope_ledger =
  el_status :: "string option"
  el_channel :: "write_channel option"
  el_write_key :: "string option"
  el_comment_id :: "string option"
  el_url :: "string option"

record envelope_receipt =
  er_status :: string
  er_run_id :: string
  er_task_name :: string
  er_outcome :: run_outcome
  er_blocker_code :: "string option"
  er_envelope_key :: string
  er_slot :: "string option"
  er_slot_date :: "string option"
  er_ledger :: "envelope_ledger option"
  er_fresh_delta_count :: "int option"
  er_event_count :: "int option"
  er_notification_required :: bool
  er_timeliness :: timeliness

record run_error =
  re_error :: state_error
  re_run_id :: "string option"
  re_outcome :: "run_outcome option"
  re_envelope_key :: "string option"
  re_blocker_code :: "string option"

text \<open>What a call throws: the error of a run, a failure of its identity, or an exception.\<close>

datatype envelope_failure = Run_Error run_error | Unbuilt domain_error | Exception string

definition notifies :: "int option \<Rightarrow> bool" where
  "notifies fresh \<longleftrightarrow> (case fresh of None \<Rightarrow> 0 | Some n \<Rightarrow> n) > 0"

definition heartbeat_ledger :: "envelope_ledger" where
  "heartbeat_ledger = \<lparr>el_status = Some ''SKIPPED_HEARTBEAT'', el_channel = None, el_write_key = None,
     el_comment_id = None, el_url = None\<rparr>"

text \<open>An empty write key is no write key.\<close>

definition ledgerFromReceipt :: "run_row \<Rightarrow> write_receipt option \<Rightarrow> envelope_ledger option" where
  "ledgerFromReceipt row receipt =
     (if rr_write_key row = None \<or> rr_write_key row = Some '''' then
        (if rr_channel row = None \<and> take 3 (rr_envelope_key row) = ''HB:'' then Some heartbeat_ledger else None)
      else Some
        \<lparr>el_status = (case receipt of
             None \<Rightarrow> None
           | Some r \<Rightarrow> if wr_status r = PERSISTED then Some ''PERSISTED''
               else if wr_status r = IDEMPOTENT_REPLAY then Some ''IDEMPOTENT_REPLAY'' else None),
         el_channel = rr_channel row, el_write_key = rr_write_key row,
         el_comment_id = Option.bind receipt wr_comment_id, el_url = Option.bind receipt wr_comment_url\<rparr>)"

definition receiptFromRow :: "(string \<Rightarrow> int option) \<Rightarrow> receipt_db \<Rightarrow> run_row \<Rightarrow> envelope_receipt" where
  "receiptFromRow lp receipts row =
     (let receipt = (case rr_write_key row of
            None \<Rightarrow> None | Some k \<Rightarrow> if k = '''' then None else getStateWriteReceipt receipts k) in
      \<lparr>er_status = ''ENVELOPE_REPLAY'', er_run_id = rr_run_id row, er_task_name = rr_task_name row,
       er_outcome = rr_outcome row, er_blocker_code = rr_blocker_code row, er_envelope_key = rr_envelope_key row,
       er_slot = None, er_slot_date = None, er_ledger = ledgerFromReceipt row receipt,
       er_fresh_delta_count = rr_fresh_delta_count row, er_event_count = rr_event_count row,
       er_notification_required = notifies (rr_fresh_delta_count row),
       er_timeliness = computeTimeliness lp (rr_as_of row) (date_parse lp (rr_received_at row))\<rparr>)"

definition outcomeForGatewayError :: "state_error \<Rightarrow> run_outcome" where
  "outcomeForGatewayError e =
     (if se_retryable e then UNKNOWN
      else if se_code e = STATE_CONFLICT \<or> se_code e = STATE_CHAIN_MISMATCH then BLOCKED else RUN_FAILED)"

definition blocker_code_of :: "state_error \<Rightarrow> string" where
  "blocker_code_of e = show_code (se_code e) @ '':'' @ show_phase (se_phase e)"

text \<open>The request id of the cause is not handed on: the new error has one of its own.\<close>

definition runEnvelopeErrorFor :: "state_error \<Rightarrow> string \<Rightarrow> string \<Rightarrow> run_outcome \<Rightarrow> run_error" where
  "runEnvelopeErrorFor e runId key outcome =
     \<lparr>re_error = state_error_of (se_code e) (se_phase e) (se_message e) (se_retryable e) None (se_http_status e),
      re_run_id = Some runId, re_outcome = Some outcome, re_envelope_key = Some key,
      re_blocker_code = Some (blocker_code_of e)\<rparr>"

section \<open>A call\<close>

record owner_context =
  oc_portfolio_version :: string
  oc_live_universe_hash :: string

text \<open>The input of a call: the clock at its start, at its insert and at its update, the id a new run
  gets, and what the resolver of the owner context gives, when there is one.\<close>

record envelope_input =
  ei_envelope :: jsval
  ei_context :: "(domain_error + owner_context) option"
  ei_build_sha :: "string option"
  ei_version_id :: "string option"
  ei_now :: string
  ei_request_id :: string
  ei_new_run_id :: string
  ei_inserted_at :: string
  ei_updated_at :: string

text \<open>What other workers do before the insert, before the read that follows it, and while the append
  runs; and what they do to the receipts during the append.\<close>

record run_others =
  ro_before_insert :: "runs \<Rightarrow> runs"
  ro_before_read :: "runs \<Rightarrow> runs"
  ro_before_update :: "runs \<Rightarrow> runs"
  ro_receipts :: "receipts \<Rightarrow> receipts"

record envelope_state =
  es_runs :: "runs option"
  es_receipts :: receipt_db
  es_trace :: "request list"

definition new_run ::
  "envelope_input \<Rightarrow> string \<Rightarrow> string \<Rightarrow> string \<Rightarrow> run_outcome \<Rightarrow> string option \<Rightarrow> string option \<Rightarrow> string option \<Rightarrow> run_row" where
  "new_run inp task runId key outcome blocker summary promptVersion =
     \<lparr>rr_task_name = task, rr_run_id = runId, rr_envelope_key = key, rr_channel = None, rr_write_key = None,
      rr_as_of = None, rr_received_at = ei_now inp, rr_slot = None, rr_slot_date = None,
      rr_fresh_delta_count = None, rr_event_count = None, rr_outcome = outcome, rr_blocker_code = blocker,
      rr_summary = summary, rr_prompt_version = promptVersion, rr_collector_build_sha = ei_build_sha inp,
      rr_cloudflare_version_id = ei_version_id inp, rr_created_at = ei_inserted_at inp,
      rr_updated_at = ei_inserted_at inp\<rparr>"

definition invalid_envelope :: "string \<Rightarrow> string \<Rightarrow> state_error" where
  "invalid_envelope m requestId = state_error_of STATE_VALIDATION_FAILED VALIDATE m False (Some requestId) None"

definition invalid_blocker :: string where
  "invalid_blocker = ''STATE_VALIDATION_FAILED:VALIDATE''"

text \<open>\<open>insertInvalidRunRow\<close>, and what follows it: the row of an envelope that is refused for its form,
  which a retry replays.\<close>

definition reject_invalid ::
  "(string \<Rightarrow> int option) \<Rightarrow> (jsval \<Rightarrow> string) \<Rightarrow> run_others \<Rightarrow> envelope_input \<Rightarrow> string \<Rightarrow> string option \<Rightarrow> string
   \<Rightarrow> envelope_state \<Rightarrow> envelope_state \<times> (envelope_failure + envelope_receipt)" where
  "reject_invalid lp sha others inp task summary m s =
     (let t = ro_before_insert others (ensureRunEnvelopeTables (es_runs s));
          key = ''E:INVALID:'' @ sha256Hex sha (ei_envelope inp);
          failure = Run_Error \<lparr>re_error = invalid_envelope m (ei_request_id inp), re_run_id = None,
            re_outcome = Some RUN_FAILED, re_envelope_key = Some key, re_blocker_code = Some invalid_blocker\<rparr> in
      case insert_run (new_run inp task (ei_new_run_id inp) key RUN_FAILED (Some invalid_blocker) summary None) t of
        None \<Rightarrow> (s\<lparr>es_runs := Some t\<rparr>, Inl (Exception ''UNIQUE constraint failed''))
      | Some (t1, True) \<Rightarrow> (s\<lparr>es_runs := Some t1\<rparr>, Inl failure)
      | Some (t1, False) \<Rightarrow>
          (let t2 = ro_before_read others t1 in
           (s\<lparr>es_runs := Some t2\<rparr>,
            case readRunV3 t2 task key of
              None \<Rightarrow> Inl failure | Some row \<Rightarrow> Inr (receiptFromRow lp (es_receipts s) row))))"

text \<open>An envelope that does not fit the schema leaves a row only when it names a task.\<close>

definition raw_property :: "jsval \<Rightarrow> string \<Rightarrow> string option" where
  "raw_property v f = (case v of JObj ob \<Rightarrow> as_string (fld ob f) | _ \<Rightarrow> None)"

definition reject_malformed ::
  "(string \<Rightarrow> int option) \<Rightarrow> (jsval \<Rightarrow> string) \<Rightarrow> run_others \<Rightarrow> envelope_input
   \<Rightarrow> envelope_state \<Rightarrow> envelope_state \<times> (envelope_failure + envelope_receipt)" where
  "reject_malformed lp sha others inp s =
     (let m = ''run envelope does not match the submit_run_envelope schema'' in
      case filter_option (\<lambda>k. k \<in> set AUTOMATION_REGISTRY_KEYS) (raw_property (ei_envelope inp) ''task_name'') of
        None \<Rightarrow> (s, Inl (Run_Error \<lparr>re_error = invalid_envelope m (ei_request_id inp), re_run_id = None,
          re_outcome = None, re_envelope_key = None, re_blocker_code = None\<rparr>))
      | Some task \<Rightarrow>
          reject_invalid lp sha others inp task (map_option (take 1200) (raw_property (ei_envelope inp) ''summary'')) m s)"

section \<open>Identity\<close>

definition hour_of :: "int \<Rightarrow> string" where
  "hour_of t = take 13 (to_iso t)"

definition payload_channel :: "channel_payload \<Rightarrow> write_channel" where
  "payload_channel p = (case p of Investment_Payload role _ _ \<Rightarrow> channel_of role | Market_Payload _ _ _ _ _ \<Rightarrow> MARKET)"

definition payload_as_of :: "channel_payload \<Rightarrow> string" where
  "payload_as_of p = (case p of Investment_Payload _ asOf _ \<Rightarrow> asOf | Market_Payload _ asOf _ _ _ \<Rightarrow> asOf)"

definition payload_count :: "channel_payload \<Rightarrow> int" where
  "payload_count p = (case p of Investment_Payload _ _ es \<Rightarrow> int (length es) | Market_Payload _ _ _ _ rs \<Rightarrow> int (length rs))"

definition investment_command :: "string \<Rightarrow> jsobj list \<Rightarrow> jsval" where
  "investment_command asOf events = JObj [(''as_of'', JStr asOf), (''events'', JArr (map JObj events))]"

definition market_command :: "string \<Rightarrow> string \<Rightarrow> string \<Rightarrow> string \<Rightarrow> jsobj list \<Rightarrow> jsval" where
  "market_command day asOf slot ref records = JObj
     [(''trading_date'', JStr day), (''as_of'', JStr asOf), (''scheduled_slot'', JStr slot),
      (''production_ref'', JStr ref), (''records'', JArr (map JObj records))]"

definition market_identity :: "string \<Rightarrow> string \<Rightarrow> string \<Rightarrow> jsobj list \<Rightarrow> jsval" where
  "market_identity day slot ref records = JObj
     [(''trading_date'', JStr day), (''scheduled_slot'', JStr slot), (''production_ref'', JStr ref),
      (''records'', JArr (map JObj records))]"

text \<open>A bare run has the hour it came in; \<open>toISOString\<close> of an invalid date throws.\<close>

definition hourly_key :: "(string \<Rightarrow> int option) \<Rightarrow> string \<Rightarrow> string \<Rightarrow> envelope_failure + string" where
  "hourly_key lp prefix now =
     (case date_parse lp now of None \<Rightarrow> Inl (Exception ''Invalid time value'') | Some t \<Rightarrow> Inr (prefix @ hour_of t))"

definition envelope_identity ::
  "(string \<Rightarrow> int option) \<Rightarrow> (jsval \<Rightarrow> string) \<Rightarrow> string \<Rightarrow> envelope \<Rightarrow> envelope_failure + string" where
  "envelope_identity lp sha now env =
     (case en_blocked_by env of
        Some b \<Rightarrow> hourly_key lp (''BL:'' @ b @ '':'') now
      | None \<Rightarrow>
     (case en_observations env of
        Some n \<Rightarrow> hourly_key lp (''OB:'' @ show_int n @ '':'') now
      | None \<Rightarrow>
     (case en_channel_payload env of
        None \<Rightarrow> hourly_key lp ''HB:'' now
      | Some (Market_Payload day asOf slot ref records) \<Rightarrow>
          Inr (''E:MARKET:'' @ sha256Hex sha (market_identity day slot ref records))
      | Some (Investment_Payload role asOf events) \<Rightarrow>
          (case buildInvestmentCommandBatch lp sha role (investment_command asOf events) ''envelope-key-derivation'' of
             Inl e \<Rightarrow> Inl (Unbuilt e)
           | Inr p \<Rightarrow> Inr (''E:'' @ show_channel (channel_of role) @ '':'' @ pb_payload_sha256 p)))))"

section \<open>Reservation\<close>

datatype reserved_run = Replay run_row | Reserved string | Unreserved string

definition prompt_version_of :: "envelope \<Rightarrow> string option" where
  "prompt_version_of env =
     (case en_channel_payload env of Some (Market_Payload _ _ _ ref _) \<Rightarrow> Some ref | _ \<Rightarrow> None)"

text \<open>A recorded run is replayed; otherwise the row is inserted as UNKNOWN, and who loses the race for it
  replays the winner's result or adopts its row.\<close>

definition reserve_run ::
  "run_others \<Rightarrow> envelope_input \<Rightarrow> envelope \<Rightarrow> string \<Rightarrow> runs \<Rightarrow> runs \<times> reserved_run" where
  "reserve_run others inp env key t =
     (let task = en_task_name env;
          existing = filter_option (\<lambda>r. rr_outcome r \<noteq> UNKNOWN) (readRunV3 t task key);
          runId = (case readRunV3 t task key of None \<Rightarrow> ei_new_run_id inp | Some r \<Rightarrow> rr_run_id r) in
      case existing of
        Some r \<Rightarrow> (t, Replay r)
      | None \<Rightarrow>
      (let t1 = ro_before_insert others t in
       case insert_run (new_run inp task runId key UNKNOWN None None (prompt_version_of env)) t1 of
         None \<Rightarrow> (t1, Unreserved runId)
       | Some (t2, True) \<Rightarrow> (t2, Reserved runId)
       | Some (t2, False) \<Rightarrow>
           (let t3 = ro_before_read others t2 in
            (t3, case readRunV3 t3 task key of
                   None \<Rightarrow> Unreserved runId
                 | Some winner \<Rightarrow> if rr_outcome winner \<noteq> UNKNOWN then Replay winner else Reserved (rr_run_id winner)))))"

section \<open>Execution\<close>

datatype ledger_outcome =
    Heartbeat | Pre_Write_Block string | Observed int | Executed gateway_result | Errored state_error "int option"

definition unclassified :: "string \<Rightarrow> state_error" where
  "unclassified requestId = state_error_of STATE_OUTCOME_UNKNOWN WRITE
     ''run envelope execution failed with an unclassified error'' True (Some requestId) None"

text \<open>An error of the gateway is kept; every other exception is unclassified.\<close>

definition classified :: "string \<Rightarrow> domain_error \<Rightarrow> state_error" where
  "classified requestId e = (case e of Gateway g \<Rightarrow> g | _ \<Rightarrow> unclassified requestId)"

definition classified_append :: "string \<Rightarrow> command_failure \<Rightarrow> state_error" where
  "classified_append requestId f =
     (case f of NotBuilt e \<Rightarrow> classified requestId e | NotAppended (Refused e) \<Rightarrow> e
      | NotAppended (Crashed _) \<Rightarrow> unclassified requestId)"

definition append_payload ::
  "(string \<Rightarrow> int option) \<Rightarrow> (string \<Rightarrow> string \<Rightarrow> int) \<Rightarrow> (jsval \<Rightarrow> string) \<Rightarrow> github \<Rightarrow> (nat \<Rightarrow> rat) \<Rightarrow> string \<Rightarrow> run_others
   \<Rightarrow> envelope_input \<Rightarrow> string \<Rightarrow> channel_payload \<Rightarrow> owner_context \<Rightarrow> receipt_db \<Rightarrow> request list
   \<Rightarrow> receipt_db \<times> request list \<times> (command_failure + gateway_result \<times> string option)" where
  "append_payload lp lc sha fetch random token others inp key p ctx db trace =
     (let c = \<lparr>ac_now = ei_now inp, ac_request_id = ei_request_id inp, ac_envelope_key = Some key,
                ac_event_count = Some (payload_count p)\<rparr> in
      case p of
        Market_Payload day asOf slot ref records \<Rightarrow>
          appendMarketObservation lp lc sha fetch random token (ro_receipts others) (ei_updated_at inp)
            (market_command day asOf slot ref records) (oc_portfolio_version ctx) (oc_live_universe_hash ctx) c db trace
      | Investment_Payload role asOf events \<Rightarrow>
          appendInvestmentCommand lp lc sha fetch random token (ro_receipts others) (ei_updated_at inp) role
            (investment_command asOf events) (oc_portfolio_version ctx) c db trace)"

definition execute_envelope ::
  "(string \<Rightarrow> int option) \<Rightarrow> (string \<Rightarrow> string \<Rightarrow> int) \<Rightarrow> (jsval \<Rightarrow> string) \<Rightarrow> github \<Rightarrow> (nat \<Rightarrow> rat) \<Rightarrow> string \<Rightarrow> run_others
   \<Rightarrow> envelope_input \<Rightarrow> envelope \<Rightarrow> string \<Rightarrow> receipt_db \<Rightarrow> request list \<Rightarrow> receipt_db \<times> request list \<times> ledger_outcome" where
  "execute_envelope lp lc sha fetch random token others inp env key db trace =
     (case en_blocked_by env of
        Some b \<Rightarrow> (db, trace, Pre_Write_Block b)
      | None \<Rightarrow>
     (case en_observations env of
        Some n \<Rightarrow> (db, trace, Observed n)
      | None \<Rightarrow>
     (case en_channel_payload env of
        None \<Rightarrow> (db, trace, Heartbeat)
      | Some p \<Rightarrow>
     (case ei_context inp of
        None \<Rightarrow> (db, trace, Errored (state_error_of STATE_UNAVAILABLE READ
          ''LIVE universe context resolver is not configured'' True None None) None)
      | Some (Inl e) \<Rightarrow> (db, trace, Errored (classified (ei_request_id inp) e) None)
      | Some (Inr ctx) \<Rightarrow>
          (case append_payload lp lc sha fetch random token others inp key p ctx db trace of
             (db', t', Inl f) \<Rightarrow> (db', t', Errored (classified_append (ei_request_id inp) f) (Some (payload_count p)))
           | (db', t', Inr (g, _)) \<Rightarrow> (db', t', Executed g))))))"

section \<open>Outcome\<close>

text \<open>The terminal fields of a run and the ledger part of its receipt.\<close>

record terminal =
  tm_outcome :: run_outcome
  tm_fresh_delta_count :: "int option"
  tm_event_count :: "int option"
  tm_write_key :: "string option"
  tm_comment_id :: "string option"
  tm_url :: "string option"
  tm_ledger_status :: "string option"
  tm_blocker_code :: "string option"

definition derive_terminal :: "envelope \<Rightarrow> ledger_outcome \<Rightarrow> terminal" where
  "derive_terminal env outcome =
     (let bare = (\<lambda>o' fresh status blocker. \<lparr>tm_outcome = o', tm_fresh_delta_count = Some fresh, tm_event_count = Some 0,
            tm_write_key = None, tm_comment_id = None, tm_url = None, tm_ledger_status = status, tm_blocker_code = blocker\<rparr>) in
      case outcome of
        Pre_Write_Block b \<Rightarrow> bare BLOCKED 0 None (Some (''PRE_WRITE:'' @ b))
      | Observed n \<Rightarrow> bare SILENT n None None
      | Heartbeat \<Rightarrow> bare SILENT 0 (Some ''SKIPPED_HEARTBEAT'') None
      | Executed g \<Rightarrow>
          (let persisted = (gr_status g = ''PERSISTED'') in
           \<lparr>tm_outcome = (if persisted then COMPLETED else SILENT),
            tm_fresh_delta_count = Some (if persisted then 1 else 0),
            tm_event_count = map_option payload_count (en_channel_payload env),
            tm_write_key = Some (gr_write_key g), tm_comment_id = Some (gr_comment_id g), tm_url = Some (gr_url g),
            tm_ledger_status = Some (if persisted then ''PERSISTED'' else ''IDEMPOTENT_REPLAY''), tm_blocker_code = None\<rparr>)
      | Errored e eventCount \<Rightarrow>
           \<lparr>tm_outcome = outcomeForGatewayError e, tm_fresh_delta_count = None, tm_event_count = eventCount,
            tm_write_key = None, tm_comment_id = None, tm_url = None, tm_ledger_status = None,
            tm_blocker_code = Some (blocker_code_of e)\<rparr>)"

definition update_of :: "envelope_input \<Rightarrow> envelope \<Rightarrow> terminal \<Rightarrow> run_update" where
  "update_of inp env tm =
     \<lparr>ru_channel = map_option payload_channel (en_channel_payload env), ru_write_key = tm_write_key tm,
      ru_as_of = map_option payload_as_of (en_channel_payload env), ru_fresh_delta_count = tm_fresh_delta_count tm,
      ru_event_count = tm_event_count tm, ru_outcome = tm_outcome tm, ru_blocker_code = tm_blocker_code tm,
      ru_summary = Some (en_summary env), ru_collector_build_sha = ei_build_sha inp,
      ru_cloudflare_version_id = ei_version_id inp, ru_updated_at = ei_updated_at inp\<rparr>"

definition recorded_receipt ::
  "(string \<Rightarrow> int option) \<Rightarrow> envelope_input \<Rightarrow> envelope \<Rightarrow> string \<Rightarrow> string \<Rightarrow> terminal \<Rightarrow> envelope_receipt" where
  "recorded_receipt lp inp env key runId tm =
     \<lparr>er_status = ''ENVELOPE_RECORDED'', er_run_id = runId, er_task_name = en_task_name env,
      er_outcome = tm_outcome tm, er_blocker_code = tm_blocker_code tm, er_envelope_key = key,
      er_slot = None, er_slot_date = None,
      er_ledger = Some \<lparr>el_status = tm_ledger_status tm,
        el_channel = map_option payload_channel (en_channel_payload env), el_write_key = tm_write_key tm,
        el_comment_id = tm_comment_id tm, el_url = tm_url tm\<rparr>,
      er_fresh_delta_count = tm_fresh_delta_count tm, er_event_count = tm_event_count tm,
      er_notification_required = notifies (tm_fresh_delta_count tm),
      er_timeliness = computeTimeliness lp (map_option payload_as_of (en_channel_payload env)) (date_parse lp (ei_now inp))\<rparr>"

definition run_reserved ::
  "(string \<Rightarrow> int option) \<Rightarrow> (string \<Rightarrow> string \<Rightarrow> int) \<Rightarrow> (jsval \<Rightarrow> string) \<Rightarrow> github \<Rightarrow> (nat \<Rightarrow> rat) \<Rightarrow> string \<Rightarrow> run_others
   \<Rightarrow> envelope_input \<Rightarrow> envelope \<Rightarrow> string \<Rightarrow> string \<Rightarrow> runs \<Rightarrow> envelope_state
   \<Rightarrow> envelope_state \<times> (envelope_failure + envelope_receipt)" where
  "run_reserved lp lc sha fetch random token others inp env key runId t s =
     (case execute_envelope lp lc sha fetch random token others inp env key (es_receipts s) (es_trace s) of
        (db, trace, outcome) \<Rightarrow>
          (let tm = derive_terminal env outcome;
               t' = updateRunV3Row (en_task_name env) runId (update_of inp env tm) (ro_before_update others t);
               s' = \<lparr>es_runs = Some t', es_receipts = db, es_trace = trace\<rparr> in
           case outcome of
             Errored e _ \<Rightarrow> (s', Inl (Run_Error (runEnvelopeErrorFor e runId key (tm_outcome tm))))
           | _ \<Rightarrow> (s', Inr (recorded_receipt lp inp env key runId tm))))"

definition processRunEnvelope ::
  "(string \<Rightarrow> int option) \<Rightarrow> (string \<Rightarrow> string \<Rightarrow> int) \<Rightarrow> (jsval \<Rightarrow> string) \<Rightarrow> github \<Rightarrow> (nat \<Rightarrow> rat) \<Rightarrow> string \<Rightarrow> run_others
   \<Rightarrow> envelope_input \<Rightarrow> envelope_state \<Rightarrow> envelope_state \<times> (envelope_failure + envelope_receipt)" where
  "processRunEnvelope lp lc sha fetch random token others inp s =
     (case SUBMIT_RUN_ENVELOPE_INPUT_SCHEMA lp (ei_envelope inp) of
        None \<Rightarrow> reject_malformed lp sha others inp s
      | Some env \<Rightarrow>
      (case comboViolation env of
        Some m \<Rightarrow> reject_invalid lp sha others inp (en_task_name env) (Some (en_summary env))
          (''run envelope field combination rejected: '' @ m) s
      | None \<Rightarrow>
      (let t = ensureRunEnvelopeTables (es_runs s) in
       case envelope_identity lp sha (ei_now inp) env of
         Inl e \<Rightarrow> (s\<lparr>es_runs := Some t\<rparr>, Inl e)
       | Inr key \<Rightarrow>
       (case reserve_run others inp env key t of
          (t', Replay row) \<Rightarrow> (s\<lparr>es_runs := Some t'\<rparr>, Inr (receiptFromRow lp (es_receipts s) row))
        | (t', Unreserved runId) \<Rightarrow> (s\<lparr>es_runs := Some t'\<rparr>, Inl (Run_Error
            \<lparr>re_error = state_error_of STATE_UNAVAILABLE WRITE ''run envelope row could not be reserved'' True
               (Some (ei_request_id inp)) None,
             re_run_id = Some runId, re_outcome = None, re_envelope_key = Some key, re_blocker_code = None\<rparr>))
        | (t', Reserved runId) \<Rightarrow> run_reserved lp lc sha fetch random token others inp env key runId t' s))))"

section \<open>Interleaved statements\<close>

datatype run_statement = Insert_Run run_row | Update_Run string string run_update

text \<open>A statement that violates the primary key changes nothing.\<close>

inductive run_step :: "runs \<Rightarrow> run_statement \<Rightarrow> runs \<Rightarrow> bool" where
  inserted: "insert_run row t = Some (u, new) \<Longrightarrow> run_step t (Insert_Run row) u"
| violated: "insert_run row t = None \<Longrightarrow> run_step t (Insert_Run row) t"
| updated: "run_step t (Update_Run task runId u) (updateRunV3Row task runId u t)"

inductive run_steps :: "runs \<Rightarrow> run_statement list \<Rightarrow> runs \<Rightarrow> bool" where
  steps_nil: "run_steps t [] t"
| steps_cons: "run_step t s u \<Longrightarrow> run_steps u ss v \<Longrightarrow> run_steps t (s # ss) v"

inductive_cases insert_runE: "run_step t (Insert_Run row) u"
inductive_cases update_runE: "run_step t (Update_Run task runId w) u"

definition others_run :: "run_others \<Rightarrow> bool" where
  "others_run others \<longleftrightarrow> (\<forall>t. (\<exists>ss. run_steps t ss (ro_before_insert others t)) \<and> (\<exists>ss. run_steps t ss (ro_before_read others t))
     \<and> (\<exists>ss. run_steps t ss (ro_before_update others t)))"

section \<open>Facts: the table\<close>

definition run_key :: "run_row \<Rightarrow> string \<times> string" where "run_key r = (rr_task_name r, rr_envelope_key r)"
definition run_ident :: "run_row \<Rightarrow> string \<times> string" where "run_ident r = (rr_task_name r, rr_run_id r)"

text \<open>The primary key and the unique index.\<close>

definition runs_ok :: "runs \<Rightarrow> bool" where
  "runs_ok t \<longleftrightarrow> distinct (map run_key t) \<and> distinct (map run_ident t)"

lemma read_Some: "readRunV3 t task key = Some r \<Longrightarrow> r \<in> set t \<and> rr_task_name r = task \<and> rr_envelope_key r = key"
  by (auto simp: readRunV3_def find_Some_iff)

lemma read_None: "readRunV3 t task key = None \<longleftrightarrow> (task, key) \<notin> run_key ` set t"
  by (auto simp: readRunV3_def find_None_iff run_key_def)

lemma read_unique: "distinct (map run_key t) \<Longrightarrow> r \<in> set t \<Longrightarrow> readRunV3 t (rr_task_name r) (rr_envelope_key r) = Some r"
  by (induction t) (auto simp: readRunV3_def run_key_def)

lemma set_run_same [simp]: "run_key (set_run u r) = run_key r" "run_ident (set_run u r) = run_ident r"
  "rr_task_name (set_run u r) = rr_task_name r" "rr_envelope_key (set_run u r) = rr_envelope_key r"
  "rr_run_id (set_run u r) = rr_run_id r"
  by (simp_all add: set_run_def run_key_def run_ident_def)

lemma update_keys: "map run_key (updateRunV3Row task i u t) = map run_key t" "map run_ident (updateRunV3Row task i u t) = map run_ident t"
  by (simp_all add: updateRunV3Row_def)

lemma read_update:
  "readRunV3 (updateRunV3Row task i u t) task' key =
     map_option (\<lambda>r. if rr_task_name r = task \<and> rr_run_id r = i \<and> rr_outcome r = UNKNOWN then set_run u r else r)
       (readRunV3 t task' key)"
  by (induction t) (auto simp: updateRunV3Row_def readRunV3_def)

lemma read_append: "readRunV3 (t @ [row]) task key =
    (case readRunV3 t task key of Some r \<Rightarrow> Some r
     | None \<Rightarrow> if rr_task_name row = task \<and> rr_envelope_key row = key then Some row else None)"
  by (induction t) (auto simp: readRunV3_def)

lemma ident_taken:
  "list_ex (\<lambda>r. rr_task_name r = rr_task_name row \<and> rr_run_id r = rr_run_id row) t \<longleftrightarrow> run_ident row \<in> run_ident ` set t"
  by (induction t) (auto simp: run_ident_def)

lemma insert_cases:
  assumes "insert_run row t = Some (u, new)"
  obtains (kept) r where "u = t" "\<not> new" "readRunV3 t (rr_task_name row) (rr_envelope_key row) = Some r"
  | (added) "u = t @ [row]" "new" "readRunV3 t (rr_task_name row) (rr_envelope_key row) = None"
      "run_ident row \<notin> run_ident ` set t"
  using assms by (cases "readRunV3 t (rr_task_name row) (rr_envelope_key row)")
    (auto simp: insert_run_def ident_taken split: if_splits)

lemma insert_ok: "runs_ok t \<Longrightarrow> insert_run row t = Some (u, new) \<Longrightarrow> runs_ok u"
  by (erule insert_cases) (auto simp: runs_ok_def read_None run_key_def)

lemma step_facts:
  assumes "run_step t s u" "runs_ok t"
  shows "runs_ok u" "readRunV3 t task key = Some r \<Longrightarrow> \<exists>r'. readRunV3 u task key = Some r' \<and> rr_run_id r' = rr_run_id r
    \<and> (rr_outcome r \<noteq> UNKNOWN \<longrightarrow> r' = r)"
  using assms
proof (induction rule: run_step.induct)
  case (inserted row t u new)
  { case 1 then show ?case using insert_ok inserted by blast }
  { case 2 from inserted show ?case by (rule insert_cases) (use 2 in \<open>auto simp: read_append\<close>) }
next
  case (violated row t)
  { case 1 then show ?case by simp }
  { case 2 then show ?case by simp }
next
  case (updated t task' i u)
  { case 1 then show ?case by (simp add: runs_ok_def update_keys) }
  { case 2 then show ?case by (simp add: read_update) }
qed

lemma steps_facts:
  assumes "run_steps t ss u" "runs_ok t"
  shows "runs_ok u \<and> (\<forall>r. readRunV3 t task key = Some r \<longrightarrow> (\<exists>r'. readRunV3 u task key = Some r' \<and> rr_run_id r' = rr_run_id r
    \<and> (rr_outcome r \<noteq> UNKNOWN \<longrightarrow> r' = r)))"
  using assms
proof (induction rule: run_steps.induct)
  case (steps_cons t s u ss v)
  note a = step_facts(1) [OF steps_cons(1,4)]
  show ?case
  proof (intro conjI allI impI)
    show "runs_ok v" using steps_cons.IH a by blast
    fix r assume "readRunV3 t task key = Some r"
    then obtain r' where r': "readRunV3 u task key = Some r'" "rr_run_id r' = rr_run_id r" "rr_outcome r \<noteq> UNKNOWN \<longrightarrow> r' = r"
      using step_facts(2) [OF steps_cons(1,4)] by blast
    then obtain r'' where "readRunV3 v task key = Some r''" "rr_run_id r'' = rr_run_id r'" "rr_outcome r' \<noteq> UNKNOWN \<longrightarrow> r'' = r'"
      using steps_cons.IH a by blast
    then show "\<exists>r'. readRunV3 v task key = Some r' \<and> rr_run_id r' = rr_run_id r \<and> (rr_outcome r \<noteq> UNKNOWN \<longrightarrow> r' = r)"
      using r' by auto
  qed
qed simp

lemmas steps_ok = steps_facts [THEN conjunct1]

text \<open>C21: whatever statements the workers run, in whatever order, a task has at most one row for an
  envelope and for a run id, the row of an envelope keeps its run id, and a run whose outcome is no
  longer UNKNOWN never changes again.\<close>

theorem recorded_run_final:
  assumes "run_steps t ss u" "runs_ok t" "readRunV3 t task key = Some r"
  shows "runs_ok u \<and> (\<exists>r'. readRunV3 u task key = Some r' \<and> rr_run_id r' = rr_run_id r \<and> (rr_outcome r \<noteq> UNKNOWN \<longrightarrow> r' = r))"
  using steps_facts [OF assms(1,2), of task key] assms(3) by blast

section \<open>Facts: reservation and replay\<close>

lemma others_ok:
  assumes "others_run others" "runs_ok t"
  shows "runs_ok (ro_before_insert others t)" "runs_ok (ro_before_read others t)" "runs_ok (ro_before_update others t)"
  using assms steps_ok unfolding others_run_def by meson+

lemma reserved_row:
  assumes r: "reserve_run others inp env key t = (t', Reserved runId)" and o: "others_run others" and ok: "runs_ok t"
  shows "runs_ok t' \<and> (\<exists>r. readRunV3 t' (en_task_name env) key = Some r \<and> rr_run_id r = runId \<and> rr_outcome r = UNKNOWN)"
proof -
  define row where "row = new_run inp (en_task_name env)
    (case readRunV3 t (en_task_name env) key of None \<Rightarrow> ei_new_run_id inp | Some r \<Rightarrow> rr_run_id r) key UNKNOWN None None (prompt_version_of env)"
  have f: "rr_task_name row = en_task_name env" "rr_envelope_key row = key" "rr_outcome row = UNKNOWN"
    by (simp_all add: row_def new_run_def)
  have ok1: "runs_ok (ro_before_insert others t)" by (rule others_ok [OF o ok])
  obtain t2 new where i: "insert_run row (ro_before_insert others t) = Some (t2, new)"
    using r by (auto simp: reserve_run_def Let_def row_def [symmetric] split: option.splits prod.splits if_splits)
  have ok2: "runs_ok t2" by (rule insert_ok [OF ok1 i])
  show ?thesis
  proof (cases new)
    case True
    with i have "t2 = ro_before_insert others t @ [row]" "readRunV3 (ro_before_insert others t) (en_task_name env) key = None"
      using f by (auto elim: insert_cases)
    then have "readRunV3 t2 (en_task_name env) key = Some row" using f by (simp add: read_append)
    moreover have "t' = t2" "runId = rr_run_id row"
      using r i True by (auto simp: reserve_run_def Let_def row_def [symmetric] split: option.splits if_splits)
        (simp_all add: row_def new_run_def)
    ultimately show ?thesis using ok2 f by simp
  next
    case False
    then show ?thesis
      using r i others_ok(2) [OF o ok2]
      by (auto simp: reserve_run_def Let_def row_def [symmetric] split: option.splits if_splits)
  qed
qed

lemma replayed_row:
  assumes "reserve_run others inp env key t = (t', Replay row)"
  shows "readRunV3 t' (en_task_name env) key = Some row \<and> rr_outcome row \<noteq> UNKNOWN"
  using assms by (auto simp: reserve_run_def Let_def filter_option_def split: option.splits prod.splits if_splits bool.splits)

lemma reserve_ok:
  assumes "reserve_run others inp env key t = (t', x)" "others_run others" "runs_ok t"
  shows "runs_ok t'"
proof -
  have "t' = t \<or> t' = ro_before_insert others t \<or> (\<exists>row t2 new. insert_run row (ro_before_insert others t) = Some (t2, new)
      \<and> (t' = t2 \<or> t' = ro_before_read others t2))"
    using assms(1) by (auto simp: reserve_run_def Let_def split: option.splits prod.splits bool.splits)
  then show ?thesis using assms(3) others_ok [OF assms(2)] insert_ok by blast
qed

lemma reserve_recorded:
  assumes "readRunV3 t (en_task_name env) key = Some row" "rr_outcome row \<noteq> UNKNOWN"
  shows "reserve_run others inp env key t = (t, Replay row)"
  using assms by (simp add: reserve_run_def Let_def filter_option_def)

definition quiet :: "run_others \<Rightarrow> string \<Rightarrow> string \<Rightarrow> bool" where
  "quiet others task key \<longleftrightarrow> (\<forall>t. readRunV3 (ro_before_update others t) task key = readRunV3 t task key)"

definition same_run :: "envelope_receipt \<Rightarrow> envelope_receipt \<Rightarrow> bool" where
  "same_run a b \<longleftrightarrow> er_run_id a = er_run_id b \<and> er_task_name a = er_task_name b \<and> er_outcome a = er_outcome b
     \<and> er_blocker_code a = er_blocker_code b \<and> er_envelope_key a = er_envelope_key b
     \<and> er_fresh_delta_count a = er_fresh_delta_count b \<and> er_event_count a = er_event_count b
     \<and> er_notification_required a = er_notification_required b"

lemma process_parsed:
  assumes "SUBMIT_RUN_ENVELOPE_INPUT_SCHEMA lp (ei_envelope inp) = Some env" "comboViolation env = None"
    and "envelope_identity lp sha (ei_now inp) env = Inr key"
  shows "processRunEnvelope lp lc sha fetch random token others inp s =
    (case reserve_run others inp env key (ensureRunEnvelopeTables (es_runs s)) of
          (t', Replay row) \<Rightarrow> (s\<lparr>es_runs := Some t'\<rparr>, Inr (receiptFromRow lp (es_receipts s) row))
        | (t', Unreserved runId) \<Rightarrow> (s\<lparr>es_runs := Some t'\<rparr>, Inl (Run_Error
            \<lparr>re_error = state_error_of STATE_UNAVAILABLE WRITE ''run envelope row could not be reserved'' True
               (Some (ei_request_id inp)) None,
             re_run_id = Some runId, re_outcome = None, re_envelope_key = Some key, re_blocker_code = None\<rparr>))
        | (t', Reserved runId) \<Rightarrow> run_reserved lp lc sha fetch random token others inp env key runId t' s)"
  by (simp add: processRunEnvelope_def assms)

text \<open>The row of a call that returned a receipt.\<close>

lemma receipt_row:
  assumes s: "SUBMIT_RUN_ENVELOPE_INPUT_SCHEMA lp (ei_envelope inp) = Some env" "comboViolation env = None"
    "envelope_identity lp sha (ei_now inp) env = Inr key"
    and p: "processRunEnvelope lp lc sha fetch random token others inp s = (s1, Inr receipt)"
    and o: "others_run others" "quiet others (en_task_name env) key" and ok: "runs_ok (ensureRunEnvelopeTables (es_runs s))"
  shows "\<exists>t row. es_runs s1 = Some t \<and> runs_ok t \<and> readRunV3 t (en_task_name env) key = Some row \<and> rr_outcome row \<noteq> UNKNOWN
    \<and> (\<forall>receipts. same_run receipt (receiptFromRow lp receipts row))"
proof -
  obtain t' x where r: "reserve_run others inp env key (ensureRunEnvelopeTables (es_runs s)) = (t', x)" by fastforce
  have ok': "runs_ok t'" by (rule reserve_ok [OF r o(1) ok])
  show ?thesis
  proof (cases x)
    case (Replay row)
    then have "s1 = s\<lparr>es_runs := Some t'\<rparr>" "receipt = receiptFromRow lp (es_receipts s) row"
      using p by (simp_all add: process_parsed [OF s] r)
    then show ?thesis
      using replayed_row [of others inp env key _ t' row] r Replay ok' by (auto simp: same_run_def receiptFromRow_def Let_def)
  next
    case (Reserved runId)
    obtain row where row: "readRunV3 t' (en_task_name env) key = Some row" "rr_run_id row = runId" "rr_outcome row = UNKNOWN"
      using reserved_row [OF _ o(1) ok] r Reserved by blast
    obtain db trace l where e: "execute_envelope lp lc sha fetch random token others inp env key (es_receipts s) (es_trace s) = (db, trace, l)"
      using prod_cases3 by blast
    let ?tm = "derive_terminal env l"
    let ?t = "updateRunV3Row (en_task_name env) runId (update_of inp env ?tm) (ro_before_update others t')"
    have n: "\<forall>e n. l \<noteq> Errored e n" and rc: "receipt = recorded_receipt lp inp env key runId ?tm" and s1: "es_runs s1 = Some ?t"
      using p by (auto simp: process_parsed [OF s] r Reserved run_reserved_def e Let_def split: ledger_outcome.splits)
    have t: "readRunV3 ?t (en_task_name env) key = Some (set_run (update_of inp env ?tm) row)"
      using o(2) row read_Some [OF row(1)] by (simp add: read_update quiet_def)
    have final: "tm_outcome ?tm \<noteq> UNKNOWN"
      using n by (cases l) (simp_all add: derive_terminal_def Let_def)
    have "runs_ok ?t" using others_ok(3) [OF o(1) ok'] by (simp add: runs_ok_def update_keys)
    moreover have "rr_outcome (set_run (update_of inp env ?tm) row) \<noteq> UNKNOWN" using final by (simp add: set_run_def update_of_def)
    moreover have "same_run receipt (receiptFromRow lp receipts (set_run (update_of inp env ?tm) row))" for receipts
      using row read_Some [OF row(1)]
      by (simp add: rc same_run_def receiptFromRow_def Let_def recorded_receipt_def set_run_def update_of_def)
    ultimately show ?thesis using s1 t by blast
  next
    case (Unreserved runId)
    then show ?thesis using p by (simp add: process_parsed [OF s] r)
  qed
qed


section \<open>Facts: what an append posts\<close>

definition posted_as :: "string \<Rightarrow> request list \<Rightarrow> request list \<Rightarrow> bool" where
  "posted_as status old new \<longleftrightarrow>
     (status = ''PERSISTED'' \<and> (\<exists>x. posts new = posts old @ [x])) \<or> (status = ''IDEMPOTENT_REPLAY'' \<and> posts new = posts old)"

lemma market_posted_as:
  "appendMarketCheckpoint lp lc fetch random token v trace = (t, Inr a) \<Longrightarrow> posted_as (ar_status a) trace t"
  by (auto simp: appendMarketCheckpoint_def append_decision_def bindE_Inr result_of_def posted_as_def
      split: option.splits sum.splits prod.splits if_splits
      dest!: getMarketCheckpoints_trace post_and_read_back_trace)

lemma investment_posted_as:
  "appendInvestmentLedgerBatch lp lc fetch random token role v trace = (t, Inr a) \<Longrightarrow> posted_as (br_status a) trace t"
  by (auto simp: appendInvestmentLedgerBatch_def replay_decision_def batch_result_of_def Let_def posted_as_def
      split: option.splits sum.splits prod.splits if_splits list.splits
      dest!: fetchAllComments_trace post_and_read_back_trace)

lemma ledger_posted_as:
  "append_to_ledger lp lc fetch random token channel n trace = (t, Inr r) \<Longrightarrow> posted_as (fst r) trace t"
  by (auto simp: append_to_ledger_def split: sum.splits prod.splits dest!: market_posted_as investment_posted_as)

lemma settle_append_Inr:
  "settle_append inp updatedAt k h db outcome = (db', Inr g) \<Longrightarrow> \<exists>r. outcome = Inr r \<and> gr_status g = fst r"
  by (auto simp: settle_append_def settle_failure_def Let_def split: sum.splits prod.splits)

lemma gateway_posted_as:
  assumes "appendStateBatch lp lc sha fetch random token meanwhile updatedAt inp db trace = (db', t, Inr g)"
  shows "posted_as (gr_status g) trace t"
proof -
  obtain t1 v where v: "validate_append lp lc sha fetch random token inp trace = (t1, Inr v)"
    using assms by (auto simp: appendStateBatch_def split: prod.splits sum.splits)
  have p: "posts t1 = posts trace" using validate_append_trace [OF v] by simp
  obtain db1 a r where r: "reserveStateWrite lp db (reservation_of inp (write_key_of inp v) (payload_of inp v)) = (db1, Inr (a, r))"
    using assms by (auto simp: appendStateBatch_def v Let_def split: prod.splits sum.splits)
  obtain t2 outcome where o: "append_to_ledger lp lc fetch random token (ai_channel inp) (vb_normalized v) t1 = (t2, outcome)"
    by fastforce
  obtain db2 res where s: "settle_append inp updatedAt (write_key_of inp v) (payload_of inp v) (map_option meanwhile db1) outcome = (db2, res)"
    by fastforce
  show ?thesis
  proof (cases a)
    case True
    then have "res = Inr g" "t = t2"
      using assms by (auto simp: appendStateBatch_def v Let_def r o s split: if_splits)
    then obtain x where "outcome = Inr x" "gr_status g = fst x" using settle_append_Inr s by blast
    then show ?thesis using ledger_posted_as [of lp lc fetch random token _ _ t1 t2 x] o p \<open>t = t2\<close>
      by (auto simp: posted_as_def)
  next
    case False
    then show ?thesis using assms p by (auto simp: appendStateBatch_def v Let_def r posted_as_def split: if_splits)
  qed
qed

lemma build_observation_trace:
  "buildMarketObservationBatch lp lc fetch random token command pv hash trace = (t, r) \<Longrightarrow> posts t = posts trace"
  by (auto simp: buildMarketObservationBatch_def split: sum.splits prod.splits if_splits dest!: getMarketCheckpoints_trace)

lemma payload_posted_as:
  assumes "append_payload lp lc sha fetch random token others inp key p ctx db trace = (db', t, Inr (g, run))"
  shows "posted_as (gr_status g) trace t"
proof (cases p)
  case (Investment_Payload role asOf events)
  then show ?thesis
    using assms by (auto simp: append_payload_def Let_def appendInvestmentCommand_def split: sum.splits prod.splits
        dest!: gateway_posted_as)
next
  case (Market_Payload day asOf slot ref records)
  then show ?thesis
    using assms
    by (auto simp: append_payload_def Let_def appendMarketObservation_def posted_as_def split: sum.splits prod.splits
        dest!: gateway_posted_as build_observation_trace)
qed

section \<open>Facts: what a call answers\<close>

text \<open>A receipt with this status was recorded by this call.\<close>

lemma recorded_call:
  assumes "processRunEnvelope lp lc sha fetch random token others inp s = (s1, Inr r)" "er_status r = ''ENVELOPE_RECORDED''"
    and "SUBMIT_RUN_ENVELOPE_INPUT_SCHEMA lp (ei_envelope inp) = Some env"
  shows "comboViolation env = None \<and> (\<exists>key runId db trace l.
    execute_envelope lp lc sha fetch random token others inp env key (es_receipts s) (es_trace s) = (db, trace, l)
    \<and> (\<forall>e n. l \<noteq> Errored e n) \<and> es_receipts s1 = db \<and> es_trace s1 = trace
    \<and> r = recorded_receipt lp inp env key runId (derive_terminal env l))"
proof -
  have n: "er_status (receiptFromRow lp receipts row) \<noteq> ''ENVELOPE_RECORDED''" for receipts row
    by (simp add: receiptFromRow_def Let_def)
  have c: "comboViolation env = None"
    using assms n by (auto simp: processRunEnvelope_def reject_invalid_def Let_def split: option.splits prod.splits bool.splits)
  obtain key where k: "envelope_identity lp sha (ei_now inp) env = Inr key"
    using assms by (auto simp: processRunEnvelope_def c Let_def split: sum.splits)
  obtain t' x where r: "reserve_run others inp env key (ensureRunEnvelopeTables (es_runs s)) = (t', x)" by fastforce
  obtain runId where x: "x = Reserved runId"
    using assms(1,2) n by (cases x) (auto simp: process_parsed [OF assms(3) c k] r)
  obtain db trace l where e: "execute_envelope lp lc sha fetch random token others inp env key (es_receipts s) (es_trace s) = (db, trace, l)"
    using prod_cases3 by blast
  have "(\<forall>e n. l \<noteq> Errored e n) \<and> es_receipts s1 = db \<and> es_trace s1 = trace
    \<and> r = recorded_receipt lp inp env key runId (derive_terminal env l)"
    using assms(1) by (auto simp: process_parsed [OF assms(3) c k] r x run_reserved_def e Let_def split: ledger_outcome.splits)
  then show ?thesis using c e by blast
qed



section \<open>Facts: what the schema accepts is a command\<close>

lemma member_command:
  assumes "INVESTMENT_MEMBER lp role v = Some p"
  shows "\<exists>asOf events. p = Investment_Payload role asOf events
    \<and> investmentCommandSchema lp False role (investment_command asOf events)
        = Some \<lparr>ec_as_of = asOf, ec_events = events, ec_run_id = None\<rparr>"
proof -
  obtain ob asOf events where p: "p = Investment_Payload role asOf events"
    and a: "AS_OF_SCHEMA lp (fld ob ''as_of'') = Some asOf"
    and z: "z_array 128 (EVENT_COMMAND_SCHEMA True role) (fld ob ''events'') = Some events" and ne: "events \<noteq> []"
    using assms by (auto simp: INVESTMENT_MEMBER_def bind_eq_Some_conv filter_option_Some)
  have a2: "AS_OF_SCHEMA lp (Some (JStr asOf)) = Some asOf"
    using a by (auto simp: AS_OF_SCHEMA_def filter_option_Some z_text_Some simp del: One_nat_def)
  have len: "length events \<le> 128" by (rule z_array_length [OF z])
  have "map (EVENT_COMMAND_SCHEMA False role) (map JObj events) = map Some events"
    using array_items [OF z] event_command_Some(3) [of True] by (auto dest!: array_items [OF z])
  then have z2: "z_array 128 (EVENT_COMMAND_SCHEMA False role) (Some (JArr (map JObj events))) = Some events"
    using len by (simp add: z_array_def all_some_Some)
  show ?thesis
    using p a2 z2 ne by (auto simp: investmentCommandSchema_def investment_command_def filter_option_def RUN_ID_SCHEMA_def)
qed

lemma market_member:
  assumes "MARKET_MEMBER lp v = Some p"
  shows "\<exists>day asOf slot ref records. p = Market_Payload day asOf slot ref records
    \<and> MARKET_OBSERVATION_COMMAND_SCHEMA lp False (market_command day asOf slot ref records)
        = Some \<lparr>oc_trading_date = day, oc_as_of = asOf, oc_scheduled_slot = slot, oc_production_ref = ref,
            oc_records = records, oc_run_id = None\<rparr>"
proof -
  obtain ob day asOf slot ref records where p: "p = Market_Payload day asOf slot ref records"
    and f: "is_day_text day" "AS_OF_SCHEMA lp (fld ob ''as_of'') = Some asOf" "z_enum MARKET_LEDGER_SLOTS (fld ob ''scheduled_slot'') = Some slot"
      "is_commit ref" "z_array 512 CHECKPOINT_RECORD_SCHEMA (fld ob ''records'') = Some records"
    using assms by (auto simp: MARKET_MEMBER_def bind_eq_Some_conv filter_option_Some)
  have a2: "AS_OF_SCHEMA lp (Some (JStr asOf)) = Some asOf"
    using f(2) by (auto simp: AS_OF_SCHEMA_def filter_option_Some z_text_Some simp del: One_nat_def)
  have s: "z_enum MARKET_LEDGER_SLOTS (Some (JStr slot)) = Some slot" using f(3) by (simp add: z_enum_Some)
  have z: "z_array 512 CHECKPOINT_RECORD_SCHEMA (Some (JArr (map JObj records))) = Some records" using f(5) by (simp add: z_records)
  show ?thesis
    using p f(1,4) a2 s z
    by (simp add: MARKET_OBSERVATION_COMMAND_SCHEMA_def market_command_def filter_option_def RUN_ID_SCHEMA_def)
qed

lemma parsed_payload:
  assumes "SUBMIT_RUN_ENVELOPE_INPUT_SCHEMA lp v = Some env" "en_channel_payload env = Some p"
  shows "\<exists>w. CHANNEL_PAYLOAD_SCHEMA lp w = Some p"
  using assms by (auto simp: SUBMIT_RUN_ENVELOPE_INPUT_SCHEMA_def bind_eq_Some_conv z_maybe_def split: option.splits)

lemma payload_cases:
  assumes "CHANNEL_PAYLOAD_SCHEMA lp w = Some p"
  obtains (investment) role where "INVESTMENT_MEMBER lp role w = Some p" | (market) "MARKET_MEMBER lp w = Some p"
  using assms by (auto simp: CHANNEL_PAYLOAD_SCHEMA_def bind_eq_Some_conv split: if_splits)

text \<open>The same payload, but for its timestamp.\<close>

definition restamped :: "channel_payload \<Rightarrow> channel_payload \<Rightarrow> bool" where
  "restamped p q \<longleftrightarrow>
     (case (p, q) of
        (Investment_Payload role _ events, Investment_Payload role' _ events') \<Rightarrow>
          role = role' \<and> list_all2 same_content events events'
      | (Market_Payload day _ slot ref records, Market_Payload day' _ slot' ref' records') \<Rightarrow>
          day = day' \<and> slot = slot' \<and> ref = ref' \<and> records = records'
      | _ \<Rightarrow> False)"

lemma investment_identity:
  assumes "SUBMIT_RUN_ENVELOPE_INPUT_SCHEMA lp v = Some env" "comboViolation env = None"
    and "en_channel_payload env = Some (Investment_Payload role asOf events)"
  shows "envelope_identity lp sha now env = Inr (''E:'' @ show_channel (channel_of role) @ '':''
    @ sha256Hex sha (normalized_command role (map (projectEvent role) events)))"
proof -
  obtain w where w: "CHANNEL_PAYLOAD_SCHEMA lp w = Some (Investment_Payload role asOf events)"
    using parsed_payload [OF assms(1,3)] by blast
  have c: "investmentCommandSchema lp False role (investment_command asOf events)
      = Some \<lparr>ec_as_of = asOf, ec_events = events, ec_run_id = None\<rparr>"
    using w by (rule payload_cases) (auto dest!: member_command market_member)
  have "en_blocked_by env = None" "en_observations env = None" using assms(2,3) by (auto simp: comboViolation_def split: if_splits)
  then show ?thesis using assms(3) by (simp add: envelope_identity_def build_command c Let_def)
qed



section \<open>Witnesses\<close>

definition idle_others :: run_others where
  "idle_others = \<lparr>ro_before_insert = (\<lambda>t. t), ro_before_read = (\<lambda>t. t), ro_before_update = (\<lambda>t. t), ro_receipts = (\<lambda>t. t)\<rparr>"

definition no_runs :: envelope_state where
  "no_runs = \<lparr>es_runs = None, es_receipts = None, es_trace = []\<rparr>"

definition call_of :: "jsval \<Rightarrow> string \<Rightarrow> (domain_error + owner_context) option \<Rightarrow> envelope_input" where
  "call_of v now ctx = \<lparr>ei_envelope = v, ei_context = ctx, ei_build_sha = None, ei_version_id = None, ei_now = now,
     ei_request_id = ''r1'', ei_new_run_id = ''run_1'', ei_inserted_at = now, ei_updated_at = now\<rparr>"

abbreviation early :: string where "early \<equiv> ''2026-01-05T10:00:00.000Z''"
abbreviation later :: string where "later \<equiv> ''2026-01-05T10:30:00.000Z''"

definition observation_envelope :: jsval where
  "observation_envelope = JObj
     [(''task_name'', JStr ''central-policy''), (''summary'', JStr ''s''),
      (''observations'', JObj [(''fresh_count'', JInt 2)])]"

definition industry_envelope :: "string \<Rightarrow> jsval list \<Rightarrow> jsval" where
  "industry_envelope asOf keys = JObj
     [(''task_name'', JStr ''industry-research''), (''summary'', JStr ''s''),
      (''channel_payload'', JObj [(''channel'', JStr ''INDUSTRY''), (''as_of'', JStr asOf), (''events'', JArr [sample_event keys])])]"

definition market_envelope :: jsval where
  "market_envelope = JObj
     [(''task_name'', JStr ''holding-assistant-intraday''), (''summary'', JStr ''s''),
      (''channel_payload'', JObj
        [(''channel'', JStr ''MARKET''), (''trading_date'', JStr ''2026-01-05''), (''as_of'', JStr ''2026-01-05T01:10:00Z''),
         (''scheduled_slot'', JStr ''09:10''), (''production_ref'', JStr ''0123456789abcdef0123456789abcdef01234567''),
         (''records'', JArr [])])]"

lemma idle: "others_run idle_others" "quiet idle_others task key" "runs_ok (ensureRunEnvelopeTables (es_runs no_runs))"
  using steps_nil by (auto simp: others_run_def idle_others_def quiet_def runs_ok_def ensureRunEnvelopeTables_def no_runs_def)

definition observation_env :: envelope where
  "observation_env = the (SUBMIT_RUN_ENVELOPE_INPUT_SCHEMA (\<lambda>_. None) observation_envelope)"

lemma observation_parsed:
  "SUBMIT_RUN_ENVELOPE_INPUT_SCHEMA (\<lambda>_. None) observation_envelope = Some observation_env"
  "comboViolation observation_env = None"
  "envelope_identity (\<lambda>_. None) sha early observation_env = Inr ''OB:2:2026-01-05T10''"
  "envelope_identity (\<lambda>_. None) sha later observation_env = Inr ''OB:2:2026-01-05T10''"
  "en_blocked_by observation_env = None" "en_observations observation_env = Some 2"
  by code_simp+

lemma observation_recorded:
  "\<exists>s1 r. processRunEnvelope (\<lambda>_. None) lc sha fetch random token idle_others (call_of observation_envelope early None) no_runs
     = (s1, Inr r) \<and> er_status r = ''ENVELOPE_RECORDED'' \<and> es_runs s1 \<noteq> None"
proof -
  have p: "SUBMIT_RUN_ENVELOPE_INPUT_SCHEMA (\<lambda>_. None) (ei_envelope (call_of observation_envelope early None)) = Some observation_env"
    "envelope_identity (\<lambda>_. None) sha (ei_now (call_of observation_envelope early None)) observation_env = Inr ''OB:2:2026-01-05T10''"
    by (simp_all add: call_of_def observation_parsed)
  show ?thesis
    by (simp add: process_parsed [OF p(1) observation_parsed(2) p(2)] ensureRunEnvelopeTables_def no_runs_def reserve_run_def
        readRunV3_def idle_others_def insert_run_def filter_option_def Let_def run_reserved_def execute_envelope_def
        observation_parsed(5,6) recorded_receipt_def)
qed

theorem recorded_run_final_witness:
  "run_steps [(new_run (call_of observation_envelope early None) ''t'' ''i'' ''k'' SILENT None None None)]
     [Update_Run ''t'' ''i'' (update_of (call_of observation_envelope later None) observation_env (derive_terminal observation_env Heartbeat))]
     [(new_run (call_of observation_envelope early None) ''t'' ''i'' ''k'' SILENT None None None)]"
  (is "run_steps [?r] ?ss [?r]")
proof -
  have ok: "runs_ok [?r]" "readRunV3 [?r] ''t'' ''k'' = Some ?r" "rr_outcome ?r \<noteq> UNKNOWN"
    by (simp_all add: runs_ok_def readRunV3_def new_run_def)
  have s: "run_steps [?r] ?ss (updateRunV3Row ''t'' ''i'' (update_of (call_of observation_envelope later None) observation_env
      (derive_terminal observation_env Heartbeat)) [?r])"
    by (rule steps_cons [OF updated steps_nil])
  have "readRunV3 (updateRunV3Row ''t'' ''i'' (update_of (call_of observation_envelope later None) observation_env
      (derive_terminal observation_env Heartbeat)) [?r]) ''t'' ''k'' = Some ?r"
    using recorded_run_final [OF s ok(1,2)] ok(3) by blast
  then have "updateRunV3Row ''t'' ''i'' (update_of (call_of observation_envelope later None) observation_env
      (derive_terminal observation_env Heartbeat)) [?r] = [?r]"
    by (auto simp: updateRunV3Row_def readRunV3_def split: if_splits)
  with s show ?thesis by simp
qed



definition industry_env :: envelope where
  "industry_env = the (SUBMIT_RUN_ENVELOPE_INPUT_SCHEMA (\<lambda>_. None) (industry_envelope first_stamp first_keys))"

definition industry_retry :: envelope where
  "industry_retry = the (SUBMIT_RUN_ENVELOPE_INPUT_SCHEMA (\<lambda>_. None) (industry_envelope second_stamp second_keys))"

lemma industry_parsed:
  "SUBMIT_RUN_ENVELOPE_INPUT_SCHEMA (\<lambda>_. None) (industry_envelope first_stamp first_keys) = Some industry_env"
  "comboViolation industry_env = None"
  "SUBMIT_RUN_ENVELOPE_INPUT_SCHEMA (\<lambda>_. None) (industry_envelope second_stamp second_keys) = Some industry_retry"
  "comboViolation industry_retry = None"
  "restamped (the (en_channel_payload industry_env)) (the (en_channel_payload industry_retry))"
  "en_channel_payload industry_env \<noteq> None" "en_channel_payload industry_retry \<noteq> None"
  "en_blocked_by industry_env = None" "en_observations industry_env = None"
  by code_simp+

lemma industry_key: "\<exists>key. envelope_identity (\<lambda>_. None) sample_hash now industry_env = Inr key"
proof -
  obtain p where p: "en_channel_payload industry_env = Some p" "restamped p (the (en_channel_payload industry_retry))"
    using industry_parsed(5,6) by auto
  show ?thesis
  proof (cases p)
    case (Investment_Payload role asOf events)
    then show ?thesis using investment_identity [OF industry_parsed(1,2)] p(1) by simp
  next
    case (Market_Payload day asOf slot ref records)
    then show ?thesis using p(1) by (simp add: envelope_identity_def industry_parsed(8,9))
  qed
qed



definition market_env :: envelope where
  "market_env = the (SUBMIT_RUN_ENVELOPE_INPUT_SCHEMA (\<lambda>_. None) market_envelope)"

lemma market_parsed:
  "SUBMIT_RUN_ENVELOPE_INPUT_SCHEMA (\<lambda>_. None) market_envelope = Some market_env" "comboViolation market_env = None"
  "en_channel_payload market_env = Some (Market_Payload ''2026-01-05'' ''2026-01-05T01:10:00Z'' ''09:10''
     ''0123456789abcdef0123456789abcdef01234567'' [])"
  "en_blocked_by market_env = None" "en_observations market_env = None"
  by code_simp+


end
