(* ===== verification/Automation_Runs.thy ===== *)
theory Automation_Runs
  imports Run_Envelope
begin

text \<open>
  \<open>src/src/automation-run-ledger.ts\<close>: the audit of automation runs. A run is begun and ended
  (\<open>run-v2\<close>), or reported by two events (\<open>legacy-event-v1\<close>), in the table \<open>automation_runs_v2\<close>; the
  history merges it with the runs of the envelopes. As in \<open>State_Receipts\<close> a table is the list of its
  rows, every statement is one function on it, and other workers run statements between those of a call
  (\<open>others\<close>). The database is taken to answer: its failures, which all become
  AUTOMATION_RUN_UNAVAILABLE, are left out. Columns are typed as the code writes them, so
  \<open>normalizeRow\<close> is the identity on a row.
\<close>

section \<open>Data\<close>

datatype auto_code =
    AUTOMATION_RUN_VALIDATION_FAILED | AUTOMATION_RUN_CONFLICT | AUTOMATION_RUN_NOT_FOUND | AUTOMATION_RUN_UNAVAILABLE

record auto_error =
  ae_code :: auto_code
  ae_message :: string
  ae_retryable :: bool
  ae_request_id :: "string option"

text \<open>The constructor: without a retryability of its own an error is retryable when it is UNAVAILABLE.\<close>

definition auto_error_of :: "auto_code \<Rightarrow> string \<Rightarrow> bool option \<Rightarrow> string option \<Rightarrow> auto_error" where
  "auto_error_of code m retryable requestId =
     \<lparr>ae_code = code, ae_message = m,
      ae_retryable = (case retryable of None \<Rightarrow> code = AUTOMATION_RUN_UNAVAILABLE | Some b \<Rightarrow> b),
      ae_request_id = requestId\<rparr>"

datatype source_contract = Run_V2 | Legacy_Event_V1

record auto_run =
  au_task_name :: string
  au_run_id :: string
  au_principal :: "string option"
  au_invocation_key :: "string option"
  au_scheduled_for :: "string option"
  au_started_at :: "string option"
  au_finished_at :: "string option"
  au_outcome :: "string option"
  au_fresh_delta_count :: "int option"
  au_notification_intended :: "bool option"
  au_notification_sent_legacy :: "bool option"
  au_reason :: "string option"
  au_prompt_version :: "string option"
  au_collector_build_sha :: "string option"
  au_cloudflare_version_id :: "string option"
  au_source_contract :: source_contract
  au_legacy_trace_id :: "string option"
  au_legacy_started_sha256 :: "string option"
  au_legacy_final_sha256 :: "string option"
  au_final_payload_sha256 :: "string option"
  au_created_at :: string
  au_updated_at :: string

type_synonym auto_runs = "auto_run list"

text \<open>A row of the table of the first contract, \<open>automation_run_events_v1\<close>, whose key is the task, the
  run and the phase.\<close>

record legacy_event =
  lg_task_name :: string
  lg_run_id :: string
  lg_phase :: string
  lg_status :: string
  lg_scheduled_for :: "string option"
  lg_occurred_at :: string
  lg_notification_sent :: "bool option"
  lg_fresh_delta_count :: "int option"
  lg_blocker_code :: "string option"
  lg_trace_id :: "string option"
  lg_prompt_version :: "string option"
  lg_safe_summary :: "string option"
  lg_collector_build_sha :: "string option"
  lg_cloudflare_version_id :: "string option"
  lg_payload_sha256 :: string
  lg_created_at :: string

record auto_db =
  ad_runs :: "auto_runs option"
  ad_legacy :: "legacy_event list option"

section \<open>Statements\<close>

definition find_run :: "auto_runs \<Rightarrow> string \<Rightarrow> string \<Rightarrow> auto_run option" where
  "find_run t task runId = find (\<lambda>r. au_task_name r = task \<and> au_run_id r = runId) t"

definition find_invocation :: "auto_runs \<Rightarrow> string \<Rightarrow> string \<Rightarrow> string \<Rightarrow> auto_run option" where
  "find_invocation t who task key =
     find (\<lambda>r. au_principal r = Some who \<and> au_task_name r = task \<and> au_invocation_key r = Some key) t"

text \<open>The partial unique index on \<open>(principal, task_name, invocation_key)\<close>.\<close>

definition same_invocation :: "auto_run \<Rightarrow> auto_run \<Rightarrow> bool" where
  "same_invocation a b \<longleftrightarrow> au_principal a \<noteq> None \<and> au_invocation_key a \<noteq> None
     \<and> au_principal a = au_principal b \<and> au_task_name a = au_task_name b \<and> au_invocation_key a = au_invocation_key b"

definition same_run_key :: "auto_run \<Rightarrow> auto_run \<Rightarrow> bool" where
  "same_run_key a b \<longleftrightarrow> au_task_name a = au_task_name b \<and> au_run_id a = au_run_id b"

definition RUN_OUTCOMES :: "string list" where
  "RUN_OUTCOMES = [''COMPLETED'', ''SILENT'', ''BLOCKED'', ''FAILED'']"

text \<open>The CHECK constraints.\<close>

definition row_checks :: "auto_run \<Rightarrow> bool" where
  "row_checks r \<longleftrightarrow> (case au_outcome r of None \<Rightarrow> True | Some s \<Rightarrow> s \<in> set RUN_OUTCOMES)
     \<and> (case au_fresh_delta_count r of None \<Rightarrow> True | Some n \<Rightarrow> 0 \<le> n)"

text \<open>\<open>INSERT OR IGNORE\<close>: the rows after it, and whether the row was added.\<close>

definition insert_or_ignore :: "auto_run \<Rightarrow> auto_runs \<Rightarrow> auto_runs \<times> bool" where
  "insert_or_ignore row t =
     (if row_checks row \<and> \<not> list_ex (same_run_key row) t \<and> \<not> list_ex (same_invocation row) t then (t @ [row], True)
      else (t, False))"

record end_update =
  eu_outcome :: string
  eu_fresh_delta_count :: int
  eu_notification_intended :: bool
  eu_reason :: "string option"
  eu_final_payload_sha256 :: string
  eu_now :: string

definition set_end :: "end_update \<Rightarrow> auto_run \<Rightarrow> auto_run" where
  "set_end u r =
     r\<lparr>au_finished_at := Some (eu_now u), au_outcome := Some (eu_outcome u),
       au_fresh_delta_count := Some (eu_fresh_delta_count u), au_notification_intended := Some (eu_notification_intended u),
       au_reason := eu_reason u, au_final_payload_sha256 := Some (eu_final_payload_sha256 u), au_updated_at := eu_now u\<rparr>"

definition end_statement :: "string \<Rightarrow> string \<Rightarrow> end_update \<Rightarrow> auto_runs \<Rightarrow> auto_runs" where
  "end_statement task runId u t =
     map (\<lambda>r. if au_task_name r = task \<and> au_run_id r = runId \<and> au_source_contract r = Run_V2
                 \<and> au_final_payload_sha256 r = None then set_end u r else r) t"

text \<open>An event of the first contract, after its validation.\<close>

record run_event =
  ev_task_name :: string
  ev_run_id :: string
  ev_phase :: string
  ev_status :: string
  ev_scheduled_for :: "string option"
  ev_occurred_at :: string
  ev_notification_sent :: "bool option"
  ev_fresh_delta_count :: "int option"
  ev_blocker_code :: "string option"
  ev_trace_id :: "string option"
  ev_prompt_version :: "string option"
  ev_safe_summary :: "string option"

record stamp =
  st_build_sha :: "string option"
  st_version_id :: "string option"
  st_now :: string

definition set_started :: "run_event \<Rightarrow> string \<Rightarrow> stamp \<Rightarrow> auto_run \<Rightarrow> auto_run" where
  "set_started e sha s r =
     r\<lparr>au_scheduled_for := coalesce (au_scheduled_for r) (ev_scheduled_for e),
       au_started_at := coalesce (au_started_at r) (Some (ev_occurred_at e)),
       au_prompt_version := coalesce (au_prompt_version r) (ev_prompt_version e),
       au_collector_build_sha := coalesce (au_collector_build_sha r) (st_build_sha s),
       au_cloudflare_version_id := coalesce (au_cloudflare_version_id r) (st_version_id s),
       au_legacy_trace_id := coalesce (au_legacy_trace_id r) (ev_trace_id e),
       au_legacy_started_sha256 := Some sha, au_updated_at := st_now s\<rparr>"

definition set_final :: "run_event \<Rightarrow> string \<Rightarrow> stamp \<Rightarrow> auto_run \<Rightarrow> auto_run" where
  "set_final e sha s r =
     r\<lparr>au_scheduled_for := coalesce (au_scheduled_for r) (ev_scheduled_for e),
       au_finished_at := Some (ev_occurred_at e), au_outcome := Some (ev_status e),
       au_fresh_delta_count := ev_fresh_delta_count e,
       au_notification_sent_legacy := Some (ev_notification_sent e = Some True),
       au_reason := coalesce (ev_blocker_code e) (ev_safe_summary e),
       au_prompt_version := coalesce (ev_prompt_version e) (au_prompt_version r),
       au_collector_build_sha := coalesce (st_build_sha s) (au_collector_build_sha r),
       au_cloudflare_version_id := coalesce (st_version_id s) (au_cloudflare_version_id r),
       au_legacy_trace_id := coalesce (ev_trace_id e) (au_legacy_trace_id r),
       au_legacy_final_sha256 := Some sha, au_updated_at := st_now s\<rparr>"

definition event_hash :: "string \<Rightarrow> auto_run \<Rightarrow> string option" where
  "event_hash phase r = (if phase = ''STARTED'' then au_legacy_started_sha256 r else au_legacy_final_sha256 r)"

text \<open>The two updates of an event, by its phase.\<close>

definition event_statement :: "run_event \<Rightarrow> string \<Rightarrow> stamp \<Rightarrow> auto_runs \<Rightarrow> auto_runs" where
  "event_statement e sha s t =
     map (\<lambda>r. if au_task_name r = ev_task_name e \<and> au_run_id r = ev_run_id e \<and> au_source_contract r = Legacy_Event_V1
                 \<and> event_hash (ev_phase e) r = None
              then (if ev_phase e = ''STARTED'' then set_started e sha s r else set_final e sha s r) else r) t"

text \<open>The row that an event makes when it is the first of its run.\<close>

definition event_row :: "run_event \<Rightarrow> string \<Rightarrow> stamp \<Rightarrow> auto_run" where
  "event_row e sha s =
     (let started = (ev_phase e = ''STARTED''); final = (ev_phase e = ''FINAL'') in
      \<lparr>au_task_name = ev_task_name e, au_run_id = ev_run_id e, au_principal = None, au_invocation_key = None,
       au_scheduled_for = ev_scheduled_for e, au_started_at = (if started then Some (ev_occurred_at e) else None),
       au_finished_at = (if final then Some (ev_occurred_at e) else None),
       au_outcome = (if final then Some (ev_status e) else None),
       au_fresh_delta_count = (if final then ev_fresh_delta_count e else None), au_notification_intended = None,
       au_notification_sent_legacy = (if final then ev_notification_sent e else None),
       au_reason = (if final then coalesce (ev_blocker_code e) (ev_safe_summary e) else None),
       au_prompt_version = ev_prompt_version e, au_collector_build_sha = st_build_sha s,
       au_cloudflare_version_id = st_version_id s, au_source_contract = Legacy_Event_V1,
       au_legacy_trace_id = ev_trace_id e, au_legacy_started_sha256 = (if started then Some sha else None),
       au_legacy_final_sha256 = (if final then Some sha else None), au_final_payload_sha256 = None,
       au_created_at = st_now s, au_updated_at = st_now s\<rparr>)"

section \<open>Migration of the first contract\<close>

text \<open>\<open>MAX\<close> and \<open>MIN\<close> of the values that are not NULL.\<close>

definition sql_max_of :: "('a::linorder) option list \<Rightarrow> 'a option" where
  "sql_max_of xs = (case List.map_filter id xs of [] \<Rightarrow> None | y # ys \<Rightarrow> Some (foldl max y ys))"

definition sql_min_of :: "('a::linorder) list \<Rightarrow> 'a option" where
  "sql_min_of xs = (case xs of [] \<Rightarrow> None | y # ys \<Rightarrow> Some (foldl min y ys))"

definition phase_max :: "string \<Rightarrow> (legacy_event \<Rightarrow> ('a::linorder) option) \<Rightarrow> legacy_event list \<Rightarrow> 'a option" where
  "phase_max phase column es = sql_max_of (map (\<lambda>e. if lg_phase e = phase then column e else None) es)"

definition final_or_started :: "(legacy_event \<Rightarrow> string option) \<Rightarrow> legacy_event list \<Rightarrow> string option" where
  "final_or_started column es = coalesce (phase_max ''FINAL'' column es) (phase_max ''STARTED'' column es)"

text \<open>The row of the events of one run.\<close>

definition migrated_row :: "string \<times> string \<Rightarrow> legacy_event list \<Rightarrow> auto_run" where
  "migrated_row key es =
     \<lparr>au_task_name = fst key, au_run_id = snd key, au_principal = None, au_invocation_key = None,
      au_scheduled_for = sql_max_of (map lg_scheduled_for es),
      au_started_at = phase_max ''STARTED'' (\<lambda>e. Some (lg_occurred_at e)) es,
      au_finished_at = phase_max ''FINAL'' (\<lambda>e. Some (lg_occurred_at e)) es,
      au_outcome = phase_max ''FINAL'' (\<lambda>e. Some (lg_status e)) es,
      au_fresh_delta_count = phase_max ''FINAL'' lg_fresh_delta_count es, au_notification_intended = None,
      au_notification_sent_legacy = phase_max ''FINAL'' lg_notification_sent es,
      au_reason = coalesce (phase_max ''FINAL'' lg_blocker_code es) (phase_max ''FINAL'' lg_safe_summary es),
      au_prompt_version = final_or_started lg_prompt_version es,
      au_collector_build_sha = final_or_started lg_collector_build_sha es,
      au_cloudflare_version_id = final_or_started lg_cloudflare_version_id es,
      au_source_contract = Legacy_Event_V1, au_legacy_trace_id = final_or_started lg_trace_id es,
      au_legacy_started_sha256 = phase_max ''STARTED'' (\<lambda>e. Some (lg_payload_sha256 e)) es,
      au_legacy_final_sha256 = phase_max ''FINAL'' (\<lambda>e. Some (lg_payload_sha256 e)) es,
      au_final_payload_sha256 = None,
      au_created_at = (case sql_min_of (map lg_created_at es) of None \<Rightarrow> '''' | Some s \<Rightarrow> s),
      au_updated_at = (case sql_max_of (map (\<lambda>e. Some (lg_created_at e)) es) of None \<Rightarrow> '''' | Some s \<Rightarrow> s)\<rparr>"

definition legacy_key :: "legacy_event \<Rightarrow> string \<times> string" where
  "legacy_key e = (lg_task_name e, lg_run_id e)"

text \<open>\<open>INSERT OR IGNORE ... SELECT ... GROUP BY task_name, run_id\<close>\<close>

definition migrate_legacy :: "legacy_event list \<Rightarrow> auto_runs \<Rightarrow> auto_runs" where
  "migrate_legacy es t =
     fold (\<lambda>key u. fst (insert_or_ignore (migrated_row key (filter (\<lambda>e. legacy_key e = key) es)) u))
       (remdups (map legacy_key es)) t"

text \<open>A worker does this once; done again, it changes nothing (\<open>ensure_again\<close>).\<close>

definition ensureAutomationRunsTable :: "auto_db \<Rightarrow> auto_runs" where
  "ensureAutomationRunsTable db =
     (let t = (case ad_runs db of None \<Rightarrow> [] | Some t \<Rightarrow> t) in
      case ad_legacy db of None \<Rightarrow> t | Some es \<Rightarrow> migrate_legacy es t)"

section \<open>Validation\<close>

text \<open>\<open>z.union([.., z.null()]).optional()\<close>: an absent property is null afterwards.\<close>

definition optional_text :: "nat \<Rightarrow> jsval option \<Rightarrow> string option option" where
  "optional_text hi v = (case v of None \<Rightarrow> Some None | Some _ \<Rightarrow> z_text_or_null 1 hi v)"

definition count_of :: "int \<Rightarrow> jsval option \<Rightarrow> int option" where
  "count_of hi v =
     (case as_finite v of None \<Rightarrow> None | Some q \<Rightarrow> if is_integer q \<and> 0 \<le> q \<and> q \<le> of_int hi then Some \<lfloor>q\<rfloor> else None)"

definition optional_null :: "(jsval option \<Rightarrow> 'a option) \<Rightarrow> jsval option \<Rightarrow> 'a option option" where
  "optional_null schema v = (if v = None \<or> v = Some JNull then Some None else map_option Some (schema v))"

definition AUTOMATION_RUN_PHASES :: "string list" where
  "AUTOMATION_RUN_PHASES = [''STARTED'', ''FINAL'']"

definition AUTOMATION_RUN_STATUSES :: "string list" where
  "AUTOMATION_RUN_STATUSES = [''STARTED'', ''COMPLETED'', ''SILENT'', ''BLOCKED'', ''FAILED'']"

definition AUTOMATION_RUN_OUTCOMES :: "string list" where
  "AUTOMATION_RUN_OUTCOMES = [''COMPLETED'', ''SILENT'', ''BLOCKED'', ''FAILED'']"

text \<open>\<open>/^[A-Za-z0-9:._-]+$/\<close>\<close>

definition is_run_id :: "string \<Rightarrow> bool" where
  "is_run_id s \<longleftrightarrow> s \<noteq> '''' \<and> list_all (\<lambda>c. c \<in> set
     ''ABCDEFGHIJKLMNOPQRSTUVWXYZabcdefghijklmnopqrstuvwxyz0123456789:._-'') s"

definition EVENT_INPUT_KEYS :: "string list" where
  "EVENT_INPUT_KEYS = [''task_name'', ''run_id'', ''phase'', ''status'', ''scheduled_for'', ''occurred_at'',
     ''notification_sent'', ''fresh_delta_count'', ''blocker_code'', ''trace_id'', ''prompt_version'', ''safe_summary'']"

definition AUTOMATION_RUN_EVENT_INPUT_SCHEMA :: "jsval \<Rightarrow> run_event option" where
  "AUTOMATION_RUN_EVENT_INPUT_SCHEMA v =
     do { ob \<leftarrow> z_strict EVENT_INPUT_KEYS (Some v);
          task \<leftarrow> z_text 1 128 (fld ob ''task_name'');
          run \<leftarrow> filter_option is_run_id (z_text 8 192 (fld ob ''run_id''));
          phase \<leftarrow> z_enum AUTOMATION_RUN_PHASES (fld ob ''phase'');
          status \<leftarrow> z_enum AUTOMATION_RUN_STATUSES (fld ob ''status'');
          scheduled \<leftarrow> optional_text 128 (fld ob ''scheduled_for'');
          occurred \<leftarrow> z_text 1 128 (fld ob ''occurred_at'');
          sent \<leftarrow> optional_null as_bool (fld ob ''notification_sent'');
          fresh \<leftarrow> optional_null (count_of 10000) (fld ob ''fresh_delta_count'');
          blocker \<leftarrow> optional_text 128 (fld ob ''blocker_code'');
          trace \<leftarrow> optional_text 128 (fld ob ''trace_id'');
          prompt \<leftarrow> optional_text 256 (fld ob ''prompt_version'');
          summary \<leftarrow> optional_text 1200 (fld ob ''safe_summary'');
          Some \<lparr>ev_task_name = task, ev_run_id = run, ev_phase = phase, ev_status = status, ev_scheduled_for = scheduled,
            ev_occurred_at = occurred, ev_notification_sent = sent, ev_fresh_delta_count = fresh,
            ev_blocker_code = blocker, ev_trace_id = trace, ev_prompt_version = prompt, ev_safe_summary = summary\<rparr> }"

definition validIso :: "(string \<Rightarrow> int option) \<Rightarrow> string option \<Rightarrow> bool" where
  "validIso lp v \<longleftrightarrow> (case v of None \<Rightarrow> True | Some s \<Rightarrow> date_parse lp s \<noteq> None)"

definition invalid_run :: "string \<Rightarrow> string option \<Rightarrow> auto_error" where
  "invalid_run m requestId = auto_error_of AUTOMATION_RUN_VALIDATION_FAILED m None requestId"

text \<open>The list of the issues of the schema, which the first message ends with, is left out here and below.\<close>

definition parseLegacyEvent :: "(string \<Rightarrow> int option) \<Rightarrow> jsval \<Rightarrow> auto_error + run_event" where
  "parseLegacyEvent lp v =
     (case AUTOMATION_RUN_EVENT_INPUT_SCHEMA v of
        None \<Rightarrow> Inl (invalid_run ''automation run event does not match exact schema'' None)
      | Some e \<Rightarrow>
          bindE (throw_if
            ([(\<not> validIso lp (Some (ev_occurred_at e)) \<or> \<not> validIso lp (ev_scheduled_for e),
               invalid_run ''automation run timestamps must be valid ISO date-times'' None)]
             @ (if ev_phase e = ''STARTED'' then
                 [(ev_status e \<noteq> ''STARTED'', invalid_run ''STARTED phase requires status=STARTED'' None),
                  (ev_notification_sent e \<noteq> None \<or> ev_fresh_delta_count e \<noteq> None \<or> ev_blocker_code e \<noteq> None,
                   invalid_run ''STARTED phase cannot declare final outcome fields'' None)]
                else
                 [(ev_status e = ''STARTED'', invalid_run ''FINAL phase requires a terminal status'' None),
                  (ev_notification_sent e = None, invalid_run ''FINAL phase requires notification_sent'' None),
                  (ev_fresh_delta_count e = None, invalid_run ''FINAL phase requires fresh_delta_count'' None),
                  ((ev_status e = ''BLOCKED'' \<or> ev_status e = ''FAILED'') \<and> ev_blocker_code e = None,
                   invalid_run ''BLOCKED/FAILED final status requires blocker_code'' None),
                  (ev_safe_summary e = None, invalid_run ''FINAL phase requires safe_summary'' None)])))
            (\<lambda>_. Inr e))"

record begin_input =
  bg_task :: string
  bg_invocation_key :: "string option"
  bg_prompt_version :: "string option"

definition parseBegin :: "jsval \<Rightarrow> auto_error + begin_input" where
  "parseBegin v =
     (case do { ob \<leftarrow> as_record v;
                task \<leftarrow> z_enum AUTOMATION_REGISTRY_KEYS (fld ob ''task'');
                key \<leftarrow> optional_text 192 (fld ob ''invocation_key'');
                prompt \<leftarrow> optional_text 256 (fld ob ''prompt_version'');
                Some \<lparr>bg_task = task, bg_invocation_key = key, bg_prompt_version = prompt\<rparr> } of
        None \<Rightarrow> Inl (invalid_run ''begin_run does not match schema'' None)
      | Some b \<Rightarrow> Inr b)"

record end_input =
  en_run_id :: string
  en_outcome :: string
  en_fresh_delta_count :: int
  en_notification_intended :: bool
  en_reason :: "string option"

definition parseEnd :: "jsval \<Rightarrow> auto_error + end_input" where
  "parseEnd v =
     (case do { ob \<leftarrow> as_record v;
                run \<leftarrow> z_text 8 192 (fld ob ''run_id'');
                outcome \<leftarrow> z_enum AUTOMATION_RUN_OUTCOMES (fld ob ''outcome'');
                fresh \<leftarrow> count_of 10000 (fld ob ''fresh_delta_count'');
                intended \<leftarrow> as_bool (fld ob ''notification_intended'');
                reason \<leftarrow> optional_text 1200 (fld ob ''reason'');
                Some \<lparr>en_run_id = run, en_outcome = outcome, en_fresh_delta_count = fresh,
                  en_notification_intended = intended, en_reason = reason\<rparr> } of
        None \<Rightarrow> Inl (invalid_run ''end_run does not match schema'' None)
      | Some e \<Rightarrow> Inr e)"

section \<open>Begin and end of a run\<close>

text \<open>What other workers do to the table between the first read and the write, and before the last read.\<close>

record auto_others =
  ao_before_write :: "auto_runs \<Rightarrow> auto_runs"
  ao_before_read :: "auto_runs \<Rightarrow> auto_runs"

record run_call =
  rc_now :: string
  rc_request_id :: string
  rc_build_sha :: "string option"
  rc_version_id :: "string option"

record run_answer =
  ra_status :: string
  ra_run_id :: string
  ra_task_name :: string
  ra_outcome :: "string option"

definition run_unavailable :: "string \<Rightarrow> string \<Rightarrow> auto_error" where
  "run_unavailable m requestId = auto_error_of AUTOMATION_RUN_UNAVAILABLE m (Some True) (Some requestId)"

definition run_conflict :: "string \<Rightarrow> string \<Rightarrow> auto_error" where
  "run_conflict m requestId = auto_error_of AUTOMATION_RUN_CONFLICT m None (Some requestId)"

definition begun_row :: "begin_input \<Rightarrow> string \<Rightarrow> string \<Rightarrow> run_call \<Rightarrow> auto_run" where
  "begun_row b runId who call =
     \<lparr>au_task_name = bg_task b, au_run_id = runId, au_principal = Some who,
      au_invocation_key = bg_invocation_key b, au_scheduled_for = None, au_started_at = Some (rc_now call),
      au_finished_at = None, au_outcome = None, au_fresh_delta_count = None, au_notification_intended = None,
      au_notification_sent_legacy = None, au_reason = None, au_prompt_version = bg_prompt_version b,
      au_collector_build_sha = rc_build_sha call, au_cloudflare_version_id = rc_version_id call,
      au_source_contract = Run_V2, au_legacy_trace_id = None, au_legacy_started_sha256 = None,
      au_legacy_final_sha256 = None, au_final_payload_sha256 = None, au_created_at = rc_now call,
      au_updated_at = rc_now call\<rparr>"

definition invocation_of :: "auto_runs \<Rightarrow> string \<Rightarrow> begin_input \<Rightarrow> auto_run option" where
  "invocation_of t who b =
     (case bg_invocation_key b of None \<Rightarrow> None | Some k \<Rightarrow> find_invocation t who (bg_task b) k)"

definition begun_before :: "auto_run \<Rightarrow> run_answer" where
  "begun_before r =
     \<lparr>ra_status = ''IDEMPOTENT_REPLAY'', ra_run_id = au_run_id r, ra_task_name = au_task_name r, ra_outcome = None\<rparr>"

text \<open>\<open>newRunId\<close> is the random id of the call.\<close>

definition beginAutomationRun ::
  "(string \<Rightarrow> int option) \<Rightarrow> auto_others \<Rightarrow> jsval \<Rightarrow> string \<Rightarrow> string \<Rightarrow> run_call \<Rightarrow> auto_db \<Rightarrow> auto_db \<times> (auto_error + run_answer)" where
  "beginAutomationRun lp others v who newRunId call db =
     (case parseBegin v of
        Inl e \<Rightarrow> (db, Inl e)
      | Inr b \<Rightarrow>
      if \<not> validIso lp (Some (rc_now call))
      then (db, Inl (invalid_run ''server run timestamp is invalid'' (Some (rc_request_id call))))
      else
      (let t = ensureAutomationRunsTable db in
       case invocation_of t who b of
         Some r \<Rightarrow> (db\<lparr>ad_runs := Some t\<rparr>, Inr (begun_before r))
       | None \<Rightarrow>
       (case insert_or_ignore (begun_row b newRunId who call) (ao_before_write others t) of
          (t1, True) \<Rightarrow> (db\<lparr>ad_runs := Some t1\<rparr>,
             Inr \<lparr>ra_status = ''RECORDED'', ra_run_id = newRunId, ra_task_name = bg_task b, ra_outcome = None\<rparr>)
        | (t1, False) \<Rightarrow>
            (let t2 = ao_before_read others t1 in
             (db\<lparr>ad_runs := Some t2\<rparr>,
              case invocation_of t2 who b of
                Some r \<Rightarrow> Inr (begun_before r)
              | None \<Rightarrow> Inl (run_unavailable ''begin_run insert/read failed'' (rc_request_id call)))))))"

definition final_payload :: "end_input \<Rightarrow> jsval" where
  "final_payload e = JObj
     [(''outcome'', JStr (en_outcome e)), (''fresh_delta_count'', JInt (en_fresh_delta_count e)),
      (''notification_intended'', JBool (en_notification_intended e)), (''reason'', or_null (en_reason e))]"

definition end_of :: "(jsval \<Rightarrow> string) \<Rightarrow> end_input \<Rightarrow> string \<Rightarrow> end_update" where
  "end_of sha e now =
     \<lparr>eu_outcome = en_outcome e, eu_fresh_delta_count = en_fresh_delta_count e,
      eu_notification_intended = en_notification_intended e, eu_reason = en_reason e,
      eu_final_payload_sha256 = sha256Hex sha (final_payload e), eu_now = now\<rparr>"

definition ended :: "string \<Rightarrow> auto_run \<Rightarrow> run_answer" where
  "ended status r = \<lparr>ra_status = status, ra_run_id = au_run_id r, ra_task_name = au_task_name r, ra_outcome = au_outcome r\<rparr>"

text \<open>An empty hash is no hash.\<close>

definition hash_set :: "string option \<Rightarrow> bool" where
  "hash_set h \<longleftrightarrow> h \<noteq> None \<and> h \<noteq> Some ''''"

definition endAutomationRun ::
  "(jsval \<Rightarrow> string) \<Rightarrow> auto_others \<Rightarrow> jsval \<Rightarrow> run_call \<Rightarrow> auto_db \<Rightarrow> auto_db \<times> (auto_error + run_answer)" where
  "endAutomationRun sha others v call db =
     (case parseEnd v of
        Inl e \<Rightarrow> (db, Inl e)
      | Inr e \<Rightarrow>
      (let finalHash = sha256Hex sha (final_payload e);
           different = run_conflict ''run already has a different terminal outcome'' (rc_request_id call);
           t = ensureAutomationRunsTable db;
           db1 = db\<lparr>ad_runs := Some t\<rparr> in
       case filter (\<lambda>r. au_run_id r = en_run_id e \<and> au_source_contract r = Run_V2) t of
         [] \<Rightarrow> (db1, Inl (auto_error_of AUTOMATION_RUN_NOT_FOUND ''run_id was not found'' None (Some (rc_request_id call))))
       | [existing] \<Rightarrow>
           if hash_set (au_final_payload_sha256 existing) then
             (db1, if au_final_payload_sha256 existing \<noteq> Some finalHash then Inl different
                   else Inr (ended ''IDEMPOTENT_REPLAY'' existing))
           else
             (let t1 = end_statement (au_task_name existing) (au_run_id existing) (end_of sha e (rc_now call)) (ao_before_write others t);
                  t2 = ao_before_read others t1 in
              (db\<lparr>ad_runs := Some t2\<rparr>,
               case find_run t2 (au_task_name existing) (au_run_id existing) of
                 None \<Rightarrow> Inl (run_unavailable ''end_run update/read failed'' (rc_request_id call))
               | Some finished \<Rightarrow>
                   if \<not> hash_set (au_final_payload_sha256 finished)
                   then Inl (run_unavailable ''end_run update/read failed'' (rc_request_id call))
                   else if au_final_payload_sha256 finished \<noteq> Some finalHash then Inl different
                   else Inr (ended ''RECORDED'' finished)))
       | _ \<Rightarrow> (db1, Inl (run_conflict ''run_id is not unique'' (rc_request_id call)))))"

section \<open>Events of the first contract\<close>

definition null_or :: "('a \<Rightarrow> jsval) \<Rightarrow> 'a option \<Rightarrow> jsval" where
  "null_or f x = (case x of None \<Rightarrow> JNull | Some y \<Rightarrow> f y)"

definition caller_payload :: "run_event \<Rightarrow> jsval" where
  "caller_payload e = JObj
     [(''task_name'', JStr (ev_task_name e)), (''run_id'', JStr (ev_run_id e)), (''phase'', JStr (ev_phase e)),
      (''status'', JStr (ev_status e)), (''scheduled_for'', or_null (ev_scheduled_for e)),
      (''occurred_at'', JStr (ev_occurred_at e)), (''notification_sent'', null_or JBool (ev_notification_sent e)),
      (''fresh_delta_count'', null_or JInt (ev_fresh_delta_count e)), (''blocker_code'', or_null (ev_blocker_code e)),
      (''trace_id'', or_null (ev_trace_id e)), (''prompt_version'', or_null (ev_prompt_version e)),
      (''safe_summary'', or_null (ev_safe_summary e))]"

record event_answer =
  ea_status :: string
  ea_task_name :: string
  ea_run_id :: string
  ea_phase :: string
  ea_event_status :: string
  ea_payload_sha256 :: string

definition event_answer_of :: "string \<Rightarrow> run_event \<Rightarrow> string \<Rightarrow> event_answer" where
  "event_answer_of status e sha =
     \<lparr>ea_status = status, ea_task_name = ev_task_name e, ea_run_id = ev_run_id e, ea_phase = ev_phase e,
      ea_event_status = ev_status e, ea_payload_sha256 = sha\<rparr>"

text \<open>The write of an event: the rows after it, and whether it changed any.\<close>

definition write_event :: "run_event \<Rightarrow> string \<Rightarrow> stamp \<Rightarrow> auto_run option \<Rightarrow> auto_runs \<Rightarrow> auto_runs \<times> bool" where
  "write_event e sha s existing t =
     (case existing of
        None \<Rightarrow> insert_or_ignore (event_row e sha s) t
      | Some _ \<Rightarrow> (event_statement e sha s t,
          list_ex (\<lambda>r. au_task_name r = ev_task_name e \<and> au_run_id r = ev_run_id e
            \<and> au_source_contract r = Legacy_Event_V1 \<and> event_hash (ev_phase e) r = None) t))"

definition recordAutomationRunEvent ::
  "(string \<Rightarrow> int option) \<Rightarrow> (jsval \<Rightarrow> string) \<Rightarrow> auto_others \<Rightarrow> jsval \<Rightarrow> run_call \<Rightarrow> auto_db
   \<Rightarrow> auto_db \<times> (auto_error + event_answer)" where
  "recordAutomationRunEvent lp sha others v call db =
     (case parseLegacyEvent lp v of
        Inl e \<Rightarrow> (db, Inl e)
      | Inr e \<Rightarrow>
      (let payloadSha256 = sha256Hex sha (caller_payload e);
           different = run_conflict ''automation run event key already exists with different payload'' (rc_request_id call);
           t = ensureAutomationRunsTable db;
           existing = find_run t (ev_task_name e) (ev_run_id e);
           hashField = Option.bind existing (event_hash (ev_phase e));
           db1 = db\<lparr>ad_runs := Some t\<rparr> in
       if (case existing of None \<Rightarrow> False | Some r \<Rightarrow> au_source_contract r \<noteq> Legacy_Event_V1)
       then (db1, Inl (run_conflict ''legacy run key collides with a v2 run'' (rc_request_id call)))
       else if hash_set hashField then
            (db1, if hashField \<noteq> Some payloadSha256 then Inl different
                  else Inr (event_answer_of ''IDEMPOTENT_REPLAY'' e payloadSha256))
          else
            (case write_event e payloadSha256
                    \<lparr>st_build_sha = rc_build_sha call, st_version_id = rc_version_id call, st_now = rc_now call\<rparr>
                    existing (ao_before_write others t) of
               (t1, changed) \<Rightarrow>
                 (let t2 = ao_before_read others t1;
                      persisted = Option.bind (find_run t2 (ev_task_name e) (ev_run_id e)) (event_hash (ev_phase e)) in
                  (db\<lparr>ad_runs := Some t2\<rparr>,
                   if persisted = Some payloadSha256
                   then Inr (event_answer_of (if changed then ''RECORDED'' else ''IDEMPOTENT_REPLAY'') e payloadSha256)
                   else if hash_set persisted then Inl different
                   else Inl (run_unavailable ''automation run event insert/read failed'' (rc_request_id call)))))))"

section \<open>History\<close>

definition HISTORY_READ_CAP :: nat where
  "HISTORY_READ_CAP = 1000"

definition timeKeyMs :: "(string \<Rightarrow> int option) \<Rightarrow> string option \<Rightarrow> int" where
  "timeKeyMs lp v =
     (case v of
        None \<Rightarrow> 0
      | Some s \<Rightarrow> if s = '''' then 0 else (case date_parse lp s of None \<Rightarrow> 0 | Some ms \<Rightarrow> ms))"

definition starts_with :: "string \<Rightarrow> string \<Rightarrow> bool" where
  "starts_with p s \<longleftrightarrow> take (length p) s = p"

definition receiptPromptVersion :: "run_row \<Rightarrow> string option" where
  "receiptPromptVersion row =
     (if \<not> starts_with ''E:MARKET:'' (rr_envelope_key row) then None else filter_option is_commit (rr_prompt_version row))"

text \<open>A row of the answer. The columns only one of the contracts has are optional; those that are null or
  constant for both are left out.\<close>

record history_row =
  hr_task_name :: string
  hr_run_id :: string
  hr_scheduled_for :: "string option"
  hr_started_at :: "string option"
  hr_finished_at :: "string option"
  hr_received_at :: "string option"
  hr_effective_status :: string
  hr_final_recorded :: bool
  hr_result_semantics :: string
  hr_notification_sent :: "bool option"
  hr_notification_intended :: "bool option"
  hr_notification_required :: "bool option"
  hr_notification_semantics :: string
  hr_fresh_delta_count :: "int option"
  hr_fresh_delta_semantics :: string
  hr_event_count :: "int option"
  hr_blocker_code :: "string option"
  hr_trace_id :: "string option"
  hr_collector_build_sha :: "string option"
  hr_cloudflare_version_id :: "string option"
  hr_prompt_version :: "string option"
  hr_safe_summary :: "string option"
  hr_as_of :: "string option"
  hr_as_of_stale :: "bool option"
  hr_timeliness :: "timeliness option"
  hr_source_contract :: string

definition v2_row :: "auto_run \<Rightarrow> history_row" where
  "v2_row r =
     (let legacy = (au_source_contract r = Legacy_Event_V1) in
      \<lparr>hr_task_name = au_task_name r, hr_run_id = au_run_id r, hr_scheduled_for = au_scheduled_for r,
       hr_started_at = au_started_at r, hr_finished_at = au_finished_at r, hr_received_at = None,
       hr_effective_status = (case au_outcome r of None \<Rightarrow> ''IN_PROGRESS'' | Some o' \<Rightarrow> o'),
       hr_final_recorded = (au_outcome r \<noteq> None),
       hr_result_semantics = (if au_outcome r = None then ''RESULT_UNKNOWN'' else ''TERMINAL_RECORDED''),
       hr_notification_sent = (if legacy then au_notification_sent_legacy r else None),
       hr_notification_intended = (if legacy then None else au_notification_intended r),
       hr_notification_required = None,
       hr_notification_semantics = (if legacy then ''CALLER_REPORTED_SENT'' else ''INTENDED_ONLY''),
       hr_fresh_delta_count = au_fresh_delta_count r, hr_fresh_delta_semantics = ''CALLER_REPORTED'',
       hr_event_count = None,
       hr_blocker_code = (if au_outcome r = Some ''BLOCKED'' \<or> au_outcome r = Some ''FAILED'' then au_reason r else None),
       hr_trace_id = (if legacy then au_legacy_trace_id r else Some (au_run_id r)),
       hr_collector_build_sha = au_collector_build_sha r, hr_cloudflare_version_id = au_cloudflare_version_id r,
       hr_prompt_version = au_prompt_version r, hr_safe_summary = au_reason r, hr_as_of = None,
       hr_as_of_stale = None, hr_timeliness = None,
       hr_source_contract = (if legacy then ''legacy-event-v1'' else ''run-v2'')\<rparr>)"

fun show_outcome :: "run_outcome \<Rightarrow> string" where
  "show_outcome COMPLETED = ''COMPLETED''"
| "show_outcome SILENT = ''SILENT''"
| "show_outcome BLOCKED = ''BLOCKED''"
| "show_outcome RUN_FAILED = ''FAILED''"
| "show_outcome UNKNOWN = ''UNKNOWN''"

definition v3_row :: "(string \<Rightarrow> int option) \<Rightarrow> run_row \<Rightarrow> history_row" where
  "v3_row lp r =
     (let asOf = filter_option (\<lambda>s. s \<noteq> '''') (rr_as_of r);
          age = map_option (\<lambda>s. computeTimeliness lp (Some s) (date_parse lp (rr_received_at r))) asOf in
      \<lparr>hr_task_name = rr_task_name r, hr_run_id = rr_run_id r, hr_scheduled_for = None, hr_started_at = None,
       hr_finished_at = None, hr_received_at = Some (rr_received_at r),
       hr_effective_status = show_outcome (rr_outcome r), hr_final_recorded = (rr_outcome r \<noteq> UNKNOWN),
       hr_result_semantics = (if rr_outcome r = UNKNOWN then ''RESULT_UNKNOWN'' else ''TERMINAL_RECORDED''),
       hr_notification_sent = None, hr_notification_intended = None,
       hr_notification_required = Some (notifies (rr_fresh_delta_count r)),
       hr_notification_semantics = ''SERVER_DERIVED_FLOOR'', hr_fresh_delta_count = rr_fresh_delta_count r,
       hr_fresh_delta_semantics = ''SERVER_COUNTED'', hr_event_count = rr_event_count r,
       hr_blocker_code = (if rr_outcome r = BLOCKED \<or> rr_outcome r = RUN_FAILED then rr_blocker_code r else None),
       hr_trace_id = Some (rr_run_id r), hr_collector_build_sha = rr_collector_build_sha r,
       hr_cloudflare_version_id = rr_cloudflare_version_id r, hr_prompt_version = receiptPromptVersion r,
       hr_safe_summary = rr_summary r, hr_as_of = rr_as_of r, hr_as_of_stale = map_option (\<lambda>x. x = STALE) age,
       hr_timeliness = age, hr_source_contract = ''run-v3''\<rparr>)"

text \<open>\<open>ORDER BY ... DESC LIMIT n\<close> by a text column; rows with the same text stay in the order of the table.\<close>

definition sql_recent :: "('a \<Rightarrow> string) \<Rightarrow> nat \<Rightarrow> 'a list \<Rightarrow> 'a list" where
  "sql_recent column n rows =
     take n (sort_by (\<lambda>a b. if column b < column a then - 1 else if column a < column b then 1 else 0) rows)"

text \<open>\<open>COALESCE(finished_at, started_at, updated_at)\<close>\<close>

definition run_time :: "auto_run \<Rightarrow> string" where
  "run_time r = (case coalesce (au_finished_at r) (au_started_at r) of None \<Rightarrow> au_updated_at r | Some s \<Rightarrow> s)"

definition selected :: "string option \<Rightarrow> string option \<Rightarrow> string \<Rightarrow> string \<Rightarrow> bool" where
  "selected taskName since task time \<longleftrightarrow>
     (case taskName of None \<Rightarrow> True | Some n \<Rightarrow> task = n) \<and> (case since of None \<Rightarrow> True | Some s \<Rightarrow> s \<le> time)"

definition trimmed_or_none :: "string option \<Rightarrow> string option" where
  "trimmed_or_none v = filter_option (\<lambda>s. s \<noteq> '''') (map_option js_trim v)"

definition history_limit :: "int option \<Rightarrow> nat" where
  "history_limit limit = nat (max 1 (min 100 (case limit of None \<Rightarrow> 20 | Some n \<Rightarrow> n)))"

text \<open>The rows of both tables, each with its time, before the merge.\<close>

definition keyed_rows ::
  "(string \<Rightarrow> int option) \<Rightarrow> string option \<Rightarrow> string option \<Rightarrow> auto_runs \<Rightarrow> runs \<Rightarrow> (int \<times> history_row) list" where
  "keyed_rows lp taskName since v2 v3 =
     map (\<lambda>r. (timeKeyMs lp (coalesce (au_finished_at r) (au_started_at r)), v2_row r))
       (sql_recent run_time HISTORY_READ_CAP (filter (\<lambda>r. selected taskName since (au_task_name r) (run_time r)) v2))
     @ map (\<lambda>r. (timeKeyMs lp (Some (rr_received_at r)), v3_row lp r))
       (sql_recent rr_received_at HISTORY_READ_CAP
         (filter (\<lambda>r. selected taskName since (rr_task_name r) (rr_received_at r)) v3))"

definition by_time :: "int \<times> history_row \<Rightarrow> int \<times> history_row \<Rightarrow> int" where
  "by_time left right = fst right - fst left"

record history_query =
  hq_task_name :: "string option"
  hq_since :: "string option"
  hq_limit :: "int option"
  hq_now :: string
  hq_request_id :: string

record history =
  hi_task_name :: "string option"
  hi_since :: "string option"
  hi_runs :: "history_row list"

definition getAutomationRunHistory ::
  "(string \<Rightarrow> int option) \<Rightarrow> history_query \<Rightarrow> auto_db \<Rightarrow> runs option \<Rightarrow> auto_db \<times> runs option \<times> (auto_error + history)" where
  "getAutomationRunHistory lp q db envelopes =
     (let taskName = trimmed_or_none (hq_task_name q); since = trimmed_or_none (hq_since q) in
      if \<not> validIso lp since
      then (db, envelopes, Inl (invalid_run ''since must be a valid ISO date-time'' (Some (hq_request_id q))))
      else
      (let t = ensureAutomationRunsTable db; v3 = ensureRunEnvelopeTables envelopes in
       (db\<lparr>ad_runs := Some t\<rparr>, Some v3,
        if date_parse lp (hq_now q) = None
        then Inl (invalid_run ''server run timestamp is invalid'' (Some (hq_request_id q)))
        else Inr \<lparr>hi_task_name = taskName, hi_since = since,
          hi_runs = map snd (take (history_limit (hq_limit q)) (sort_by by_time (keyed_rows lp taskName since t v3)))\<rparr>)))"

section \<open>Interleaved statements\<close>

datatype auto_statement =
    Insert_Auto auto_run | Migrate "legacy_event list" | End_Auto string string end_update | Event_Auto run_event string stamp

fun auto_effect :: "auto_statement \<Rightarrow> auto_runs \<Rightarrow> auto_runs" where
  "auto_effect (Insert_Auto row) t = fst (insert_or_ignore row t)"
| "auto_effect (Migrate es) t = migrate_legacy es t"
| "auto_effect (End_Auto task runId u) t = end_statement task runId u t"
| "auto_effect (Event_Auto e sha s) t = event_statement e sha s t"

inductive auto_steps :: "auto_runs \<Rightarrow> auto_statement list \<Rightarrow> auto_runs \<Rightarrow> bool" where
  auto_nil: "auto_steps t [] t"
| auto_cons: "auto_steps (auto_effect s t) ss u \<Longrightarrow> auto_steps t (s # ss) u"

inductive_cases auto_consE: "auto_steps t (s # ss) u"

definition others_auto :: "auto_others \<Rightarrow> bool" where
  "others_auto others \<longleftrightarrow> (\<forall>t. (\<exists>ss. auto_steps t ss (ao_before_write others t)) \<and> (\<exists>ss. auto_steps t ss (ao_before_read others t)))"

section \<open>Facts: the table\<close>

definition auto_key :: "auto_run \<Rightarrow> string \<times> string" where "auto_key r = (au_task_name r, au_run_id r)"

definition invocation :: "auto_run \<Rightarrow> (string \<times> string \<times> string) option" where
  "invocation r = (case (au_principal r, au_invocation_key r) of (Some p, Some k) \<Rightarrow> Some (p, au_task_name r, k) | _ \<Rightarrow> None)"

text \<open>The primary key and the partial unique index.\<close>

definition auto_ok :: "auto_runs \<Rightarrow> bool" where
  "auto_ok t \<longleftrightarrow> distinct (map auto_key t) \<and> distinct (filter (\<lambda>i. i \<noteq> None) (map invocation t))"

text \<open>A run is settled by its terminal payload, a run of the first contract by its final event.\<close>

definition settled :: "auto_run \<Rightarrow> bool" where
  "settled r \<longleftrightarrow> (case au_source_contract r of Run_V2 \<Rightarrow> au_final_payload_sha256 r \<noteq> None
     | Legacy_Event_V1 \<Rightarrow> au_legacy_final_sha256 r \<noteq> None)"

definition result_of_run :: "auto_run \<Rightarrow> string option \<times> string option \<times> int option \<times> bool option \<times> bool option
    \<times> string option \<times> string option \<times> string option" where
  "result_of_run r = (au_outcome r, au_finished_at r, au_fresh_delta_count r, au_notification_intended r,
     au_notification_sent_legacy r, au_reason r, au_final_payload_sha256 r, au_legacy_final_sha256 r)"

definition evolves :: "auto_run \<Rightarrow> auto_run \<Rightarrow> bool" where
  "evolves r r' \<longleftrightarrow> auto_key r' = auto_key r \<and> invocation r' = invocation r \<and> au_source_contract r' = au_source_contract r
     \<and> au_created_at r' = au_created_at r
     \<and> (au_started_at r \<noteq> None \<longrightarrow> au_started_at r' = au_started_at r)
     \<and> (\<forall>phase. event_hash phase r \<noteq> None \<longrightarrow> event_hash phase r' = event_hash phase r)
     \<and> (settled r \<longrightarrow> result_of_run r' = result_of_run r)"

lemma evolves_refl [simp]: "evolves r r"
  by (simp add: evolves_def)

lemma evolves_settled: "evolves r r' \<Longrightarrow> settled r \<Longrightarrow> settled r'"
  by (auto simp: evolves_def settled_def result_of_run_def split: source_contract.splits)

lemma evolves_trans: "evolves r r' \<Longrightarrow> evolves r' r'' \<Longrightarrow> evolves r r''"
  using evolves_settled [of r r'] by (auto simp: evolves_def)

lemma end_evolves: "au_source_contract r = Run_V2 \<Longrightarrow> au_final_payload_sha256 r = None \<Longrightarrow> evolves r (set_end u r)"
  by (simp add: evolves_def set_end_def auto_key_def invocation_def settled_def event_hash_def split: option.split)

lemma event_evolves:
  assumes "au_source_contract r = Legacy_Event_V1" "event_hash (ev_phase e) r = None"
  shows "evolves r (if ev_phase e = ''STARTED'' then set_started e sha s r else set_final e sha s r)"
  using assms
  by (auto simp: evolves_def set_started_def set_final_def auto_key_def invocation_def settled_def result_of_run_def
      coalesce_def event_hash_def split: option.split)

definition end_row :: "string \<Rightarrow> string \<Rightarrow> end_update \<Rightarrow> auto_run \<Rightarrow> auto_run" where
  "end_row task runId u r = (if au_task_name r = task \<and> au_run_id r = runId \<and> au_source_contract r = Run_V2
     \<and> au_final_payload_sha256 r = None then set_end u r else r)"

definition event_update :: "run_event \<Rightarrow> string \<Rightarrow> stamp \<Rightarrow> auto_run \<Rightarrow> auto_run" where
  "event_update e sha s r = (if au_task_name r = ev_task_name e \<and> au_run_id r = ev_run_id e \<and> au_source_contract r = Legacy_Event_V1
     \<and> event_hash (ev_phase e) r = None
     then (if ev_phase e = ''STARTED'' then set_started e sha s r else set_final e sha s r) else r)"

lemma updates_as_map:
  "end_statement task runId u t = map (end_row task runId u) t" "event_statement e sha s t = map (event_update e sha s) t"
  by (simp_all add: end_statement_def event_statement_def end_row_def [abs_def] event_update_def [abs_def])

lemma updates_evolve: "evolves r (end_row task runId u r)" "evolves r (event_update e sha s r)"
proof -
  show "evolves r (end_row task runId u r)" by (simp add: end_row_def end_evolves)
  show "evolves r (event_update e sha s r)"
  proof (cases "au_task_name r = ev_task_name e \<and> au_run_id r = ev_run_id e \<and> au_source_contract r = Legacy_Event_V1
      \<and> event_hash (ev_phase e) r = None")
    case True
    then show ?thesis using event_evolves [of r e sha s] by (simp add: event_update_def)
  next
    case False
    then show ?thesis unfolding event_update_def if_not_P [OF False] by simp
  qed
qed

lemma evolves_key: "evolves r r' \<Longrightarrow> auto_key r' = auto_key r" "evolves r r' \<Longrightarrow> invocation r' = invocation r"
  by (simp_all add: evolves_def)

lemma find_key: "find_run t task runId = find (\<lambda>r. auto_key r = (task, runId)) t"
  by (simp add: find_run_def auto_key_def)

lemma find_invocation_eq: "find_invocation t who task key = find (\<lambda>r. invocation r = Some (who, task, key)) t"
proof -
  have "(au_principal r = Some who \<and> au_task_name r = task \<and> au_invocation_key r = Some key)
      = (invocation r = Some (who, task, key))" for r
    by (auto simp: invocation_def split: option.splits)
  then show ?thesis by (simp add: find_invocation_def)
qed

text \<open>An update of the rows that only lets them evolve.\<close>

lemma evolve_map:
  assumes f: "\<And>r. evolves r (f r)"
  shows "auto_ok t \<Longrightarrow> auto_ok (map f t)"
    and "find_run (map f t) task runId = map_option f (find_run t task runId)"
    and "find_invocation (map f t) who task key = map_option f (find_invocation t who task key)"
proof -
  have k: "map auto_key (map f t) = map auto_key t" using f by (simp add: evolves_def)
  have i: "map invocation (map f t) = map invocation t" using f by (simp add: evolves_def)
  show "auto_ok t \<Longrightarrow> auto_ok (map f t)" unfolding auto_ok_def k i .
  show "find_run (map f t) task runId = map_option f (find_run t task runId)"
    unfolding find_key using evolves_key(1) [OF f] by (induction t) simp_all
  show "find_invocation (map f t) who task key = map_option f (find_invocation t who task key)"
    unfolding find_invocation_eq using evolves_key(2) [OF f] by (induction t) simp_all
qed

lemma find_auto_append: "find P (xs @ ys) = (case find P xs of None \<Rightarrow> find P ys | Some x \<Rightarrow> Some x)"
  by (induction xs) simp_all

text \<open>An insert adds a row at the end or does nothing.\<close>

lemma same_key_iff: "same_run_key row r \<longleftrightarrow> auto_key r = auto_key row"
  by (auto simp: same_run_key_def auto_key_def)

lemma same_invocation_iff: "same_invocation row r \<longleftrightarrow> invocation row \<noteq> None \<and> invocation r = invocation row"
  by (auto simp: same_invocation_def invocation_def split: option.splits)

lemma insert_auto_cases:
  obtains (added) "insert_or_ignore row t = (t @ [row], True)" "auto_key row \<notin> auto_key ` set t"
      "\<forall>i. invocation row = Some i \<longrightarrow> Some i \<notin> invocation ` set t" "row_checks row"
  | (ignored) "insert_or_ignore row t = (t, False)" "\<not> row_checks row \<or> auto_key row \<in> auto_key ` set t
      \<or> (invocation row \<noteq> None \<and> invocation row \<in> invocation ` set t)"
proof (cases "row_checks row \<and> \<not> list_ex (same_run_key row) t \<and> \<not> list_ex (same_invocation row) t")
  case True
  then show ?thesis
    by (intro added) (auto simp: insert_or_ignore_def list_ex_iff same_key_iff same_invocation_iff)
next
  case False
  have "\<not> row_checks row \<or> auto_key row \<in> auto_key ` set t \<or> (invocation row \<noteq> None \<and> invocation row \<in> invocation ` set t)"
    using False unfolding list_ex_iff same_key_iff same_invocation_iff by (metis imageI)
  then show ?thesis using False by (intro ignored) (simp_all add: insert_or_ignore_def)
qed

lemma insert_auto:
  assumes "insert_or_ignore row t = (u, new)"
  shows "auto_ok t \<Longrightarrow> auto_ok u" "find_run t task runId = Some r \<Longrightarrow> find_run u task runId = Some r"
    "find_invocation t who task key = Some r \<Longrightarrow> find_invocation u who task key = Some r"
proof -
  show "find_run t task runId = Some r \<Longrightarrow> find_run u task runId = Some r"
    "find_invocation t who task key = Some r \<Longrightarrow> find_invocation u who task key = Some r"
    by (rule insert_auto_cases [of row t]; use assms in \<open>auto simp: find_run_def find_invocation_def find_auto_append\<close>)+
  show "auto_ok t \<Longrightarrow> auto_ok u"
  proof (rule insert_auto_cases [of row t])
    assume ok: "auto_ok t" and a: "insert_or_ignore row t = (t @ [row], True)" "auto_key row \<notin> auto_key ` set t"
      "\<forall>i. invocation row = Some i \<longrightarrow> Some i \<notin> invocation ` set t"
    show ?thesis
      using ok a assms by (cases "invocation row") (auto simp: auto_ok_def image_iff)
  qed (use assms in auto)
qed

definition kept :: "auto_runs \<Rightarrow> auto_runs \<Rightarrow> bool" where
  "kept t u \<longleftrightarrow> (auto_ok t \<longrightarrow> auto_ok u)
     \<and> (\<forall>task runId r. find_run t task runId = Some r \<longrightarrow> (\<exists>r'. find_run u task runId = Some r' \<and> evolves r r'))
     \<and> (\<forall>who task key r. find_invocation t who task key = Some r
          \<longrightarrow> (\<exists>r'. find_invocation u who task key = Some r' \<and> evolves r r'))"

lemma kept_refl [simp]: "kept t t"
  using evolves_refl by (auto simp: kept_def)

lemma kept_trans: "kept t u \<Longrightarrow> kept u v \<Longrightarrow> kept t v"
  unfolding kept_def by (meson evolves_trans)

lemma kept_run: "kept t u \<Longrightarrow> find_run t task runId = Some r \<Longrightarrow> \<exists>r'. find_run u task runId = Some r' \<and> evolves r r'"
  by (simp add: kept_def)

lemma kept_invocation:
  "kept t u \<Longrightarrow> find_invocation t who task key = Some r \<Longrightarrow> \<exists>r'. find_invocation u who task key = Some r' \<and> evolves r r'"
  by (simp add: kept_def)

lemma kept_map:
  assumes "\<And>r. evolves r (f r)"
  shows "kept t (map f t)"
  using evolve_map [of f, OF assms] assms by (auto simp: kept_def)

lemma kept_insert: "kept t (fst (insert_or_ignore row t))"
proof -
  obtain u new where i: "insert_or_ignore row t = (u, new)" by fastforce
  then show ?thesis using insert_auto [OF i] by (auto simp: kept_def)
qed

lemma kept_migrate: "kept t (migrate_legacy es t)"
proof -
  have "kept t (fold (\<lambda>key u. fst (insert_or_ignore (g key) u)) ks t)" for ks and g :: "string \<times> string \<Rightarrow> auto_run"
    by (induction ks arbitrary: t) (use kept_trans [OF kept_insert] in auto)
  then show ?thesis unfolding migrate_legacy_def .
qed

lemma kept_effect: "kept t (auto_effect s t)"
  by (cases s) (simp_all add: kept_insert kept_migrate updates_as_map kept_map updates_evolve)

lemma kept_steps: "auto_steps t ss u \<Longrightarrow> kept t u"
  by (induction rule: auto_steps.induct) (auto intro: kept_trans kept_effect)

lemma others_kept:
  assumes "others_auto others"
  shows "kept t (ao_before_write others t)" "kept t (ao_before_read others t)"
  using assms kept_steps unfolding others_auto_def by blast+

text \<open>The migration of the first contract, done again on whatever the workers have made of the table,
  changes nothing.\<close>

definition migrated_from :: "legacy_event list \<Rightarrow> auto_runs \<Rightarrow> bool" where
  "migrated_from es t \<longleftrightarrow> (\<forall>key \<in> legacy_key ` set es. key \<in> auto_key ` set t
     \<or> \<not> row_checks (migrated_row key (filter (\<lambda>e. legacy_key e = key) es)))"

lemma kept_keys: "kept t u \<Longrightarrow> auto_key ` set t \<subseteq> auto_key ` set u"
proof
  fix key assume k: "kept t u" "key \<in> auto_key ` set t"
  obtain task runId where key: "key = (task, runId)" by (cases key)
  then have "find_run t task runId \<noteq> None" using k(2) by (auto simp: find_key find_None_iff)
  then obtain r where "find_run t task runId = Some r" by blast
  then obtain r' where "find_run u task runId = Some r'" using kept_run [OF k(1)] by blast
  then have "r' \<in> set u" "auto_key r' = key" by (auto simp: key find_key find_Some_iff)
  then show "key \<in> auto_key ` set u" by blast
qed

lemma migrated_kept: "migrated_from es t \<Longrightarrow> kept t u \<Longrightarrow> migrated_from es u"
  using kept_keys by (fastforce simp: migrated_from_def)

lemma auto_key_migrated [simp]: "auto_key (migrated_row key es) = key" "invocation (migrated_row key es) = None"
  by (simp_all add: auto_key_def invocation_def migrated_row_def)

lemma migrate_migrates: "migrated_from es (migrate_legacy es t)"
proof -
  define g where "g key = migrated_row key (filter (\<lambda>e. legacy_key e = key) es)" for key
  have one: "key \<in> auto_key ` set (fst (insert_or_ignore (g key) u)) \<or> \<not> row_checks (g key)" for key u
    by (rule insert_auto_cases [of "g key" u]) (auto simp: g_def)
  have "\<forall>key \<in> set ks. key \<in> auto_key ` set (fold (\<lambda>key u. fst (insert_or_ignore (g key) u)) ks u) \<or> \<not> row_checks (g key)" for ks u
  proof (induction ks arbitrary: u)
    case (Cons k ks)
    have "kept (fst (insert_or_ignore (g k) u)) (fold (\<lambda>key u. fst (insert_or_ignore (g key) u)) ks (fst (insert_or_ignore (g k) u)))" 
      by (induction ks arbitrary: u rule: rev_induct) (auto intro: kept_trans kept_insert)
    then show ?case using Cons.IH one [of k u] kept_keys by fastforce
  qed simp
  from this [of "remdups (map legacy_key es)" t] show ?thesis
    by (auto simp: migrated_from_def migrate_legacy_def g_def [symmetric])
qed

lemma migrate_again: "migrated_from es t \<Longrightarrow> migrate_legacy es t = t"
proof -
  assume m: "migrated_from es t"
  have "fst (insert_or_ignore (migrated_row key (filter (\<lambda>e. legacy_key e = key) es)) t) = t" if "key \<in> legacy_key ` set es" for key
    by (rule insert_auto_cases [of "migrated_row key (filter (\<lambda>e. legacy_key e = key) es)" t])
      (use m that in \<open>auto simp: migrated_from_def\<close>)
  then have "fold (\<lambda>key u. fst (insert_or_ignore (migrated_row key (filter (\<lambda>e. legacy_key e = key) es)) u)) ks t = t"
    if "set ks \<subseteq> legacy_key ` set es" for ks
    using that by (induction ks) auto
  then show ?thesis by (simp add: migrate_legacy_def)
qed

lemma ensure_again:
  assumes "kept (ensureAutomationRunsTable db) u" "ad_legacy db' = ad_legacy db" "ad_runs db' = Some u"
  shows "ensureAutomationRunsTable db' = u"
proof (cases "ad_legacy db")
  case None
  then show ?thesis using assms by (simp add: ensureAutomationRunsTable_def)
next
  case (Some es)
  have "migrated_from es (ensureAutomationRunsTable db)" by (simp add: ensureAutomationRunsTable_def Some Let_def migrate_migrates)
  then have "migrate_legacy es u = u" using migrate_again migrated_kept assms(1) by blast
  then show ?thesis using assms by (simp add: ensureAutomationRunsTable_def Some)
qed

section \<open>Properties\<close>

text \<open>C25: the audit of a run is never rewritten: whatever begins, ends, events and migrations the workers
  interleave, the keys and the invocations stay unique, a run keeps its identity, contract and start,
  and once it is settled (its terminal payload or its final event is in) its outcome, counts, reason and
  hashes never change.\<close>

theorem run_results_final:
  assumes "auto_steps t ss u" "auto_ok t" "find_run t task runId = Some r"
  shows "auto_ok u \<and> (\<exists>r'. find_run u task runId = Some r' \<and> invocation r' = invocation r
    \<and> au_source_contract r' = au_source_contract r
    \<and> (au_started_at r \<noteq> None \<longrightarrow> au_started_at r' = au_started_at r)
    \<and> (settled r \<longrightarrow> settled r' \<and> result_of_run r' = result_of_run r))"
proof -
  have k: "kept t u" by (rule kept_steps [OF assms(1)])
  obtain r' where r': "find_run u task runId = Some r'" "evolves r r'" using kept_run [OF k assms(3)] by blast
  have "auto_ok u" using k assms(2) by (simp add: kept_def)
  moreover have "settled r \<longrightarrow> settled r'" using evolves_settled [OF r'(2)] by blast
  ultimately show ?thesis using r' by (auto simp: evolves_def)
qed

text \<open>C26: a begin is idempotent: after a begin with an invocation key was answered, and any statements of
  other workers, the same principal and task with that key are answered IDEMPOTENT_REPLAY with the run
  id of the first answer, and no second run is made.\<close>

theorem begin_then_replay:
  assumes "beginAutomationRun lp others v who newRunId call db = (db1, Inr a)"
    and "parseBegin v = Inr b" "bg_invocation_key b = Some key" "others_auto others" 
    and "auto_steps (ensureAutomationRunsTable db1) ss u" "ad_runs db2 = Some u" "ad_legacy db2 = ad_legacy db"
    and "parseBegin v' = Inr b'" "bg_task b' = bg_task b" "bg_invocation_key b' = Some key"
    and "validIso lp (Some (rc_now call'))"
  shows "beginAutomationRun lp others' v' who newRunId' call' db2 =
    (db2, Inr \<lparr>ra_status = ''IDEMPOTENT_REPLAY'', ra_run_id = ra_run_id a, ra_task_name = bg_task b, ra_outcome = None\<rparr>)"
proof -
  define t where "t = ensureAutomationRunsTable db"
  have e: "ad_legacy db1 = ad_legacy db \<and> (\<exists>t1 r. ad_runs db1 = Some t1 \<and> kept t t1
      \<and> find_invocation t1 who (bg_task b) key = Some r \<and> au_run_id r = ra_run_id a)"
  proof (cases "find_invocation t who (bg_task b) key")
    case (Some r)
    then show ?thesis
      using assms(1-3) by (auto simp: beginAutomationRun_def invocation_of_def Let_def t_def [symmetric] begun_before_def split: if_splits)
  next
    case None
    define row where "row = begun_row b newRunId who call"
    have i: "invocation row = Some (who, bg_task b, key)" by (simp add: row_def begun_row_def invocation_def assms(3))
    have k0: "kept t (ao_before_write others t)" by (rule others_kept [OF assms(4)])
    show ?thesis
    proof (rule insert_auto_cases [of row "ao_before_write others t"])
      assume a: "insert_or_ignore row (ao_before_write others t) = (ao_before_write others t @ [row], True)"
        "\<forall>i. invocation row = Some i \<longrightarrow> Some i \<notin> invocation ` set (ao_before_write others t)"
      have "find_invocation (ao_before_write others t) who (bg_task b) key = None"
        using a(2) i by (force simp: find_invocation_eq find_None_iff)
      then have "find_invocation (ao_before_write others t @ [row]) who (bg_task b) key = Some row"
        using i by (simp add: find_invocation_eq find_auto_append)
      moreover have "au_run_id row = newRunId" by (simp add: row_def begun_row_def)
      moreover have "kept t (ao_before_write others t @ [row])"
        using kept_trans [OF k0 kept_insert [of _ row]] a(1) by simp
      ultimately show ?thesis
        using assms(1-3) a(1) None
        by (auto simp: beginAutomationRun_def invocation_of_def Let_def t_def [symmetric] row_def [symmetric] split: if_splits)
    next
      assume a: "insert_or_ignore row (ao_before_write others t) = (ao_before_write others t, False)"
      have "kept t (ao_before_read others (ao_before_write others t))" by (rule kept_trans [OF k0 others_kept(2) [OF assms(4)]])
      then show ?thesis
        using assms(1-3) a None
        by (auto simp: beginAutomationRun_def invocation_of_def Let_def t_def [symmetric] row_def [symmetric] begun_before_def
            split: if_splits option.splits)
    qed
  qed
  then obtain t1 r where t1: "ad_runs db1 = Some t1" "kept t t1" "find_invocation t1 who (bg_task b) key = Some r" "au_run_id r = ra_run_id a"
    by blast
  have d1: "ensureAutomationRunsTable db1 = t1" by (rule ensure_again [of db]) (use e t1 in \<open>auto simp: t_def\<close>)
  have k: "kept t1 u" using kept_steps [OF assms(5)] by (simp add: d1)
  have d2: "ensureAutomationRunsTable db2 = u"
    by (rule ensure_again [of db]) (use kept_trans [OF t1(2) k] assms(6,7) in \<open>auto simp: t_def\<close>)
  obtain r' where r': "find_invocation u who (bg_task b) key = Some r'" "evolves r r'" using kept_invocation [OF k t1(3)] by blast
  have "auto_key r' = auto_key r" "invocation r' = Some (who, bg_task b, key)"
    using r' by (auto simp: evolves_def find_invocation_eq find_Some_iff)
  then have f: "au_run_id r' = ra_run_id a" "au_task_name r' = bg_task b"
    using t1(4) by (auto simp: auto_key_def invocation_def split: option.splits)
  have "db2\<lparr>ad_runs := Some u\<rparr> = db2" using assms(6) by simp
  then show ?thesis
    by (simp add: beginAutomationRun_def assms(8-11) d2 Let_def invocation_of_def r'(1) begun_before_def f)
qed

lemma runs_of_id:
  assumes "auto_ok t" "filter (\<lambda>r. au_run_id r = i \<and> au_source_contract r = Run_V2) t = [r]"
  shows "find_run t (au_task_name r) i = Some r \<and> au_run_id r = i \<and> au_source_contract r = Run_V2"
proof -
  have r: "r \<in> set t" "au_run_id r = i" "au_source_contract r = Run_V2"
    using arg_cong [OF assms(2), of set] by auto
  have "find (\<lambda>x. auto_key x = auto_key r) t = Some r"
    using conjunct1 [OF assms(1) [unfolded auto_ok_def]] r(1) by (induction t) auto
  then show ?thesis using r by (simp add: find_key auto_key_def)
qed

text \<open>C27: a run ends once: after an end was accepted, and any statements of other workers, the same end is
  answered IDEMPOTENT_REPLAY with the same outcome, and an end with another payload is refused with
  AUTOMATION_RUN_CONFLICT; in both cases the table is left as it is. (The run ids of the table are unique
  and the hash has its 64 digits.)\<close>

theorem end_once:
  assumes "endAutomationRun sha others v call db = (db1, Inr a)" "parseEnd v = Inr e" "others_auto others"
    and "\<And>x. sha x \<noteq> ''''" "auto_ok (ensureAutomationRunsTable db)"
    and "auto_steps (ensureAutomationRunsTable db1) ss u" "ad_runs db2 = Some u" "ad_legacy db2 = ad_legacy db"
    and "parseEnd v' = Inr e'" "en_run_id e' = en_run_id e"
    and "length (filter (\<lambda>r. au_run_id r = en_run_id e \<and> au_source_contract r = Run_V2) u) = 1"
  shows "endAutomationRun sha others' v' call' db2 = (db2,
    if sha256Hex sha (final_payload e') = sha256Hex sha (final_payload e)
    then Inr (a\<lparr>ra_status := ''IDEMPOTENT_REPLAY''\<rparr>)
    else Inl (run_conflict ''run already has a different terminal outcome'' (rc_request_id call')))"
proof -
  define t where "t = ensureAutomationRunsTable db"
  define h where "h = sha256Hex sha (final_payload e)"
  have hs: "hash_set (Some h)" using assms(4) by (simp add: h_def sha256Hex_def hash_set_def)
  have ok: "auto_ok t" using assms(5) by (simp add: t_def)
  have e: "ad_legacy db1 = ad_legacy db \<and> (\<exists>t1 r. ad_runs db1 = Some t1 \<and> kept t t1 \<and> find_run t1 (au_task_name r) (en_run_id e) = Some r
      \<and> au_run_id r = en_run_id e \<and> au_source_contract r = Run_V2 \<and> au_final_payload_sha256 r = Some h
      \<and> ra_run_id a = au_run_id r \<and> ra_task_name a = au_task_name r \<and> ra_outcome a = au_outcome r)"
  proof -
    obtain x where x: "filter (\<lambda>r. au_run_id r = en_run_id e \<and> au_source_contract r = Run_V2) t = [x]"
      using assms(1) by (auto simp: endAutomationRun_def assms(2) Let_def t_def [symmetric] split: list.splits)
    note fx = runs_of_id [OF ok x]
    show ?thesis
    proof (cases "hash_set (au_final_payload_sha256 x)")
      case True
      then have "db1 = db\<lparr>ad_runs := Some t\<rparr>" "a = ended ''IDEMPOTENT_REPLAY'' x" "au_final_payload_sha256 x = Some h"
        using assms(1) x fx
        by (auto simp: endAutomationRun_def assms(2) Let_def t_def [symmetric] h_def [symmetric] split: if_splits)
      then show ?thesis using fx by (intro conjI exI [of _ t] exI [of _ x]) (simp_all add: ended_def)
    next
      case False
      let ?w = "ao_before_read others (end_statement (au_task_name x) (au_run_id x) (end_of sha e (rc_now call)) (ao_before_write others t))"
      have k: "kept t ?w"
        using kept_trans [OF others_kept(1) [OF assms(3)] kept_trans [OF kept_map others_kept(2) [OF assms(3)]]] updates_evolve(1)
        by (simp add: updates_as_map(1))
      then obtain y where y: "find_run ?w (au_task_name x) (en_run_id e) = Some y" "evolves x y" using kept_run fx by blast
      have "au_run_id y = en_run_id e" "au_task_name y = au_task_name x" "au_source_contract y = Run_V2"
        using y(2) fx by (auto simp: evolves_def auto_key_def)
      moreover have "db1 = db\<lparr>ad_runs := Some ?w\<rparr>" "a = ended ''RECORDED'' y" "au_final_payload_sha256 y = Some h"
        using assms(1) x fx y False
        by (auto simp: endAutomationRun_def assms(2) Let_def t_def [symmetric] h_def [symmetric] split: if_splits)
      ultimately show ?thesis using k y(1) by (intro conjI exI [of _ ?w] exI [of _ y]) (simp_all add: ended_def)
    qed
  qed
  then obtain t1 r where t1: "ad_runs db1 = Some t1" "kept t t1" and f: "find_run t1 (au_task_name r) (en_run_id e) = Some r"
    and r: "au_run_id r = en_run_id e" "au_source_contract r = Run_V2" "au_final_payload_sha256 r = Some h"
    and a: "ra_run_id a = au_run_id r" "ra_task_name a = au_task_name r" "ra_outcome a = au_outcome r"
    by blast
  have d1: "ensureAutomationRunsTable db1 = t1" by (rule ensure_again [of db]) (use e t1 in \<open>auto simp: t_def\<close>)
  have k: "kept t1 u" using kept_steps [OF assms(6)] by (simp add: d1)
  have d2: "ensureAutomationRunsTable db2 = u"
    by (rule ensure_again [of db]) (use kept_trans [OF t1(2) k] assms(7,8) in \<open>auto simp: t_def\<close>)
  obtain r' where r': "find_run u (au_task_name r) (en_run_id e) = Some r'" "evolves r r'" using kept_run [OF k f] by blast
  have "settled r" using r by (simp add: settled_def)
  then have s: "au_run_id r' = en_run_id e" "au_task_name r' = au_task_name r" "au_source_contract r' = Run_V2"
    "au_final_payload_sha256 r' = Some h" "au_outcome r' = au_outcome r"
    using r' r by (auto simp: evolves_def auto_key_def result_of_run_def)
  obtain z where z: "filter (\<lambda>r. au_run_id r = en_run_id e \<and> au_source_contract r = Run_V2) u = [z]"
    using assms(11) by (auto simp: length_Suc_conv)
  have "r' \<in> set (filter (\<lambda>r. au_run_id r = en_run_id e \<and> au_source_contract r = Run_V2) u)"
    using r'(1) s by (auto simp: find_run_def find_Some_iff)
  then have z': "z = r'" unfolding z by simp
  have "db2\<lparr>ad_runs := Some u\<rparr> = db2" using assms(7) by simp
  then show ?thesis
    using hs s a r(1) by (auto simp: endAutomationRun_def assms(9,10) d2 Let_def z z' h_def [symmetric] ended_def)
qed

text \<open>C28: an event is recorded once: after an event of the first contract was accepted, and any statements
  of other workers, the same event is answered IDEMPOTENT_REPLAY and an event of that run and phase with
  another payload is refused with AUTOMATION_RUN_CONFLICT; the table is left as it is. (Runs of the second
  contract carry no event hash.)\<close>

theorem event_once:
  assumes "recordAutomationRunEvent lp sha others v call db = (db1, Inr a)" "parseLegacyEvent lp v = Inr e" "others_auto others"
    and "\<And>x. sha x \<noteq> ''''" "auto_steps (ensureAutomationRunsTable db1) ss u" "ad_runs db2 = Some u" "ad_legacy db2 = ad_legacy db"
    and "\<And>r. r \<in> set u \<Longrightarrow> au_source_contract r = Run_V2 \<Longrightarrow> event_hash (ev_phase e) r = None"
    and "parseLegacyEvent lp v' = Inr e'" "ev_task_name e' = ev_task_name e" "ev_run_id e' = ev_run_id e" "ev_phase e' = ev_phase e"
  shows "recordAutomationRunEvent lp sha others' v' call' db2 = (db2,
    if sha256Hex sha (caller_payload e') = sha256Hex sha (caller_payload e)
    then Inr (event_answer_of ''IDEMPOTENT_REPLAY'' e' (sha256Hex sha (caller_payload e)))
    else Inl (run_conflict ''automation run event key already exists with different payload'' (rc_request_id call')))"
proof -
  define t where "t = ensureAutomationRunsTable db"
  define h where "h = sha256Hex sha (caller_payload e)"
  have hs: "hash_set (Some h)" using assms(4) by (simp add: h_def sha256Hex_def hash_set_def)
  have e: "ad_legacy db1 = ad_legacy db \<and> (\<exists>t1 r. ad_runs db1 = Some t1 \<and> kept t t1
      \<and> find_run t1 (ev_task_name e) (ev_run_id e) = Some r \<and> event_hash (ev_phase e) r = Some h)"
  proof (cases "hash_set (Option.bind (find_run t (ev_task_name e) (ev_run_id e)) (event_hash (ev_phase e)))")
    case True
    then obtain r where "find_run t (ev_task_name e) (ev_run_id e) = Some r" by (auto simp: hash_set_def bind_eq_Some_conv)
    moreover from this True have "db1 = db\<lparr>ad_runs := Some t\<rparr>" "event_hash (ev_phase e) r = Some h"
      using assms(1) by (auto simp: recordAutomationRunEvent_def assms(2) Let_def t_def [symmetric] h_def [symmetric] split: if_splits)
    ultimately show ?thesis by (intro conjI exI [of _ t] exI [of _ r]) simp_all
  next
    case False
    define s where "s = \<lparr>st_build_sha = rc_build_sha call, st_version_id = rc_version_id call, st_now = rc_now call\<rparr>"
    obtain t1 changed where w: "write_event e h s (find_run t (ev_task_name e) (ev_run_id e)) (ao_before_write others t) = (t1, changed)"
      by fastforce
    have "kept (ao_before_write others t) t1"
    proof (cases "find_run t (ev_task_name e) (ev_run_id e)")
      case None
      then have "t1 = fst (insert_or_ignore (event_row e h s) (ao_before_write others t))" using w by (simp add: write_event_def)
      then show ?thesis by (simp add: kept_insert)
    next
      case (Some x)
      then have "t1 = event_statement e h s (ao_before_write others t)" using w by (simp add: write_event_def)
      then show ?thesis by (simp add: updates_as_map kept_map updates_evolve)
    qed
    then have k: "kept t (ao_before_read others t1)"
      using kept_trans [OF others_kept(1) [OF assms(3)] kept_trans [OF _ others_kept(2) [OF assms(3)]]] by blast
    have "db1 = db\<lparr>ad_runs := Some (ao_before_read others t1)\<rparr>"
      "Option.bind (find_run (ao_before_read others t1) (ev_task_name e) (ev_run_id e)) (event_hash (ev_phase e)) = Some h"
      using assms(1) False w
      by (auto simp: recordAutomationRunEvent_def assms(2) Let_def t_def [symmetric] h_def [symmetric] s_def [symmetric] split: if_splits)
    then show ?thesis using k by (auto simp: bind_eq_Some_conv)
  qed
  then obtain t1 r where t1: "ad_runs db1 = Some t1" "kept t t1" and r: "find_run t1 (ev_task_name e) (ev_run_id e) = Some r"
    "event_hash (ev_phase e) r = Some h" by blast
  have d1: "ensureAutomationRunsTable db1 = t1" by (rule ensure_again [of db]) (use e t1 in \<open>auto simp: t_def\<close>)
  have k: "kept t1 u" using kept_steps [OF assms(5)] by (simp add: d1)
  have d2: "ensureAutomationRunsTable db2 = u"
    by (rule ensure_again [of db]) (use kept_trans [OF t1(2) k] assms(6,7) in \<open>auto simp: t_def\<close>)
  obtain r' where r': "find_run u (ev_task_name e) (ev_run_id e) = Some r'" "evolves r r'" using kept_run [OF k r(1)] by blast
  have h': "event_hash (ev_phase e) r' = Some h" using r'(2) r(2) by (auto simp: evolves_def)
  have "r' \<in> set u" using r'(1) by (auto simp: find_run_def find_Some_iff)
  then have c: "au_source_contract r' = Legacy_Event_V1" using assms(8) h' by (cases "au_source_contract r'") auto
  have "db2\<lparr>ad_runs := Some u\<rparr> = db2" using assms(6) by simp
  then show ?thesis
    using hs by (auto simp: recordAutomationRunEvent_def assms(9-12) d2 Let_def r'(1) h' c h_def [symmetric])
qed

section \<open>Facts: history\<close>

interpretation newest_first: comparator by_time
  by unfold_locales (auto simp: by_time_def)

lemma recent_cap: "length (sql_recent column n rows) \<le> n" "set (sql_recent column n rows) \<subseteq> set rows"
  by (auto simp: sql_recent_def dest: in_set_takeD)

lemma recent_all: "length rows \<le> n \<Longrightarrow> set (sql_recent column n rows) = set rows"
  by (simp add: sql_recent_def)

lemma history_limit_bounds: "1 \<le> history_limit limit" "history_limit limit \<le> 100"
  by (auto simp: history_limit_def split: option.split)


text \<open>A time with an offset is compared as a text: there are a run and a time for which the history
  since that time leaves the run out although the run finished after it.\<close>

theorem history_since_textual:
  "\<exists>q db h since finished r. getAutomationRunHistory (\<lambda>_. None) q db None = (db, Some [], Inr h) \<and> hi_runs h = []
     \<and> hq_since q = Some since \<and> ad_runs db = Some [r] \<and> au_finished_at r = Some finished
     \<and> the (date_parse (\<lambda>_. None) since) < the (date_parse (\<lambda>_. None) finished)
     \<and> date_parse (\<lambda>_. None) since \<noteq> None \<and> date_parse (\<lambda>_. None) finished \<noteq> None"
proof -
  let ?since = "''2026-01-05T12:00:00+08:00''" and ?finished = "''2026-01-05T10:00:00.000Z''"
  define b where "b = \<lparr>bg_task = ''company-facts'', bg_invocation_key = None, bg_prompt_version = None\<rparr>"
  define call where "call = \<lparr>rc_now = ?finished, rc_request_id = ''r'', rc_build_sha = None, rc_version_id = None\<rparr>"
  define r where "r = (begun_row b ''run_1'' ''p'' call)\<lparr>au_finished_at := Some ?finished\<rparr>"
  define db where "db = \<lparr>ad_runs = Some [r], ad_legacy = None\<rparr>"
  define q where "q = \<lparr>hq_task_name = None, hq_since = Some ?since, hq_limit = None, hq_now = ?finished, hq_request_id = ''r''\<rparr>"
  have d: "date_parse (\<lambda>_. None) ?since = Some 1767585600000" "date_parse (\<lambda>_. None) ?finished = Some 1767607200000" by code_simp+
  have c: "trimmed_or_none (Some ?since) = Some ?since" "trimmed_or_none None = None" by code_simp+
  have l: "\<not> ?since \<le> ?finished" by code_simp
  have s: "\<not> selected None (Some ?since) (au_task_name r) (run_time r)"
    using l by (simp add: selected_def run_time_def r_def coalesce_def)
  have "getAutomationRunHistory (\<lambda>_. None) q db None = (db, Some [],
      Inr \<lparr>hi_task_name = None, hi_since = Some ?since, hi_runs = []\<rparr>)"
    using d c s
    by (simp add: getAutomationRunHistory_def q_def db_def validIso_def Let_def ensureAutomationRunsTable_def
        ensureRunEnvelopeTables_def keyed_rows_def sql_recent_def sort_by_def)
  moreover have "au_finished_at r = Some ?finished" by (simp add: r_def)
  ultimately show ?thesis
    by (intro exI [of _ q] exI [of _ db] exI [of _ "\<lparr>hi_task_name = None, hi_since = Some ?since, hi_runs = []\<rparr>"]
        exI [of _ ?since] exI [of _ ?finished] exI [of _ r]) (simp add: d, simp add: q_def db_def)
qed

section \<open>Witnesses\<close>

definition quiet_auto :: auto_others where
  "quiet_auto = \<lparr>ao_before_write = (\<lambda>t. t), ao_before_read = (\<lambda>t. t)\<rparr>"

definition begin_arg :: jsval where
  "begin_arg = JObj [(''task'', JStr ''company-facts''), (''invocation_key'', JStr ''k1'')]"

definition end_arg :: "int \<Rightarrow> jsval" where
  "end_arg n = JObj [(''run_id'', JStr ''run_0001''), (''outcome'', JStr ''COMPLETED''), (''fresh_delta_count'', JInt n),
     (''notification_intended'', JBool True)]"

definition some_call :: run_call where
  "some_call = \<lparr>rc_now = early, rc_request_id = ''r'', rc_build_sha = None, rc_version_id = None\<rparr>"

definition empty_db :: auto_db where
  "empty_db = \<lparr>ad_runs = None, ad_legacy = None\<rparr>"

definition begun :: auto_run where
  "begun = begun_row \<lparr>bg_task = ''company-facts'', bg_invocation_key = Some ''k1'', bg_prompt_version = None\<rparr> ''run_0001'' ''p'' some_call"

definition begun_db :: auto_db where
  "begun_db = \<lparr>ad_runs = Some [begun], ad_legacy = None\<rparr>"

lemma quiet_others: "others_auto quiet_auto"
  using auto_nil by (auto simp: others_auto_def quiet_auto_def)

lemma sample_begin:
  "parseBegin begin_arg = Inr \<lparr>bg_task = ''company-facts'', bg_invocation_key = Some ''k1'', bg_prompt_version = None\<rparr>"
  "beginAutomationRun (\<lambda>_. None) quiet_auto begin_arg ''p'' ''run_0001'' some_call empty_db =
    (begun_db, Inr \<lparr>ra_status = ''RECORDED'', ra_run_id = ''run_0001'', ra_task_name = ''company-facts'', ra_outcome = None\<rparr>)"
  by code_simp+

theorem begin_then_replay_witness:
  "beginAutomationRun (\<lambda>_. None) quiet_auto begin_arg ''p'' ''run_0002'' some_call begun_db =
    (begun_db, Inr \<lparr>ra_status = ''IDEMPOTENT_REPLAY'', ra_run_id = ''run_0001'', ra_task_name = ''company-facts'', ra_outcome = None\<rparr>)"
proof -
  have s: "auto_steps (ensureAutomationRunsTable begun_db) [] [begun]" "ad_runs begun_db = Some [begun]" "ad_legacy begun_db = ad_legacy empty_db"
    by (simp_all add: ensureAutomationRunsTable_def begun_db_def empty_db_def auto_nil)
  have v: "validIso (\<lambda>_. None) (Some (rc_now some_call))" by code_simp
  show ?thesis
    using begin_then_replay [OF sample_begin(2,1) _ quiet_others s sample_begin(1) _ _ v] by simp
qed

definition ended_run :: auto_run where
  "ended_run = the (find_run (the (ad_runs (fst (endAutomationRun sample_hash quiet_auto (end_arg 2) some_call begun_db)))) ''company-facts'' ''run_0001'')"

definition ended_db :: auto_db where
  "ended_db = \<lparr>ad_runs = Some [ended_run], ad_legacy = None\<rparr>"

definition end_parsed :: "int \<Rightarrow> end_input" where
  "end_parsed n = \<lparr>en_run_id = ''run_0001'', en_outcome = ''COMPLETED'', en_fresh_delta_count = n, en_notification_intended = True,
     en_reason = None\<rparr>"

lemma sample_end:
  "parseEnd (end_arg 2) = Inr (end_parsed 2)"
  "endAutomationRun sample_hash quiet_auto (end_arg 2) some_call begun_db =
    (ended_db, Inr \<lparr>ra_status = ''RECORDED'', ra_run_id = ''run_0001'', ra_task_name = ''company-facts'', ra_outcome = Some ''COMPLETED''\<rparr>)"
  by code_simp+

theorem end_once_witness:
  "endAutomationRun sample_hash quiet_auto (end_arg 2) some_call ended_db =
    (ended_db, Inr \<lparr>ra_status = ''IDEMPOTENT_REPLAY'', ra_run_id = ''run_0001'', ra_task_name = ''company-facts'', ra_outcome = Some ''COMPLETED''\<rparr>)"
proof -
  have h: "sample_hash x \<noteq> ''''" for x by (simp add: sample_hash_def)
  have ok: "auto_ok (ensureAutomationRunsTable begun_db)" by code_simp
  have s: "auto_steps (ensureAutomationRunsTable ended_db) [] [ended_run]" "ad_runs ended_db = Some [ended_run]" "ad_legacy ended_db = ad_legacy begun_db"
    by (simp_all add: ensureAutomationRunsTable_def begun_db_def ended_db_def auto_nil)
  have l: "length (filter (\<lambda>r. au_run_id r = en_run_id (end_parsed 2) \<and> au_source_contract r = Run_V2) [ended_run]) = 1" by code_simp
  show ?thesis
    using end_once [OF sample_end(2,1) quiet_others h ok s sample_end(1) _ l] by simp
qed

theorem run_results_final_witness:
  "\<exists>r'. find_run (auto_effect (End_Auto ''company-facts'' ''run_0001'' (end_of sample_hash (end_parsed 5) later)) [ended_run])
      ''company-facts'' ''run_0001'' = Some r' \<and> au_fresh_delta_count r' = Some 2"
proof -
  have f: "auto_ok [ended_run]" "find_run [ended_run] ''company-facts'' ''run_0001'' = Some ended_run" "settled ended_run"
    "au_fresh_delta_count ended_run = Some 2" by code_simp+
  have s: "auto_steps [ended_run] [End_Auto ''company-facts'' ''run_0001'' (end_of sample_hash (end_parsed 5) later)]
      (auto_effect (End_Auto ''company-facts'' ''run_0001'' (end_of sample_hash (end_parsed 5) later)) [ended_run])"
    by (rule auto_cons [OF auto_nil])
  show ?thesis using run_results_final [OF s f(1,2)] f(3,4) by (auto simp: result_of_run_def)
qed


definition event_arg :: jsval where
  "event_arg = JObj [(''task_name'', JStr ''t''), (''run_id'', JStr ''run_0001''), (''phase'', JStr ''STARTED''),
     (''status'', JStr ''STARTED''), (''occurred_at'', JStr early)]"

definition event_parsed :: run_event where
  "event_parsed = projr (parseLegacyEvent (\<lambda>_. None) event_arg)"

definition event_db :: auto_db where
  "event_db = fst (recordAutomationRunEvent (\<lambda>_. None) sample_hash quiet_auto event_arg some_call empty_db)"

lemma sample_recorded:
  "parseLegacyEvent (\<lambda>_. None) event_arg = Inr event_parsed"
  "recordAutomationRunEvent (\<lambda>_. None) sample_hash quiet_auto event_arg some_call empty_db =
    (event_db, Inr (event_answer_of ''RECORDED'' event_parsed (sample_hash JNull)))"
  "ad_runs event_db = Some (the (ad_runs event_db))" "ad_legacy event_db = ad_legacy empty_db"
  "list_all (\<lambda>r. au_source_contract r = Legacy_Event_V1) (the (ad_runs event_db))"
  by code_simp+

theorem event_once_witness:
  "recordAutomationRunEvent (\<lambda>_. None) sample_hash quiet_auto event_arg some_call event_db =
    (event_db, Inr (event_answer_of ''IDEMPOTENT_REPLAY'' event_parsed (sample_hash JNull)))"
proof -
  have h: "sample_hash x \<noteq> ''''" for x by (simp add: sample_hash_def)
  have s: "auto_steps (ensureAutomationRunsTable event_db) [] (the (ad_runs event_db))"
  proof -
    have "ensureAutomationRunsTable event_db = the (ad_runs event_db)" by code_simp
    then show ?thesis by (simp add: auto_nil)
  qed
  have l: "event_hash (ev_phase event_parsed) r = None" if "r \<in> set (the (ad_runs event_db))" "au_source_contract r = Run_V2" for r
    using sample_recorded(5) that by (auto simp: list_all_iff)
  have "sha256Hex sample_hash (caller_payload event_parsed) = sample_hash JNull" by (simp add: sha256Hex_def sample_hash_def)
  then show ?thesis
    using event_once [OF sample_recorded(2,1) quiet_others h s sample_recorded(3,4) l sample_recorded(1)] by simp
qed

end
