(* ===== verification/Spec2Isabelle.thy ===== *)
theory Spec2Isabelle
  imports Quota_Ledger Quota_Metering Portfolio_Delta Live_Overlay Quote_Projections Dynamic_Quotes Quote_Catalog State_Receipts Read_Retry Ledger_Comments Market_Ledger Zod_Schemas Investment_Ledger State_Gateway State_Commands Run_Envelope Automation_Runs
begin

text \<open>
  A verification library of the quantpro collector (\<open>src/src\<close>, a Cloudflare worker in TypeScript).
  The worker keeps a portfolio and its quotes in KV, counts what it uses of the provider's quotas,
  and is the one writer of two append-only ledgers that live as comments of GitHub issues. Each
  theory models one module of the worker; definitions carry the names of the source.

  \<^bold>\<open>Base.\<close> \<open>Js_Prelude\<close>: JavaScript values and objects (an object is the list of its fields in
  order), guards (\<open>throw_if\<close>, \<open>bindE\<close>), sorting by a comparator (locale \<open>comparator\<close>), the named
  collections of rules. \<open>Js_Date\<close>: calendar days, \<open>Date.parse\<close>, \<open>toISOString\<close> with their round trip.
  \<open>Kv_Store\<close>: the contract of a stored document (locale \<open>kv_document\<close>), interpreted for the portfolio
  status, the universe delta, the LIVE universe and the quote catalog. \<open>Zod_Schemas\<close>: the schema
  combinators the ledgers use.

  \<^bold>\<open>Quotas.\<close> \<open>Quota_Dimensions\<close> (\<open>quota-dimensions.ts\<close>): the catalog, the thresholds, UTC days and
  account cycles. \<open>Quota_Billing\<close> (\<open>quota-billing.ts\<close>): the provider's usage payload, accepted only
  when nothing about it is doubtful. \<open>Quota_Observers\<close> (\<open>quota-resource-adapters.ts\<close>): what the
  wrapped D1, R2, AI and Vectorize bindings count. \<open>Quota_Ledger\<close> (\<open>quota-admission.ts\<close>): the usage
  tables and the status of every dimension. \<open>Quota_Metering\<close> (\<open>quota-metering.ts\<close>): usage per client
  and hour, and the search circuit.

  \<^bold>\<open>Portfolio and quotes.\<close> \<open>Portfolio_Validation\<close>, \<open>Portfolio_Status\<close>, \<open>Portfolio_Delta\<close>: snapshot
  validation, the state derived from it and the delta between complete observations. \<open>Live_Universe\<close>
  and \<open>Live_Overlay\<close>: the LIVE universe and its projection on a snapshot, and who may see it.
  \<open>Dynamic_Quotes\<close>, \<open>Quote_Catalog\<close>, \<open>Quote_Projections\<close>: quotes fetched for identities, the catalog
  without positions, the public projection. The lemmas show what each accepts, that stored documents
  read back, that a projection shows nothing it must not, and that a merged or projected snapshot
  is valid again.

  \<^bold>\<open>Ledgers.\<close> \<open>Read_Retry\<close> (\<open>state-ledger-read-retry.ts\<close>, \<open>research-read-retry.ts\<close>): the retry loops,
  as \<open>partial_function (option)\<close> and proved to return: a loop makes one call more than it has delays.
  \<open>Ledger_Comments\<close>: what \<open>market-ledger.ts\<close> and \<open>investment-ledger.ts\<close> share, the paginated reads, the
  post and its readback; GitHub is a function from the requests made so far and the next request to
  an answer, so every theorem holds for every behaviour of it, and the trace of requests shows what was
  posted. A listing follows at most 100 pages, the bound of the code, of at most three attempts each.
  \<open>Market_Ledger\<close>: checkpoints, their schemas and relations, the state of a day (the locale \<open>three_way\<close> for
  the comparator, interpreted by the comparison of code units), the transition of the
  universe, the append. \<open>Investment_Ledger\<close>: event batches, what each role owns, the state by symbol.
  \<open>State_Receipts\<close>: the receipts of the writes in D1 with their leases; each SQL statement is an atomic
  function on the table and the step relation \<open>receipt_step\<close> interleaves the workers.
  \<open>State_Gateway\<close>: validation, the dependencies of a CLOSE batch, the snapshot, and the append that
  reserves a receipt, posts and settles it. The lemmas show what may be posted, that posted values read
  back as equal and replay, that settled receipts are final, that a lease excludes, and for the
  composition that a write key is written once and its receipt tells the outcome.

  \<^bold>\<open>Runs.\<close> \<open>State_Commands\<close> (\<open>state-commands.ts\<close>): the short commands of a writer, the batch or market
  observation built of them and their identity; the lemmas show that what is built passes the
  validation of the ledgers, which changes of a command keep its identity and which do not.
  \<open>Run_Envelope\<close> (\<open>run-envelope.ts\<close>): one call of a scheduled task, reserved in \<open>automation_runs_v3\<close>,
  executed through the gateway and recorded. \<open>Automation_Runs\<close> (\<open>automation-run-ledger.ts\<close>): begin, end,
  the events of the first contract, their migration and the history over both tables. In both, each SQL
  statement is an atomic function on the table and what other workers do between the statements of
  a call is an arbitrary sequence of such statements (\<open>run_others\<close>, \<open>auto_others\<close>). The lemmas show that a
  recorded result is final, that a repeated call replays it without a second write, and that an error
  is recorded before it is thrown.

  \<^bold>\<open>Parameters.\<close> What is not under \<open>src/\<close> is an argument: \<open>lp\<close> the dates that \<open>Date.parse\<close> reads
  beyond ISO texts, \<open>lc\<close> the comparison of \<open>localeCompare\<close> (assumed a \<open>three_way\<close> comparator where an
  order is claimed), \<open>sha\<close> and \<open>digest\<close> the hashes, \<open>conv\<close> the number conversion, \<open>provider\<close> and \<open>fetch\<close>
  the answers of remote services, \<open>random\<close> the random source, \<open>meanwhile\<close> what other workers do to the
  receipts, \<open>put_ok\<close> and \<open>fails\<close> the outcomes of KV and D1 writes.

  \<^bold>\<open>Not modelled.\<close> Rounding of doubles (numbers are exact rationals or integers), code units above 255
  (text literals of the source outside ASCII are written by the escapes of their code units), the
  issue texts of zod in error messages, the decoding of GB18030, headers of requests, the reports
  \<open>getGatewayStatus\<close> and \<open>readBillableUsage\<close> (pure input and output), and the modules that only route, authenticate or issue
  SQL: \<open>index.ts\<close>, the OAuth entry points, \<open>research-semantic-index.ts\<close>, \<open>research-replica.ts\<close>,
  \<open>production-health.ts\<close>.
\<close>

end
